(* ===== verification/Kdoc_Prelude.thy ===== *)
theory Kdoc_Prelude
  imports Main
begin

text \<open>
  Shared vocabulary of the development: Python exceptions as values, the result type every
  fallible operation returns, loops that may raise, insertion-ordered dictionaries, and the
  generic lemmas and lemma collections the component theories use.
\<close>

section \<open>Lemma collections\<close>

named_theorems re_set \<open>membership in the result list of a regular expression, one constructor each\<close>
named_theorems re_lang \<open>the language of a regular expression, one constructor each\<close>
named_theorems frame \<open>fields an operation leaves unchanged\<close>
named_theorems wf_intro \<open>operations that keep a well-formedness invariant\<close>

section \<open>Exceptions and results\<close>

text \<open>The exceptions the modelled Python code can raise, and the result of code that may raise.\<close>

datatype py_err =
    AttributeError | IndexError | KeyError | ValueError | UnboundLocalError | NameError | TypeError | ReError | AssertionError | OSError | SystemExit |
    CalledProcessError | EOFError

type_synonym 'a res = "py_err + 'a"

definition rbind :: "'a res \<Rightarrow> ('a \<Rightarrow> 'b res) \<Rightarrow> 'b res" where
  "rbind x f = (case x of Inl e \<Rightarrow> Inl e | Inr v \<Rightarrow> f v)"

lemma rbind_simps [simp]:
  "rbind (Inl e) f = Inl e"
  "rbind (Inr v) f = f v"
  by (simp_all add: rbind_def)

lemma rbind_Inr_iff: "rbind x f = Inr w \<longleftrightarrow> (\<exists>v. x = Inr v \<and> f v = Inr w)"
  by (cases x) auto

lemma rbind_Inl_iff: "rbind x f = Inl e \<longleftrightarrow> x = Inl e \<or> (\<exists>v. x = Inr v \<and> f v = Inl e)"
  by (cases x) auto

lemma rbind_cong [fundef_cong]:
  "x = y \<Longrightarrow> (\<And>v. y = Inr v \<Longrightarrow> f v = g v) \<Longrightarrow> rbind x f = rbind y g"
  by (cases y) auto

text \<open>Reading an attribute that \<^verbatim>\<open>__init__\<close> does not set raises \<open>AttributeError\<close> until it is assigned.\<close>

definition attr :: "'a option \<Rightarrow> 'a res" where
  "attr x = (case x of None \<Rightarrow> Inl AttributeError | Some v \<Rightarrow> Inr v)"

lemma attr_simps [simp]: "attr None = Inl AttributeError" "attr (Some v) = Inr v"
  by (simp_all add: attr_def)

lemma attr_Inr_iff [simp]: "attr x = Inr v \<longleftrightarrow> x = Some v"
  by (cases x) auto

text \<open>A for loop whose body may raise: the first exception ends it.\<close>

fun fold_res :: "('s \<Rightarrow> 'x \<Rightarrow> 's res) \<Rightarrow> 's \<Rightarrow> 'x list \<Rightarrow> 's res" where
  "fold_res f s [] = Inr s"
| "fold_res f s (x # xs) = rbind (f s x) (\<lambda>s'. fold_res f s' xs)"

lemma fold_res_append: "fold_res f s (xs @ ys) = rbind (fold_res f s xs) (\<lambda>s'. fold_res f s' ys)"
proof (induction xs arbitrary: s)
  case Nil
  show ?case by simp
next
  case (Cons x xs)
  then show ?case by (cases "f s x") auto
qed

lemma fold_res_cong [fundef_cong]:
  "s = t \<Longrightarrow> xs = ys \<Longrightarrow> (\<And>s x. x \<in> set ys \<Longrightarrow> f s x = g s x) \<Longrightarrow> fold_res f s xs = fold_res g t ys"
proof (induction ys arbitrary: s t xs)
  case Nil
  then show ?case by simp
next
  case (Cons y ys)
  then show ?case by (cases "g t y") auto
qed

section \<open>Interfaces of state machines\<close>

text \<open>
  A step that keeps an invariant, and a step that in addition raises only certain errors. The
  loop over the lines of a file is an instance.
\<close>

locale step_inv =
  fixes step :: "'s \<Rightarrow> 'x \<Rightarrow> 's res" and inv :: "'s \<Rightarrow> bool"
  assumes step_keeps: "inv s \<Longrightarrow> step s x = Inr s' \<Longrightarrow> inv s'"
begin

lemma run_keeps: "inv s \<Longrightarrow> fold_res step s xs = Inr s' \<Longrightarrow> inv s'"
proof (induction xs arbitrary: s)
  case Nil
  then show ?case by simp
next
  case (Cons x xs)
  then show ?case by (auto simp: rbind_Inr_iff intro: step_keeps)
qed

end

locale safe_step = step_inv +
  fixes err :: "py_err \<Rightarrow> bool"
  assumes step_errs: "inv s \<Longrightarrow> step s x = Inl e \<Longrightarrow> err e"
begin

lemma run_errs: "inv s \<Longrightarrow> fold_res step s xs = Inl e \<Longrightarrow> err e"
proof (induction xs arbitrary: s)
  case Nil
  then show ?case by simp
next
  case (Cons x xs)
  then show ?case by (auto simp: rbind_Inl_iff dest: step_errs intro: step_keeps)
qed

lemma run_safe: "inv s \<Longrightarrow> (\<exists>s'. fold_res step s xs = Inr s' \<and> inv s') \<or> (\<exists>e. fold_res step s xs = Inl e \<and> err e)"
  using run_keeps run_errs by (cases "fold_res step s xs") auto

end

section \<open>Outcomes\<close>

text \<open>
  A result that, if it is a value, satisfies a predicate, and that is an exception only of a given
  set. Sequencing composes such statements.
\<close>

definition safe :: "py_err set \<Rightarrow> ('a \<Rightarrow> bool) \<Rightarrow> 'a res \<Rightarrow> bool" where
  "safe E P r \<longleftrightarrow> (case r of Inl e \<Rightarrow> e \<in> E | Inr v \<Rightarrow> P v)"

lemma safe_simps [simp]:
  "safe E P (Inr v) = P v" "safe E P (Inl e) \<longleftrightarrow> e \<in> E"
  by (simp_all add: safe_def)

lemma safe_rbind: "safe E P x \<Longrightarrow> (\<And>v. P v \<Longrightarrow> safe E Q (f v)) \<Longrightarrow> safe E Q (rbind x f)"
  by (cases x) auto

lemma safe_mono: "safe E P x \<Longrightarrow> (\<And>v. P v \<Longrightarrow> Q v) \<Longrightarrow> safe E Q x"
  by (cases x) auto

lemma safe_errs: "safe E P x \<Longrightarrow> E \<subseteq> F \<Longrightarrow> safe F P x"
  by (cases x) auto

lemma safe_weaken: "safe {} P x \<Longrightarrow> safe E P x"
  by (cases x) auto

lemma safe_False_iff: "safe {} P x \<longleftrightarrow> (\<exists>v. x = Inr v \<and> P v)"
  by (cases x) auto

lemma safe_fold_res:
  "(\<And>s x. P s \<Longrightarrow> x \<in> set xs \<Longrightarrow> safe E P (f s x)) \<Longrightarrow> P s \<Longrightarrow> safe E P (fold_res f s xs)"
  by (induction xs arbitrary: s) (simp, simp, metis safe_rbind)

section \<open>First success\<close>

fun first_some :: "('a \<Rightarrow> 'b option) \<Rightarrow> 'a list \<Rightarrow> 'b option" where
  "first_some f [] = None"
| "first_some f (x # xs) = (case f x of Some y \<Rightarrow> Some y | None \<Rightarrow> first_some f xs)"

lemma first_some_append:
  "first_some f (xs @ ys) = (case first_some f xs of Some y \<Rightarrow> Some y | None \<Rightarrow> first_some f ys)"
  by (induction xs) (auto split: option.splits)

lemma first_some_concat: "first_some f (concat xss) = first_some (first_some f) xss"
  by (induction xss) (auto simp: first_some_append split: option.splits)

lemma first_some_map: "first_some f (map h xs) = first_some (\<lambda>x. f (h x)) xs"
  by (induction xs) (auto split: option.splits)

lemma first_some_cong:
  "(\<And>x. x \<in> set xs \<Longrightarrow> f x = g x) \<Longrightarrow> first_some f xs = first_some g xs"
  by (induction xs) (auto split: option.splits)

lemma first_some_Some: "first_some f xs = Some y \<Longrightarrow> \<exists>x \<in> set xs. f x = Some y"
  by (induction xs) (auto split: option.splits)

lemma first_some_None_iff: "first_some f xs = None \<longleftrightarrow> (\<forall>x \<in> set xs. f x = None)"
  by (induction xs) (auto split: option.splits)

section \<open>Insertion-ordered dictionaries\<close>

text \<open>
  A Python dictionary keeps its insertion order: assigning to a present key replaces the value in
  place, assigning to an absent key appends.
\<close>

type_synonym ('k, 'v) dict = "('k \<times> 'v) list"

definition dict_get :: "('k, 'v) dict \<Rightarrow> 'k \<Rightarrow> 'v option" where
  "dict_get d k = map_of d k"

definition dict_has :: "('k, 'v) dict \<Rightarrow> 'k \<Rightarrow> bool" where
  "dict_has d k = (dict_get d k \<noteq> None)"

fun dict_set :: "('k, 'v) dict \<Rightarrow> 'k \<Rightarrow> 'v \<Rightarrow> ('k, 'v) dict" where
  "dict_set [] k v = [(k, v)]"
| "dict_set ((a, b) # d) k v = (if a = k then (k, v) # d else (a, b) # dict_set d k v)"

fun dict_del :: "('k, 'v) dict \<Rightarrow> 'k \<Rightarrow> ('k, 'v) dict" where
  "dict_del [] k = []"
| "dict_del ((a, b) # d) k = (if a = k then d else (a, b) # dict_del d k)"

definition dict_keys :: "('k, 'v) dict \<Rightarrow> 'k list" where
  "dict_keys d = map fst d"

definition dict_wf :: "('k, 'v) dict \<Rightarrow> bool" where
  "dict_wf d = distinct (dict_keys d)"

lemma dict_set_get: "dict_get (dict_set d k v) = (dict_get d)(k := Some v)"
proof (induction d)
  case Nil
  show ?case by (simp add: dict_get_def)
next
  case (Cons x d)
  obtain a b where [simp]: "x = (a, b)" by force
  show ?case using Cons by (auto simp: dict_get_def fun_eq_iff)
qed

lemma dict_keys_simps [simp]: "dict_keys [] = []" "dict_keys (x # d) = fst x # dict_keys d"
  by (simp_all add: dict_keys_def)

lemma dict_keys_set: "set (dict_keys (dict_set d k v)) = insert k (set (dict_keys d))"
  by (induction d k v rule: dict_set.induct) (simp_all add: insert_commute)

lemma dict_keys_del: "dict_wf d \<Longrightarrow> set (dict_keys (dict_del d k)) = set (dict_keys d) - {k}"
  by (induction d k rule: dict_del.induct) (simp_all add: dict_wf_def insert_Diff_if, blast)

lemma dict_wf_set: "dict_wf d \<Longrightarrow> dict_wf (dict_set d k v)"
proof (induction d)
  case Nil
  show ?case by (simp add: dict_wf_def)
next
  case (Cons x d)
  obtain a b where [simp]: "x = (a, b)" by force
  have "a \<in> set (dict_keys (dict_set d k v)) \<longleftrightarrow> a = k \<or> a \<in> set (dict_keys d)"
    by (simp add: dict_keys_set)
  with Cons show ?case by (auto simp: dict_wf_def)
qed

lemma dict_wf_del: "dict_wf d \<Longrightarrow> dict_wf (dict_del d k)"
proof (induction d)
  case Nil
  show ?case by (simp add: dict_wf_def)
next
  case (Cons x d)
  obtain a b where [simp]: "x = (a, b)" by force
  from Cons.prems have "dict_wf d" by (simp add: dict_wf_def)
  then have "set (dict_keys (dict_del d k)) \<subseteq> set (dict_keys d)"
    by (simp add: dict_keys_del)
  with Cons show ?case by (auto simp: dict_wf_def)
qed

lemma dict_del_get: "dict_wf d \<Longrightarrow> dict_get (dict_del d k) = (dict_get d)(k := None)"
proof (induction d)
  case Nil
  show ?case by (simp add: dict_get_def fun_eq_iff)
next
  case (Cons x d)
  obtain a b where [simp]: "x = (a, b)" by force
  have "a \<notin> set (map fst d)" using Cons.prems by (simp add: dict_wf_def dict_keys_def)
  then have "map_of d a = None" by (simp add: map_of_eq_None_iff)
  moreover have "dict_wf d" using Cons.prems by (simp add: dict_wf_def)
  ultimately show ?case using Cons.IH by (auto simp: dict_get_def fun_eq_iff)
qed

lemma dict_has_keys: "dict_has d k \<longleftrightarrow> k \<in> set (dict_keys d)"
  by (simp add: dict_has_def dict_get_def dict_keys_def map_of_eq_None_iff)

lemma dict_has_set: "dict_has (dict_set d k v) k' \<longleftrightarrow> k' = k \<or> dict_has d k'"
  by (simp add: dict_has_def dict_set_get)

text \<open>The interface the parser relies on, with what follows from its laws alone.\<close>

locale ordered_dict =
  fixes get :: "'d \<Rightarrow> 'k \<Rightarrow> 'v option"
    and put :: "'d \<Rightarrow> 'k \<Rightarrow> 'v \<Rightarrow> 'd"
    and del :: "'d \<Rightarrow> 'k \<Rightarrow> 'd"
    and keys :: "'d \<Rightarrow> 'k list"
    and wf :: "'d \<Rightarrow> bool"
  assumes get_put: "get (put d k v) = (get d)(k := Some v)"
    and get_del: "wf d \<Longrightarrow> get (del d k) = (get d)(k := None)"
    and keys_get: "k \<in> set (keys d) \<longleftrightarrow> get d k \<noteq> None"
    and wf_put: "wf d \<Longrightarrow> wf (put d k v)"
    and wf_del: "wf d \<Longrightarrow> wf (del d k)"
begin

lemma keys_put: "set (keys (put d k v)) = insert k (set (keys d))"
  by (auto simp: keys_get get_put split: if_splits)

lemma keys_del: "wf d \<Longrightarrow> set (keys (del d k)) = set (keys d) - {k}"
  by (auto simp: keys_get get_del split: if_splits)

lemma move_key:
  assumes "wf d" and "get d old = Some v" and "old \<noteq> new"
  shows "get (put (del d old) new v) = (get d)(old := None, new := Some v)"
  using assms by (simp add: get_put get_del fun_upd_twist)

end

interpretation od: ordered_dict dict_get dict_set dict_del dict_keys dict_wf
  by unfold_locales
    (simp_all add: dict_set_get dict_del_get dict_wf_set dict_wf_del dict_has_keys [symmetric] dict_has_def)

lemmas dict_simps [simp] = od.get_put od.keys_put

end
