(* ===== verification/Py_Str.thy ===== *)
theory Py_Str
  imports Kdoc_Prelude
begin

text \<open>
  The part of Python's \<open>str\<close> type the sources use, over the code points U+0000 to U+00FF
  (HOL's \<open>char\<close>): character classes, stripping, splitting, replacing, tab expansion, decimal
  printing. The classes are those of \<^verbatim>\<open>str.isspace\<close>, \<^verbatim>\<open>str.isalnum\<close> and of the
  \<^verbatim>\<open>re\<close> escapes on that range.
\<close>

section \<open>Characters\<close>

definition code_of :: "char \<Rightarrow> nat" where
  "code_of c = of_char c"

definition chr_of :: "nat \<Rightarrow> char" where
  "chr_of n = char_of n"

abbreviation NL :: char where "NL \<equiv> CHR 0x0A"
abbreviation TAB :: char where "TAB \<equiv> CHR 0x09"
abbreviation BSL :: char where "BSL \<equiv> CHR 0x5C"

text \<open>\<^verbatim>\<open>str.isspace\<close>, also the class \<^verbatim>\<open>\s\<close>.\<close>

definition is_space :: "char \<Rightarrow> bool" where
  "is_space c = (let n = code_of c in
     n = 32 \<or> (9 \<le> n \<and> n \<le> 13) \<or> (28 \<le> n \<and> n \<le> 31) \<or> n = 133 \<or> n = 160)"

text \<open>The class \<^verbatim>\<open>\d\<close>, and the class \<^verbatim>\<open>\w\<close> (alphanumeric or underscore).\<close>

definition is_digit :: "char \<Rightarrow> bool" where
  "is_digit c = (let n = code_of c in 48 \<le> n \<and> n \<le> 57)"

definition is_word :: "char \<Rightarrow> bool" where
  "is_word c = (let n = code_of c in
     (97 \<le> n \<and> n \<le> 122) \<or> (65 \<le> n \<and> n \<le> 90) \<or> n = 95 \<or> (48 \<le> n \<and> n \<le> 57) \<or>
     (170 \<le> n \<and> (n = 170 \<or> n = 178 \<or> n = 179 \<or> n = 181 \<or> n = 185 \<or> n = 186 \<or>
       (188 \<le> n \<and> n \<le> 190) \<or> (192 \<le> n \<and> n \<noteq> 215 \<and> n \<noteq> 247))))"

definition to_lower :: "char \<Rightarrow> char" where
  "to_lower c = (let n = code_of c in
     if (65 \<le> n \<and> n \<le> 90) \<or> (192 \<le> n \<and> n \<le> 222 \<and> n \<noteq> 215) then chr_of (n + 32) else c)"

definition to_upper :: "char \<Rightarrow> char" where
  "to_upper c = (let n = code_of c in
     if (97 \<le> n \<and> n \<le> 122) \<or> (224 \<le> n \<and> n \<le> 254 \<and> n \<noteq> 247) then chr_of (n - 32) else c)"

definition lower_str :: "string \<Rightarrow> string" where
  "lower_str s = map to_lower s"

lemma not_space_NL_word: "is_word c \<Longrightarrow> \<not> is_space c"
  by (auto simp: is_word_def is_space_def Let_def)

lemma is_space_NL [simp]: "is_space NL"
  by code_simp

lemma is_space_blank [simp]: "is_space (CHR '' '')"
  by code_simp

section \<open>Stripping and testing\<close>

definition lstrip_by :: "(char \<Rightarrow> bool) \<Rightarrow> string \<Rightarrow> string" where
  "lstrip_by P s = dropWhile P s"

definition rstrip_by :: "(char \<Rightarrow> bool) \<Rightarrow> string \<Rightarrow> string" where
  "rstrip_by P s = rev (dropWhile P (rev s))"

definition strip_by :: "(char \<Rightarrow> bool) \<Rightarrow> string \<Rightarrow> string" where
  "strip_by P s = rstrip_by P (lstrip_by P s)"

abbreviation strip :: "string \<Rightarrow> string" where "strip \<equiv> strip_by is_space"
abbreviation lstrip :: "string \<Rightarrow> string" where "lstrip \<equiv> lstrip_by is_space"
abbreviation rstrip :: "string \<Rightarrow> string" where "rstrip \<equiv> rstrip_by is_space"

definition strip_char :: "char \<Rightarrow> string \<Rightarrow> string" where
  "strip_char x s = strip_by (\<lambda>c. c = x) s"

definition startswith :: "string \<Rightarrow> string \<Rightarrow> bool" where
  "startswith s p = (take (length p) s = p)"

definition endswith :: "string \<Rightarrow> string \<Rightarrow> bool" where
  "endswith s p = (length p \<le> length s \<and> drop (length s - length p) s = p)"

text \<open>\<^verbatim>\<open>p in s\<close>\<close>

fun contains :: "string \<Rightarrow> string \<Rightarrow> bool" where
  "contains [] p = (p = [])"
| "contains (c # s) p = (startswith (c # s) p \<or> contains s p)"

lemma startswith_Nil [simp]: "startswith s []"
  by (simp add: startswith_def)

lemma startswith_append: "startswith s p \<longleftrightarrow> (\<exists>t. s = p @ t)"
  by (auto simp: startswith_def) (metis append_take_drop_id)

lemma endswith_append: "endswith s p \<longleftrightarrow> (\<exists>t. s = t @ p)"
  by (auto simp: endswith_def) (metis append_take_drop_id)

lemma lstrip_by_Nil_iff: "lstrip_by P s = [] \<longleftrightarrow> (\<forall>c \<in> set s. P c)"
  by (simp add: lstrip_by_def)

lemma rstrip_by_Nil_iff: "rstrip_by P s = [] \<longleftrightarrow> (\<forall>c \<in> set s. P c)"
  by (simp add: rstrip_by_def)

lemma strip_by_Nil_iff: "strip_by P s = [] \<longleftrightarrow> (\<forall>c \<in> set s. P c)"
proof
  assume "strip_by P s = []"
  then have all: "\<forall>c \<in> set (dropWhile P s). P c"
    by (simp add: strip_by_def rstrip_by_Nil_iff lstrip_by_def)
  then have "dropWhile P s = []"
    using hd_dropWhile [of P s] by (cases "dropWhile P s") auto
  then show "\<forall>c \<in> set s. P c" by simp
next
  assume "\<forall>c \<in> set s. P c"
  then show "strip_by P s = []"
    by (simp add: strip_by_def rstrip_by_def lstrip_by_def dropWhile_eq_Nil_conv [THEN iffD2])
qed

lemma set_lstrip_by: "set (lstrip_by P s) \<subseteq> set s"
  by (auto simp: lstrip_by_def dest: set_dropWhileD)

lemma set_rstrip_by: "set (rstrip_by P s) \<subseteq> set s"
  by (auto simp: rstrip_by_def dest: set_dropWhileD)

lemma set_strip_by: "set (strip_by P s) \<subseteq> set s"
  using set_lstrip_by set_rstrip_by by (fastforce simp: strip_by_def)

section \<open>Splitting, joining, replacing\<close>

text \<open>\<^verbatim>\<open>s.split(x)\<close> for a one-character separator.\<close>

fun split_on :: "char \<Rightarrow> string \<Rightarrow> string list" where
  "split_on x [] = [[]]"
| "split_on x (c # s) =
     (if c = x then [] # split_on x s
      else (case split_on x s of [] \<Rightarrow> [[c]] | w # ws \<Rightarrow> (c # w) # ws))"

fun join :: "string \<Rightarrow> string list \<Rightarrow> string" where
  "join sep [] = []"
| "join sep [w] = w"
| "join sep (w # ws) = w @ sep @ join sep ws"

lemma split_on_ne [simp]: "split_on x s \<noteq> []"
  by (cases s) (auto split: list.splits)

lemma join_split_on: "join [x] (split_on x s) = s"
proof (induction s)
  case Nil
  show ?case by simp
next
  case (Cons c s)
  obtain w ws where w: "split_on x s = w # ws"
    by (cases "split_on x s") auto
  with Cons show ?case by (cases ws) auto
qed

lemma split_on_no_sep: "w \<in> set (split_on x s) \<Longrightarrow> x \<notin> set w"
proof (induction s arbitrary: w)
  case Nil
  then show ?case by simp
next
  case (Cons c s)
  then show ?case by (cases "split_on x s") (auto split: if_splits)
qed

lemma set_join: "set (join sep ws) \<subseteq> set sep \<union> (\<Union>w \<in> set ws. set w)"
  by (induction sep ws rule: join.induct) auto

lemma set_in_join: "w \<in> set ws \<Longrightarrow> set w \<subseteq> set (join sep ws)"
  by (induction sep ws rule: join.induct) auto

lemma split_on_subset: "w \<in> set (split_on x s) \<Longrightarrow> set w \<subseteq> set s"
  using set_in_join [of w "split_on x s" "[x]"] by (simp add: join_split_on)

text \<open>
  \<^verbatim>\<open>s.replace(old, new)\<close>: left to right, without overlap; an empty \<open>old\<close> matches before every
  character and at the end.
\<close>

fun replace_ne :: "nat \<Rightarrow> string \<Rightarrow> string \<Rightarrow> string \<Rightarrow> string" where
  "replace_ne n old new [] = []"
| "replace_ne (Suc n) old new (c # s) = replace_ne n old new s"
| "replace_ne 0 old new (c # s) =
     (if startswith (c # s) old then new @ replace_ne (length old - 1) old new s
      else c # replace_ne 0 old new s)"

definition replace :: "string \<Rightarrow> string \<Rightarrow> string \<Rightarrow> string" where
  "replace s old new =
     (if old = [] then new @ concat (map (\<lambda>c. c # new) s) else replace_ne 0 old new s)"

lemma replace_ne_absent:
  assumes "x \<in> set old" and "x \<notin> set s"
  shows "replace_ne 0 old new s = s"
  using assms(2)
proof (induction s)
  case Nil
  show ?case by simp
next
  case (Cons c s)
  have "\<not> startswith (c # s) old"
  proof
    assume "startswith (c # s) old"
    then obtain t where "c # s = old @ t" by (auto simp: startswith_append)
    then have "x \<in> set (c # s)" using assms(1) by simp
    with Cons.prems show False by simp
  qed
  with Cons show ?case by simp
qed

lemma replace_absent: "x \<in> set old \<Longrightarrow> x \<notin> set s \<Longrightarrow> replace s old new = s"
  by (auto simp: replace_def replace_ne_absent)

text \<open>\<^verbatim>\<open>s.expandtabs()\<close>: tab stops every eight columns, counted from the last line break.\<close>

fun expandtabs_from :: "nat \<Rightarrow> string \<Rightarrow> string" where
  "expandtabs_from col [] = []"
| "expandtabs_from col (c # s) =
     (if c = TAB then replicate (8 - col mod 8) (CHR '' '') @ expandtabs_from (col + (8 - col mod 8)) s
      else if c = NL \<or> c = CHR 0x0D then c # expandtabs_from 0 s
      else c # expandtabs_from (col + 1) s)"

definition expandtabs :: "string \<Rightarrow> string" where
  "expandtabs s = expandtabs_from 0 s"

lemma expandtabs_no_tab: "TAB \<notin> set (expandtabs s)"
proof -
  have "TAB \<notin> set (expandtabs_from n s)" for n
    by (induction s arbitrary: n) auto
  then show ?thesis by (simp add: expandtabs_def)
qed

section \<open>Decimal printing\<close>

fun str_nat :: "nat \<Rightarrow> string" where
  "str_nat n = (if n < 10 then [chr_of (48 + n)] else str_nat (n div 10) @ [chr_of (48 + n mod 10)])"

declare str_nat.simps [simp del]

definition str_int :: "int \<Rightarrow> string" where
  "str_int i = (if i < 0 then CHR ''-'' # str_nat (nat (- i)) else str_nat (nat i))"

end
