(* ===== verification/Py_Re.thy ===== *)
theory Py_Re
  imports Py_Str
begin

text \<open>
  Python's \<^verbatim>\<open>re\<close> module as far as the sources use it: the pattern syntax (a parser into an
  abstract syntax), backtracking matching with capture groups in Python's priority order, and
  \<^verbatim>\<open>match\<close>, \<^verbatim>\<open>search\<close>, \<^verbatim>\<open>finditer\<close>, \<^verbatim>\<open>findall\<close>, \<^verbatim>\<open>sub\<close> and \<^verbatim>\<open>split\<close>.
  The reference semantics is the list of all ways to match, best first; the executable one
  passes continuations and stops at the first success, and both agree.
\<close>

section \<open>Abstract syntax\<close>

datatype citem =
    CI_chr char | CI_rng char char
  | CI_word | CI_nword | CI_space | CI_nspace | CI_digit | CI_ndigit

text \<open>A character, a possibly negated set, or the dot (\<open>True\<close>: with \<^verbatim>\<open>DOTALL\<close>).\<close>

datatype catom = A_chr char | A_set bool "citem list" | A_dot bool

text \<open>
  \<open>RAtom ic a\<close> matches one character (\<open>ic\<close>: ignoring case); \<open>RStar\<close> and \<open>RLazy\<close> are the greedy and
  the lazy star; \<open>RGroup n r\<close> captures what \<open>r\<close> matches as group \<open>n\<close>.
\<close>

datatype regex =
    REmpty
  | RAtom bool catom
  | RBol bool
  | REol bool
  | RWordB
  | RSeq regex regex
  | RAlt regex regex
  | RStar regex
  | RLazy regex
  | RGroup nat regex

section \<open>Pattern syntax\<close>

record re_flags =
  fl_i :: bool
  fl_m :: bool
  fl_s :: bool

definition no_flags :: re_flags where
  "no_flags = \<lparr>fl_i = False, fl_m = False, fl_s = False\<rparr>"

definition flag_I :: re_flags where
  "flag_I = no_flags\<lparr>fl_i := True\<rparr>"

definition or_flags :: "re_flags \<Rightarrow> re_flags \<Rightarrow> re_flags" where
  "or_flags a b = \<lparr>fl_i = (fl_i a \<or> fl_i b), fl_m = (fl_m a \<or> fl_m b), fl_s = (fl_s a \<or> fl_s b)\<rparr>"

text \<open>Source text with another character written for the backslash, which HOL strings lack.\<close>

definition raw :: "char \<Rightarrow> string \<Rightarrow> string" where
  "raw e s = map (\<lambda>c. if c = e then BSL else c) s"

abbreviation rx :: "string \<Rightarrow> string" where "rx \<equiv> raw (CHR ''~'')"

text \<open>Parser state: the rest of the pattern, the number of the next group, the named groups.\<close>

type_synonym pst = "string \<times> nat \<times> (string \<times> nat) list"

definition seq2 :: "regex \<Rightarrow> regex \<Rightarrow> regex" where
  "seq2 a b = (if b = REmpty then a else if a = REmpty then b else RSeq a b)"

fun repeat_exact :: "nat \<Rightarrow> regex \<Rightarrow> regex" where
  "repeat_exact 0 r = REmpty"
| "repeat_exact (Suc n) r = seq2 r (repeat_exact n r)"

fun repeat_upto :: "nat \<Rightarrow> regex \<Rightarrow> regex" where
  "repeat_upto 0 r = REmpty"
| "repeat_upto (Suc n) r = RAlt (seq2 r (repeat_upto n r)) REmpty"

text \<open>\<open>{lo}\<close>, \<open>{lo,}\<close> and \<open>{lo,hi}\<close>; \<open>*\<close>, \<open>+\<close> and \<open>?\<close> are \<open>{0,}\<close>, \<open>{1,}\<close> and \<open>{0,1}\<close>.\<close>

definition quantify :: "nat \<Rightarrow> nat option \<Rightarrow> bool \<Rightarrow> regex \<Rightarrow> regex" where
  "quantify lo hi lazy r = seq2 (repeat_exact lo r)
     (case hi of
        None \<Rightarrow> (if lazy then RLazy r else RStar r)
      | Some h \<Rightarrow> repeat_upto (h - lo) r)"

definition digit_val :: "char \<Rightarrow> nat" where
  "digit_val c = code_of c - 48"

fun digits_val :: "nat \<Rightarrow> string \<Rightarrow> nat" where
  "digits_val n [] = n"
| "digits_val n (c # s) = digits_val (10 * n + digit_val c) s"

text \<open>The braces of a bounded repetition, or nothing when the brace is an ordinary character.\<close>

definition p_braces :: "string \<Rightarrow> (nat \<times> nat option \<times> string) option" where
  "p_braces s =
     (let lo = takeWhile is_digit s; s1 = dropWhile is_digit s in
      if lo = [] then None
      else (case s1 of
          [] \<Rightarrow> None
        | c # s2 \<Rightarrow>
          if c = CHR ''}'' then Some (digits_val 0 lo, Some (digits_val 0 lo), s2)
          else if c \<noteq> CHR '','' then None
          else (let hi = takeWhile is_digit s2; s3 = dropWhile is_digit s2 in
            case s3 of
              [] \<Rightarrow> None
            | d # s4 \<Rightarrow>
              if d \<noteq> CHR ''}'' then None
              else Some (digits_val 0 lo, if hi = [] then None else Some (digits_val 0 hi), s4))))"

definition p_lazy :: "string \<Rightarrow> bool \<times> string" where
  "p_lazy s = (case s of [] \<Rightarrow> (False, s) | c # s' \<Rightarrow> if c = CHR ''?'' then (True, s') else (False, s))"

definition p_quant :: "regex \<Rightarrow> string \<Rightarrow> regex \<times> string" where
  "p_quant r s = (case s of
      [] \<Rightarrow> (r, s)
    | c # s1 \<Rightarrow>
      if c = CHR ''*'' then (let (lz, s2) = p_lazy s1 in (quantify 0 None lz r, s2))
      else if c = CHR ''+'' then (let (lz, s2) = p_lazy s1 in (quantify 1 None lz r, s2))
      else if c = CHR ''?'' then (quantify 0 (Some 1) False r, s1)
      else if c = CHR ''{'' then
        (case p_braces s1 of None \<Rightarrow> (r, s) | Some (lo, hi, s2) \<Rightarrow> (quantify lo hi False r, s2))
      else (r, s))"

definition esc_class :: "char \<Rightarrow> citem option" where
  "esc_class c =
     (if c = CHR ''w'' then Some CI_word else if c = CHR ''W'' then Some CI_nword
      else if c = CHR ''s'' then Some CI_space else if c = CHR ''S'' then Some CI_nspace
      else if c = CHR ''d'' then Some CI_digit else if c = CHR ''D'' then Some CI_ndigit else None)"

text \<open>The other escapes: \<^verbatim>\<open>\n\<close>, \<^verbatim>\<open>\t\<close>, \<^verbatim>\<open>\r\<close>, and any character that is not alphanumeric.\<close>

definition esc_char :: "char \<Rightarrow> char option" where
  "esc_char c =
     (if c = CHR ''n'' then Some NL else if c = CHR ''t'' then Some TAB
      else if c = CHR ''r'' then Some (CHR 0x0D)
      else if is_word c \<and> c \<noteq> CHR ''_'' then None else Some c)"

definition p_citem :: "string \<Rightarrow> (citem \<times> string) option" where
  "p_citem s = (case s of
      [] \<Rightarrow> None
    | c # s1 \<Rightarrow>
      if c = BSL then
        (case s1 of [] \<Rightarrow> None
         | d # s2 \<Rightarrow> (case esc_class d of Some i \<Rightarrow> Some (i, s2)
             | None \<Rightarrow> (case esc_char d of None \<Rightarrow> None | Some e \<Rightarrow> Some (CI_chr e, s2))))
      else Some (CI_chr c, s1))"

text \<open>Members of a set up to its closing bracket; a closing bracket that comes first is a member.\<close>

primrec p_class :: "nat \<Rightarrow> bool \<Rightarrow> string \<Rightarrow> (citem list \<times> string) option" where
  "p_class 0 first s = None"
| "p_class (Suc n) first s = (case s of
      [] \<Rightarrow> None
    | c # s0 \<Rightarrow>
      if c = CHR '']'' \<and> \<not> first then Some ([], s0)
      else (case p_citem s of
          None \<Rightarrow> None
        | Some (i, s1) \<Rightarrow>
          (let r = (case i of
                CI_chr a \<Rightarrow>
                  (case s1 of
                     d # e # s2 \<Rightarrow>
                       if d = CHR ''-'' \<and> e \<noteq> CHR '']'' then
                         (case p_citem (e # s2) of
                            Some (CI_chr b, s3) \<Rightarrow> (CI_rng a b, s3)
                          | _ \<Rightarrow> (i, s1))
                       else (i, s1)
                   | _ \<Rightarrow> (i, s1))
              | _ \<Rightarrow> (i, s1)) in
           (case p_class n False (snd r) of
              None \<Rightarrow> None
            | Some (is, s4) \<Rightarrow> Some (fst r # is, s4)))))"

definition p_set :: "nat \<Rightarrow> bool \<Rightarrow> string \<Rightarrow> (regex \<times> string) option" where
  "p_set f ic s =
     (let neg = (s \<noteq> [] \<and> hd s = CHR ''^''); s1 = (if neg then tl s else s) in
      (case p_class f True s1 of
         None \<Rightarrow> None
       | Some (is, s2) \<Rightarrow> Some (RAtom ic (A_set neg is), s2)))"

definition p_escape :: "bool \<Rightarrow> string \<Rightarrow> (regex \<times> string) option" where
  "p_escape ic s = (case s of
      [] \<Rightarrow> None
    | c # s1 \<Rightarrow>
      if c = CHR ''b'' then Some (RWordB, s1)
      else (case esc_class c of
          Some i \<Rightarrow> Some (RAtom ic (A_set False [i]), s1)
        | None \<Rightarrow> (case esc_char c of None \<Rightarrow> None | Some d \<Rightarrow> Some (RAtom ic (A_chr d), s1))))"

text \<open>
  The opening of a group after its parenthesis: \<open>Some None\<close> for \<^verbatim>\<open>(?:\<close>, \<open>Some (Some name)\<close> for
  \<^verbatim>\<open>(?P<name>\<close>, \<open>None\<close> for a plain group.
\<close>

definition p_open :: "string \<Rightarrow> (string option option \<times> string)" where
  "p_open s =
     (if startswith s ''?:'' then (Some None, drop 2 s)
      else if startswith s ''?P<'' then
        (Some (Some (takeWhile (\<lambda>c. c \<noteq> CHR ''>'') (drop 3 s))),
         drop 1 (dropWhile (\<lambda>c. c \<noteq> CHR ''>'') (drop 3 s)))
      else (None, s))"

text \<open>One atom; \<open>f\<close> bounds the members of a set, \<open>pa\<close> parses the alternatives inside a group.\<close>

definition p_atom :: "nat \<Rightarrow> (pst \<Rightarrow> (regex \<times> pst) option) \<Rightarrow> re_flags \<Rightarrow> pst \<Rightarrow> (regex \<times> pst) option" where
  "p_atom f pa fl st = (case st of (s, n, ns) \<Rightarrow> (case s of
      [] \<Rightarrow> None
    | c # s1 \<Rightarrow>
      if c = CHR ''('' then
        (case p_open s1 of (kind, s2) \<Rightarrow>
          (let n' = (if kind = Some None then n else Suc n);
               ns' = (case kind of Some (Some nm) \<Rightarrow> (nm, n) # ns | _ \<Rightarrow> ns) in
           (case pa (s2, n', ns') of
              None \<Rightarrow> None
            | Some (r, s3, st3) \<Rightarrow>
              (case s3 of
                 [] \<Rightarrow> None
               | d # s4 \<Rightarrow> if d = CHR '')'' then Some (if kind = Some None then r else RGroup n r, s4, st3)
                           else None))))
      else if c = CHR ''['' then
        (case p_set f (fl_i fl) s1 of None \<Rightarrow> None | Some (r, s2) \<Rightarrow> Some (r, s2, n, ns))
      else if c = BSL then
        (case p_escape (fl_i fl) s1 of None \<Rightarrow> None | Some (r, s2) \<Rightarrow> Some (r, s2, n, ns))
      else if c = CHR ''.'' then Some (RAtom (fl_i fl) (A_dot (fl_s fl)), s1, n, ns)
      else if c = CHR ''^'' then Some (RBol (fl_m fl), s1, n, ns)
      else if c = CHR ''$'' then Some (REol (fl_m fl), s1, n, ns)
      else if c = CHR ''*'' \<or> c = CHR ''+'' \<or> c = CHR ''?'' then None
      else Some (RAtom (fl_i fl) (A_chr c), s1, n, ns)))"

primrec p_seq :: "nat \<Rightarrow> (pst \<Rightarrow> (regex \<times> pst) option) \<Rightarrow> re_flags \<Rightarrow> pst \<Rightarrow> (regex \<times> pst) option" where
  "p_seq 0 pa fl st = None"
| "p_seq (Suc f) pa fl st = (case st of (s, n, ns) \<Rightarrow>
      if s = [] \<or> hd s = CHR ''|'' \<or> hd s = CHR '')'' then Some (REmpty, st)
      else (case p_atom (Suc f) pa fl st of
          None \<Rightarrow> None
        | Some (a, s2, st2) \<Rightarrow>
          (case p_quant a s2 of (q, s3) \<Rightarrow>
            (case p_seq f pa fl (s3, st2) of
               None \<Rightarrow> None
             | Some (r, st') \<Rightarrow> Some (seq2 q r, st')))))"

primrec p_alt :: "nat \<Rightarrow> re_flags \<Rightarrow> pst \<Rightarrow> (regex \<times> pst) option" where
  "p_alt 0 fl st = None"
| "p_alt (Suc f) fl st = (case p_seq (Suc f) (p_alt f fl) fl st of
      None \<Rightarrow> None
    | Some (r, s, st1) \<Rightarrow>
      if s \<noteq> [] \<and> hd s = CHR ''|'' then
        (case p_alt f fl (tl s, st1) of None \<Rightarrow> None | Some (r', st') \<Rightarrow> Some (RAlt r r', st'))
      else Some (r, s, st1))"

text \<open>A compiled pattern: the program, the number of groups and the names of the named ones.\<close>

record compiled =
  c_pattern :: string
  c_flags :: re_flags
  c_prog :: regex
  c_ngroups :: nat
  c_names :: "(string \<times> nat) list"

text \<open>
  The fuel is enough: every element of a sequence, every bar and every parenthesis consumes a
  character of the pattern.
\<close>

definition re_compile :: "string \<Rightarrow> re_flags \<Rightarrow> compiled option" where
  "re_compile s fl = (case p_alt (Suc (length s)) fl (s, 1, []) of
      Some (r, [], n, ns) \<Rightarrow>
        Some \<lparr>c_pattern = s, c_flags = fl, c_prog = r, c_ngroups = n - 1, c_names = rev ns\<rparr>
    | _ \<Rightarrow> None)"

text \<open>The program of a pattern of the sources; every such pattern is well formed.\<close>

definition prog :: "string \<Rightarrow> re_flags \<Rightarrow> regex" where
  "prog s fl = (case re_compile s fl of Some c \<Rightarrow> c_prog c | None \<Rightarrow> REmpty)"

abbreviation re :: "string \<Rightarrow> regex" where "re s \<equiv> prog s no_flags"

end
