(* ===== verification/Py_Match.thy ===== *)
theory Py_Match
  imports Py_Re
begin

text \<open>
  Matching. \<open>matches\<close> lists every way a pattern matches at a position in Python's priority order
  (the first is the answer); \<open>run_re\<close> is the backtracking search with continuations that code
  evaluation uses. On top of it: scanning a string for successive matches, and the operations of
  the \<^verbatim>\<open>re\<close> module. The lemmas relate a match to the language of its pattern, and the segments
  of a scan to the scanned string.
\<close>

section \<open>One character\<close>

fun item_ok :: "citem \<Rightarrow> char \<Rightarrow> bool" where
  "item_ok (CI_chr a) c = (c = a)"
| "item_ok (CI_rng a b) c = (code_of a \<le> code_of c \<and> code_of c \<le> code_of b)"
| "item_ok CI_word c = is_word c"
| "item_ok CI_nword c = (\<not> is_word c)"
| "item_ok CI_space c = is_space c"
| "item_ok CI_nspace c = (\<not> is_space c)"
| "item_ok CI_digit c = is_digit c"
| "item_ok CI_ndigit c = (\<not> is_digit c)"

fun item_ok_ic :: "citem \<Rightarrow> char \<Rightarrow> bool" where
  "item_ok_ic (CI_chr a) c = (to_lower c = to_lower a)"
| "item_ok_ic (CI_rng a b) c =
     (item_ok (CI_rng a b) (to_lower c) \<or> item_ok (CI_rng a b) (to_upper c) \<or> item_ok (CI_rng a b) c)"
| "item_ok_ic i c = item_ok i c"

fun atom_ok :: "bool \<Rightarrow> catom \<Rightarrow> char \<Rightarrow> bool" where
  "atom_ok ic (A_chr a) c = (if ic then to_lower c = to_lower a else c = a)"
| "atom_ok ic (A_set neg is) c =
     (list_ex (\<lambda>i. if ic then item_ok_ic i c else item_ok i c) is \<noteq> neg)"
| "atom_ok ic (A_dot all) c = (all \<or> c \<noteq> NL)"

section \<open>All matches at a position, best first\<close>

text \<open>
  A position of a scan: the character before it (if any), the text from it on, and the groups
  captured so far.
\<close>

type_synonym groups = "nat \<Rightarrow> string option"
type_synonym cursor = "char option \<times> string \<times> groups"

abbreviation no_groups :: groups where "no_groups \<equiv> (\<lambda>_. None)"

definition word_at :: "char option \<Rightarrow> bool" where
  "word_at x = (case x of None \<Rightarrow> False | Some c \<Rightarrow> is_word c)"

definition next_char :: "string \<Rightarrow> char option" where
  "next_char s = (case s of [] \<Rightarrow> None | x # _ \<Rightarrow> Some x)"

definition at_bol :: "bool \<Rightarrow> char option \<Rightarrow> bool" where
  "at_bol m p = (p = None \<or> (m \<and> p = Some NL))"

definition at_eol :: "bool \<Rightarrow> string \<Rightarrow> bool" where
  "at_eol m s = (s = [] \<or> s = [NL] \<or> (m \<and> hd s = NL))"

text \<open>
  A greedy star tries one more iteration before it stops; an iteration that consumes nothing ends
  the repetition. A lazy star tries to stop first.
\<close>

fun matches :: "regex \<Rightarrow> cursor \<Rightarrow> cursor list" where
  "matches REmpty c = [c]"
| "matches (RAtom ic a) (p, s, g) =
     (case s of [] \<Rightarrow> [] | x # xs \<Rightarrow> if atom_ok ic a x then [(Some x, xs, g)] else [])"
| "matches (RBol m) (p, s, g) = (if at_bol m p then [(p, s, g)] else [])"
| "matches (REol m) (p, s, g) = (if at_eol m s then [(p, s, g)] else [])"
| "matches RWordB (p, s, g) = (if word_at p \<noteq> word_at (next_char s) then [(p, s, g)] else [])"
| "matches (RSeq r1 r2) c = concat (map (matches r2) (matches r1 c))"
| "matches (RAlt r1 r2) c = matches r1 c @ matches r2 c"
| "matches (RStar r) (p, s, g) =
     concat (map (\<lambda>(p', s', g'). if length s' < length s then matches (RStar r) (p', s', g')
                                 else [(p', s', g')])
       (matches r (p, s, g))) @ [(p, s, g)]"
| "matches (RLazy r) (p, s, g) =
     (p, s, g) #
     concat (map (\<lambda>(p', s', g'). if length s' < length s then matches (RLazy r) (p', s', g') else [])
       (matches r (p, s, g)))"
| "matches (RGroup n r) (p, s, g) =
     map (\<lambda>(p', s', g'). (p', s', g'(n := Some (take (length s - length s') s))))
       (matches r (p, s, g))"

fun run_re :: "regex \<Rightarrow> cursor \<Rightarrow> (cursor \<Rightarrow> 'r option) \<Rightarrow> 'r option" where
  "run_re REmpty c k = k c"
| "run_re (RAtom ic a) (p, s, g) k =
     (case s of [] \<Rightarrow> None | x # xs \<Rightarrow> if atom_ok ic a x then k (Some x, xs, g) else None)"
| "run_re (RBol m) (p, s, g) k = (if at_bol m p then k (p, s, g) else None)"
| "run_re (REol m) (p, s, g) k = (if at_eol m s then k (p, s, g) else None)"
| "run_re RWordB (p, s, g) k = (if word_at p \<noteq> word_at (next_char s) then k (p, s, g) else None)"
| "run_re (RSeq r1 r2) c k = run_re r1 c (\<lambda>c'. run_re r2 c' k)"
| "run_re (RAlt r1 r2) c k = (case run_re r1 c k of Some x \<Rightarrow> Some x | None \<Rightarrow> run_re r2 c k)"
| "run_re (RStar r) (p, s, g) k =
     (case run_re r (p, s, g)
         (\<lambda>(p', s', g'). if length s' < length s then run_re (RStar r) (p', s', g') k
                         else k (p', s', g')) of
        Some x \<Rightarrow> Some x
      | None \<Rightarrow> k (p, s, g))"
| "run_re (RLazy r) (p, s, g) k =
     (case k (p, s, g) of
        Some x \<Rightarrow> Some x
      | None \<Rightarrow> run_re r (p, s, g)
          (\<lambda>(p', s', g'). if length s' < length s then run_re (RLazy r) (p', s', g') k else None))"
| "run_re (RGroup n r) (p, s, g) k =
     run_re r (p, s, g) (\<lambda>(p', s', g'). k (p', s', g'(n := Some (take (length s - length s') s))))"

lemma run_re_matches: "run_re r c k = first_some k (matches r c)"
proof (induction r c arbitrary: k rule: matches.induct)
  case (6 r1 r2 c)
  have "first_some (\<lambda>c'. run_re r2 c' k) (matches r1 c) =
      first_some (\<lambda>c'. first_some k (matches r2 c')) (matches r1 c)"
    by (rule first_some_cong) (rule "6.IH"(2))
  then show ?case by (simp add: "6.IH"(1) first_some_concat first_some_map)
next
  case (8 r p s g)
  have "first_some (\<lambda>(p', s', g'). if length s' < length s then run_re (RStar r) (p', s', g') k
          else k (p', s', g')) (matches r (p, s, g)) =
      first_some (\<lambda>(p', s', g'). first_some k (if length s' < length s
          then matches (RStar r) (p', s', g') else [(p', s', g')])) (matches r (p, s, g))"
    by (rule first_some_cong) (use "8.IH"(2) in \<open>auto split: option.splits\<close>)
  then show ?case
    by (simp add: "8.IH"(1) first_some_append first_some_concat first_some_map case_prod_unfold
        split: option.splits)
next
  case (9 r p s g)
  have "first_some (\<lambda>(p', s', g'). if length s' < length s then run_re (RLazy r) (p', s', g') k
          else None) (matches r (p, s, g)) =
      first_some (\<lambda>(p', s', g'). first_some k (if length s' < length s
          then matches (RLazy r) (p', s', g') else [])) (matches r (p, s, g))"
    by (rule first_some_cong) (use "9.IH"(2) in \<open>auto split: option.splits\<close>)
  then show ?case
    by (simp add: "9.IH"(1) first_some_append first_some_concat first_some_map case_prod_unfold
        split: option.splits)
qed (auto simp: first_some_append first_some_map case_prod_unfold split: list.splits option.splits)

declare matches.simps(8,9) [simp del] run_re.simps(8,9) [simp del]

section \<open>The language of a pattern\<close>

text \<open>
  The texts a pattern can consume, anchors and groups ignored, and the bodies of its groups.
\<close>

primrec lang :: "regex \<Rightarrow> string set" where
  "lang REmpty = {[]}"
| "lang (RAtom ic a) = {[c] | c. atom_ok ic a c}"
| "lang (RBol m) = {[]}"
| "lang (REol m) = {[]}"
| "lang RWordB = {[]}"
| "lang (RSeq r1 r2) = {u @ v | u v. u \<in> lang r1 \<and> v \<in> lang r2}"
| "lang (RAlt r1 r2) = lang r1 \<union> lang r2"
| "lang (RStar r) = {concat us | us. set us \<subseteq> lang r}"
| "lang (RLazy r) = {concat us | us. set us \<subseteq> lang r}"
| "lang (RGroup n r) = lang r"

primrec bodies :: "nat \<Rightarrow> regex \<Rightarrow> regex list" where
  "bodies n REmpty = []"
| "bodies n (RAtom ic a) = []"
| "bodies n (RBol m) = []"
| "bodies n (REol m) = []"
| "bodies n RWordB = []"
| "bodies n (RSeq r1 r2) = bodies n r1 @ bodies n r2"
| "bodies n (RAlt r1 r2) = bodies n r1 @ bodies n r2"
| "bodies n (RStar r) = bodies n r"
| "bodies n (RLazy r) = bodies n r"
| "bodies n (RGroup m r) = (if m = n then [r] else []) @ bodies n r"

text \<open>Groups that every match of a pattern sets.\<close>

primrec sure :: "nat \<Rightarrow> regex \<Rightarrow> bool" where
  "sure n REmpty = False"
| "sure n (RAtom ic a) = False"
| "sure n (RBol m) = False"
| "sure n (REol m) = False"
| "sure n RWordB = False"
| "sure n (RSeq r1 r2) = (sure n r1 \<or> sure n r2)"
| "sure n (RAlt r1 r2) = (sure n r1 \<and> sure n r2)"
| "sure n (RStar r) = False"
| "sure n (RLazy r) = False"
| "sure n (RGroup m r) = (m = n \<or> sure n r)"

text \<open>How many characters a match consumes at least.\<close>

primrec min_len :: "regex \<Rightarrow> nat" where
  "min_len REmpty = 0"
| "min_len (RAtom ic a) = 1"
| "min_len (RBol m) = 0"
| "min_len (REol m) = 0"
| "min_len RWordB = 0"
| "min_len (RSeq r1 r2) = min_len r1 + min_len r2"
| "min_len (RAlt r1 r2) = min (min_len r1) (min_len r2)"
| "min_len (RStar r) = 0"
| "min_len (RLazy r) = 0"
| "min_len (RGroup n r) = min_len r"

definition last_char :: "char option \<Rightarrow> string \<Rightarrow> char option" where
  "last_char p t = (if t = [] then p else Some (last t))"

lemma last_char_append [simp]: "last_char (last_char p t) u = last_char p (t @ u)"
  by (simp add: last_char_def)

section \<open>The match relation\<close>

text \<open>
  \<open>step_re r c c'\<close>: some way of matching \<open>r\<close> at \<open>c\<close> ends at \<open>c'\<close>. A star is contained in the
  closure of its body, so a property that composes is proved by induction on the pattern.
\<close>

definition step_re :: "regex \<Rightarrow> cursor \<Rightarrow> cursor \<Rightarrow> bool" where
  "step_re r c c' \<longleftrightarrow> c' \<in> set (matches r c)"

lemma step_re_simps [re_set]:
  "step_re REmpty c c' \<longleftrightarrow> c' = c"
  "step_re (RAtom ic a) (p, s, g) c' \<longleftrightarrow> (\<exists>x xs. s = x # xs \<and> atom_ok ic a x \<and> c' = (Some x, xs, g))"
  "step_re (RBol m) (p, s, g) c' \<longleftrightarrow> at_bol m p \<and> c' = (p, s, g)"
  "step_re (REol m) (p, s, g) c' \<longleftrightarrow> at_eol m s \<and> c' = (p, s, g)"
  "step_re RWordB (p, s, g) c' \<longleftrightarrow> word_at p \<noteq> word_at (next_char s) \<and> c' = (p, s, g)"
  "step_re (RSeq r1 r2) c c' \<longleftrightarrow> (\<exists>d. step_re r1 c d \<and> step_re r2 d c')"
  "step_re (RAlt r1 r2) c c' \<longleftrightarrow> step_re r1 c c' \<or> step_re r2 c c'"
  "step_re (RGroup n r) (p, s, g) (p', s', g') \<longleftrightarrow>
     (\<exists>g1. step_re r (p, s, g) (p', s', g1) \<and> g' = g1(n := Some (take (length s - length s') s)))"
  by (auto simp: step_re_def split: list.splits) force+

lemma step_star: "step_re (RStar r) c c' \<Longrightarrow> (step_re r)\<^sup>*\<^sup>* c c'"
proof (induction "RStar r" c arbitrary: c' rule: matches.induct)
  case (8 p s g)
  then consider "c' = (p, s, g)" | "step_re r (p, s, g) c'"
    | c1 where "step_re r (p, s, g) c1" "length (fst (snd c1)) < length s" "step_re (RStar r) c1 c'"
    by (auto simp: step_re_def matches.simps(8) [of r p s g] split: if_splits)
  then show ?case
  proof cases
    case 3
    obtain p1 s1 g1 where c1: "c1 = (p1, s1, g1)" by (cases c1)
    from 3 have "(step_re r)\<^sup>*\<^sup>* c1 c'"
      using "8.hyps" by (simp add: c1 step_re_def)
    with 3(1) show ?thesis by (rule converse_rtranclp_into_rtranclp)
  qed auto
qed

lemma step_lazy: "step_re (RLazy r) c c' \<Longrightarrow> (step_re r)\<^sup>*\<^sup>* c c'"
proof (induction "RLazy r" c arbitrary: c' rule: matches.induct)
  case (9 p s g)
  then consider "c' = (p, s, g)"
    | c1 where "step_re r (p, s, g) c1" "length (fst (snd c1)) < length s" "step_re (RLazy r) c1 c'"
    by (auto simp: step_re_def matches.simps(9) [of r p s g] split: if_splits)
  then show ?case
  proof cases
    case 2
    obtain p1 s1 g1 where c1: "c1 = (p1, s1, g1)" by (cases c1)
    from 2 have "(step_re r)\<^sup>*\<^sup>* c1 c'"
      using "9.hyps" by (simp add: c1 step_re_def)
    with 2(1) show ?thesis by (rule converse_rtranclp_into_rtranclp)
  qed auto
qed

text \<open>What a match consumes is in the language of the pattern.\<close>

definition consumed :: "cursor \<Rightarrow> cursor \<Rightarrow> string \<Rightarrow> bool" where
  "consumed c c' t \<longleftrightarrow> fst (snd c) = t @ fst (snd c') \<and> fst c' = last_char (fst c) t"

lemma consumed_trans: "consumed c d t \<Longrightarrow> consumed d e u \<Longrightarrow> consumed c e (t @ u)"
  by (auto simp: consumed_def)

lemma consumed_refl: "consumed c c []"
  by (auto simp: consumed_def last_char_def)

lemma closure_lang:
  assumes body: "\<And>c c'. step_re r c c' \<Longrightarrow> \<exists>t. t \<in> lang r \<and> consumed c c' t"
    and "(step_re r)\<^sup>*\<^sup>* c c'"
  shows "\<exists>us. set us \<subseteq> lang r \<and> consumed c c' (concat us)"
  using assms(2)
proof (induction rule: rtranclp_induct)
  case base
  show ?case by (rule exI [of _ "[]"]) (simp add: consumed_refl)
next
  case (step d e)
  then obtain us where us: "set us \<subseteq> lang r" "consumed c d (concat us)" by blast
  from body [OF step(2)] obtain t where t: "t \<in> lang r" "consumed d e t" by blast
  from us t consumed_trans [OF us(2) t(2)] show ?case
    by (intro exI [of _ "us @ [t]"]) auto
qed

lemma step_lang: "step_re r c c' \<Longrightarrow> \<exists>t. t \<in> lang r \<and> consumed c c' t"
proof (induction r arbitrary: c c')
  case (RSeq r1 r2)
  from RSeq.prems obtain d where d: "step_re r1 c d" "step_re r2 d c'" by (auto simp: re_set)
  from RSeq.IH(1) [OF d(1)] obtain t where t: "t \<in> lang r1" "consumed c d t" by blast
  from RSeq.IH(2) [OF d(2)] obtain u where u: "u \<in> lang r2" "consumed d c' u" by blast
  from t u have "t @ u \<in> lang (RSeq r1 r2)" by auto
  with consumed_trans [OF t(2) u(2)] show ?case by blast
next
  case (RAlt r1 r2)
  then show ?case by (simp add: re_set) blast
next
  case (RStar r)
  from closure_lang [OF RStar.IH step_star [OF RStar.prems]] show ?case by auto
next
  case (RLazy r)
  from closure_lang [OF RLazy.IH step_lazy [OF RLazy.prems]] show ?case by auto
next
  case (RGroup n r)
  obtain p s g p' s' g' where c: "c = (p, s, g)" "c' = (p', s', g')" by (cases c, cases c')
  from RGroup.prems obtain g1 where g1: "step_re r c (p', s', g1)" by (auto simp: c re_set)
  from RGroup.IH [OF g1] show ?case by (simp add: consumed_def c)
next
  case (RAtom ic a)
  obtain p s g where c: "c = (p, s, g)" by (cases c)
  with RAtom obtain x xs where "s = x # xs" "atom_ok ic a x" "c' = (Some x, xs, g)"
    by (auto simp: re_set)
  then show ?case by (auto simp: c consumed_def last_char_def)
next
  case (RBol m)
  then show ?case by (cases c) (auto simp: re_set consumed_refl)
next
  case (REol m)
  then show ?case by (cases c) (auto simp: re_set consumed_refl)
next
  case RWordB
  then show ?case by (cases c) (auto simp: re_set consumed_refl)
next
  case REmpty
  then show ?case by (simp add: re_set consumed_refl)
qed

lemma lang_min_len: "t \<in> lang r \<Longrightarrow> min_len r \<le> length t"
proof (induction r arbitrary: t)
  case (RSeq r1 r2)
  then show ?case by (fastforce intro: add_mono)
next
  case (RAlt r1 r2)
  then show ?case by (auto simp: min_le_iff_disj)
qed auto

section \<open>Captured groups\<close>

abbreviation grp :: "cursor \<Rightarrow> groups" where "grp c \<equiv> snd (snd c)"

definition captured :: "nat \<Rightarrow> regex \<Rightarrow> cursor \<Rightarrow> cursor \<Rightarrow> bool" where
  "captured n r c c' \<longleftrightarrow>
     grp c' n = grp c n \<or> (\<exists>t b. grp c' n = Some t \<and> b \<in> set (bodies n r) \<and> t \<in> lang b)"

lemma captured_trans: "captured n r c d \<Longrightarrow> captured n r d e \<Longrightarrow> captured n r c e"
  by (auto simp: captured_def)

lemma closure_captured:
  assumes body: "\<And>c c'. step_re r c c' \<Longrightarrow> captured n r c c'" and "(step_re r)\<^sup>*\<^sup>* c c'"
  shows "captured n r c c'"
  using assms(2)
proof (induction rule: rtranclp_induct)
  case base
  show ?case by (simp add: captured_def)
next
  case (step d e)
  then show ?case using body captured_trans by blast
qed

lemma captured_mono: "captured n r c c' \<Longrightarrow> set (bodies n r) \<subseteq> set (bodies n r') \<Longrightarrow> captured n r' c c'"
  unfolding captured_def by blast

lemma step_group_text:
  assumes "step_re r c c'"
  shows "take (length (fst (snd c)) - length (fst (snd c'))) (fst (snd c)) \<in> lang r"
proof -
  from step_lang [OF assms] obtain t where "t \<in> lang r" "fst (snd c) = t @ fst (snd c')"
    by (auto simp: consumed_def)
  then show ?thesis by simp
qed

text \<open>A captured text is in the language of a group's body, and every match sets the sure groups.\<close>

lemma step_captured: "step_re r c c' \<Longrightarrow> captured n r c c'"
proof (induction r arbitrary: c c')
  case (RSeq r1 r2)
  from RSeq.prems obtain d where d: "step_re r1 c d" "step_re r2 d c'" by (auto simp: re_set)
  have "captured n (RSeq r1 r2) c d" by (rule captured_mono [OF RSeq.IH(1) [OF d(1)]]) simp
  moreover have "captured n (RSeq r1 r2) d c'" by (rule captured_mono [OF RSeq.IH(2) [OF d(2)]]) simp
  ultimately show ?case by (rule captured_trans)
next
  case (RAlt r1 r2)
  from RAlt.prems consider "step_re r1 c c'" | "step_re r2 c c'" by (auto simp: re_set)
  then show ?case by cases (auto dest!: RAlt.IH intro: captured_mono)
next
  case (RStar r)
  have "captured n r c c'" by (rule closure_captured [OF RStar.IH step_star [OF RStar.prems]])
  then show ?case by (simp add: captured_def)
next
  case (RLazy r)
  have "captured n r c c'" by (rule closure_captured [OF RLazy.IH step_lazy [OF RLazy.prems]])
  then show ?case by (simp add: captured_def)
next
  case (RGroup m r)
  obtain p s g p' s' g' where c: "c = (p, s, g)" "c' = (p', s', g')" by (cases c, cases c')
  from RGroup.prems obtain g1 where g1: "step_re r c (p', s', g1)"
    and g': "g' = g1(m := Some (take (length s - length s') s))" by (auto simp: c re_set)
  from RGroup.IH [OF g1] step_group_text [OF g1] show ?case
    by (auto simp: captured_def c g')
next
  case (RAtom ic a)
  then show ?case by (cases c) (auto simp: re_set captured_def)
next
  case (RBol m)
  then show ?case by (cases c) (auto simp: re_set captured_def)
next
  case (REol m)
  then show ?case by (cases c) (auto simp: re_set captured_def)
next
  case RWordB
  then show ?case by (cases c) (auto simp: re_set captured_def)
next
  case REmpty
  then show ?case by (simp add: re_set captured_def)
qed

lemma step_keeps_group: "step_re r c c' \<Longrightarrow> grp c n \<noteq> None \<Longrightarrow> grp c' n \<noteq> None"
  using step_captured [of r c c' n] by (auto simp: captured_def)

lemma step_sure: "step_re r c c' \<Longrightarrow> sure n r \<Longrightarrow> grp c' n \<noteq> None"
proof (induction r arbitrary: c c')
  case (RSeq r1 r2)
  then obtain d where d: "step_re r1 c d" "step_re r2 d c'" by (auto simp: re_set)
  from RSeq.prems(2) consider "sure n r1" | "sure n r2" by auto
  then show ?case
    by cases (use RSeq.IH(1) [OF d(1)] RSeq.IH(2) [OF d(2)] step_keeps_group [OF d(2)] in blast)+
next
  case (RAlt r1 r2)
  then show ?case unfolding step_re_simps sure.simps by blast
next
  case (RGroup m r)
  obtain p s g p' s' g' where c: "c = (p, s, g)" "c' = (p', s', g')" by (cases c, cases c')
  from RGroup.prems obtain g1 where g1: "step_re r c (p', s', g1)"
    and g': "g' = g1(m := Some (take (length s - length s') s))" by (auto simp: c re_set)
  from RGroup.prems(2) RGroup.IH [OF g1] show ?case by (auto simp: c g')
qed auto

end
