(* ===== verification/Py_Scan.thy ===== *)
theory Py_Scan
  imports Py_Match
begin

text \<open>
  Scanning: the first match at or after a position, the successive matches of a string, and the
  operations of the \<^verbatim>\<open>re\<close> module built on them. A scan cuts the string into segments, each the
  text skipped before a match and the matched text, and a tail; the segments and the tail give the
  string back.
\<close>

section \<open>The first match from a position on\<close>

text \<open>
  With \<open>adv\<close> an empty match at the start position does not count: Python's scanner sets it after
  an empty match, so that the scan makes progress.
\<close>

definition first_match :: "regex \<Rightarrow> bool \<Rightarrow> char option \<Rightarrow> string \<Rightarrow> cursor option" where
  "first_match r adv p s =
     first_some (\<lambda>(p', s', g). if adv \<and> length s' = length s then None else Some (p', s', g))
       (matches r (p, s, no_groups))"

lemma first_match_code [code]:
  "first_match r adv p s =
     run_re r (p, s, no_groups)
       (\<lambda>(p', s', g). if adv \<and> length s' = length s then None else Some (p', s', g))"
  by (simp add: first_match_def run_re_matches)

fun search1 :: "regex \<Rightarrow> bool \<Rightarrow> char option \<Rightarrow> string \<Rightarrow>
    (string \<times> string \<times> groups \<times> char option \<times> string) option" where
  "search1 r adv p [] = (case first_match r adv p [] of
      Some (p', s', g) \<Rightarrow> Some ([], [], g, p', s')
    | None \<Rightarrow> None)"
| "search1 r adv p (x # xs) = (case first_match r adv p (x # xs) of
      Some (p', s', g) \<Rightarrow> Some ([], take (length (x # xs) - length s') (x # xs), g, p', s')
    | None \<Rightarrow>
      (case search1 r False (Some x) xs of
         None \<Rightarrow> None
       | Some (pre, t, g, p', s') \<Rightarrow> Some (x # pre, t, g, p', s')))"

lemma first_match_step:
  assumes "first_match r adv p s = Some (p', s', g)"
  shows "step_re r (p, s, no_groups) (p', s', g)"
    and "adv \<Longrightarrow> length s' \<noteq> length s"
  using first_some_Some [OF assms [unfolded first_match_def]]
  by (auto simp: step_re_def split: if_splits)

lemma search1_spec:
  assumes "search1 r adv p s = Some (pre, t, g, p', s')"
  shows "s = pre @ t @ s' \<and> t \<in> lang r \<and> (adv \<and> pre = [] \<longrightarrow> t \<noteq> []) \<and>
    (\<exists>q. step_re r (q, t @ s', no_groups) (p', s', g))"
  using assms
proof (induction r adv p s arbitrary: pre rule: search1.induct)
  case (1 r adv p)
  then have m: "first_match r adv p [] = Some (p', s', g)" and [simp]: "pre = []" "t = []"
    by (auto split: option.splits)
  note st = first_match_step [OF m]
  from step_lang [OF st(1)] st(2) have "s' = []" "[] \<in> lang r" "\<not> adv"
    by (auto simp: consumed_def)
  then show ?case using st(1) by auto
next
  case (2 r adv p x xs)
  show ?case
  proof (cases "first_match r adv p (x # xs)")
    case None
    with "2.prems" obtain pre' where "search1 r False (Some x) xs = Some (pre', t, g, p', s')"
      and [simp]: "pre = x # pre'" by (auto split: option.splits)
    from "2.IH" [OF None this(1)] show ?thesis by auto
  next
    case (Some c)
    with "2.prems" have m: "first_match r adv p (x # xs) = Some (p', s', g)" and [simp]: "pre = []"
      and t: "t = take (length (x # xs) - length s') (x # xs)"
      by (auto split: prod.splits)
    note st = first_match_step [OF m]
    from step_lang [OF st(1)] obtain u where u: "u \<in> lang r" "x # xs = u @ s'"
      by (auto simp: consumed_def)
    from u(2) t have "t = u" by simp
    with u st show ?thesis by auto
  qed
qed

lemma search1_None: "search1 r adv p s = None \<Longrightarrow> s = u @ v \<Longrightarrow> u \<noteq> [] \<Longrightarrow>
    first_match r False (Some (last u)) v = None"
proof (induction r adv p s arbitrary: u rule: search1.induct)
  case (1 r adv p)
  then show ?case by simp
next
  case (2 r adv p x xs)
  then obtain u' where u: "u = x # u'" "xs = u' @ v" by (cases u) auto
  from "2.prems"(1) have none: "first_match r adv p (x # xs) = None" "search1 r False (Some x) xs = None"
    by (auto split: option.splits)
  show ?case
  proof (cases "u' = []")
    case True
    with u none(2) show ?thesis by (cases v) (auto split: option.splits)
  next
    case False
    with "2.IH" [OF none(1,2) u(2)] u show ?thesis by simp
  qed
qed

section \<open>Successive matches\<close>

type_synonym seg = "string \<times> string \<times> groups"

function scan :: "regex \<Rightarrow> bool \<Rightarrow> char option \<Rightarrow> string \<Rightarrow> seg list \<times> string" where
  "scan r adv p s = (case search1 r adv p s of
      None \<Rightarrow> ([], s)
    | Some (pre, t, g, p', s') \<Rightarrow>
      (case scan r (t = []) p' s' of (segs, tail) \<Rightarrow> ((pre, t, g) # segs, tail)))"
  by pat_completeness auto
termination
proof (relation "measure (\<lambda>(r, adv, p, s). 2 * length s + (if adv then 0 else 1))", simp, clarify)
  fix r adv p s pre t g p' s'
  assume "search1 r adv p s = Some (pre, t, g, p', s')"
  then have "s = pre @ t @ s'" "adv \<and> pre = [] \<longrightarrow> t \<noteq> []"
    using search1_spec by blast+
  then show "((r, t = [], p', s'), r, adv, p, s) \<in> measure (\<lambda>(r, adv, p, s). 2 * length s + (if adv then 0 else 1))"
    by (cases t; cases pre) auto
qed

declare scan.simps [simp del]

definition segs_text :: "seg list \<Rightarrow> string" where
  "segs_text segs = concat (map (\<lambda>(pre, t, g). pre @ t) segs)"

definition re_scan :: "regex \<Rightarrow> string \<Rightarrow> seg list \<times> string" where
  "re_scan r s = scan r False None s"

lemma scan_text: "scan r adv p s = (segs, tail) \<Longrightarrow> segs_text segs @ tail = s"
proof (induction r adv p s arbitrary: segs rule: scan.induct)
  case (1 r adv p s)
  show ?case
  proof (cases "search1 r adv p s")
    case None
    with "1.prems" show ?thesis by (simp add: scan.simps [of r adv p s] segs_text_def)
  next
    case (Some m)
    obtain pre t g p' s' where m: "m = (pre, t, g, p', s')" by (cases m)
    obtain segs' where sc: "scan r (t = []) p' s' = (segs', tail)" and segs: "segs = (pre, t, g) # segs'"
      using "1.prems" Some m by (auto simp: scan.simps [of r adv p s] split: prod.splits)
    have "segs_text segs' @ tail = s'" using "1.IH" Some m sc by blast
    moreover have "s = pre @ t @ s'" using search1_spec Some m by blast
    ultimately show ?thesis by (simp add: segs segs_text_def)
  qed
qed

lemma scan_langs: "scan r adv p s = (segs, tail) \<Longrightarrow> (pre, t, g) \<in> set segs \<Longrightarrow>
    t \<in> lang r \<and> (\<exists>q u v. step_re r (q, t @ u, no_groups) (v, u, g))"
proof (induction r adv p s arbitrary: segs rule: scan.induct)
  case (1 r adv p s)
  show ?case
  proof (cases "search1 r adv p s")
    case None
    with "1.prems" show ?thesis by (simp add: scan.simps [of r adv p s])
  next
    case (Some m)
    obtain pre1 t1 g1 p' s' where m: "m = (pre1, t1, g1, p', s')" by (cases m)
    obtain segs' where sc: "scan r (t1 = []) p' s' = (segs', tail)" and segs: "segs = (pre1, t1, g1) # segs'"
      using "1.prems"(1) Some m by (auto simp: scan.simps [of r adv p s] split: prod.splits)
    from "1.prems"(2) consider "(pre, t, g) = (pre1, t1, g1)" | "(pre, t, g) \<in> set segs'"
      by (auto simp: segs)
    then show ?thesis
    proof cases
      case 1
      then show ?thesis using search1_spec Some m by blast
    next
      case 2
      then show ?thesis using "1.IH" Some m sc by blast
    qed
  qed
qed

section \<open>The operations of the module\<close>

datatype pymatch = PyMatch (m_start: nat) (m_text: string) (m_groups: groups)

text \<open>\<^verbatim>\<open>m.group(n)\<close>; the second form reads a group that every match of the pattern sets.\<close>

definition m_group :: "pymatch \<Rightarrow> nat \<Rightarrow> string option" where
  "m_group m n = (if n = 0 then Some (m_text m) else m_groups m n)"

definition m_str :: "pymatch \<Rightarrow> nat \<Rightarrow> string" where
  "m_str m n = (case m_group m n of None \<Rightarrow> [] | Some t \<Rightarrow> t)"

definition re_match :: "regex \<Rightarrow> string \<Rightarrow> pymatch option" where
  "re_match r s = (case first_match r False None s of
      None \<Rightarrow> None
    | Some (p', s', g) \<Rightarrow> Some (PyMatch 0 (take (length s - length s') s) g))"

definition re_search :: "regex \<Rightarrow> string \<Rightarrow> pymatch option" where
  "re_search r s = (case search1 r False None s of
      None \<Rightarrow> None
    | Some (pre, t, g, _, _) \<Rightarrow> Some (PyMatch (length pre) t g))"

fun seg_matches :: "nat \<Rightarrow> seg list \<Rightarrow> pymatch list" where
  "seg_matches i [] = []"
| "seg_matches i ((pre, t, g) # segs) =
     PyMatch (i + length pre) t g # seg_matches (i + length pre + length t) segs"

definition re_finditer :: "regex \<Rightarrow> string \<Rightarrow> pymatch list" where
  "re_finditer r s = seg_matches 0 (fst (re_scan r s))"

text \<open>\<^verbatim>\<open>findall\<close> of a pattern with \<open>n\<close> groups, \<open>n\<close> at least one: an unset group reads as empty.\<close>

definition re_findall :: "regex \<Rightarrow> nat \<Rightarrow> string \<Rightarrow> string list list" where
  "re_findall r n s = map (\<lambda>m. map (m_str m) [1..<Suc n]) (re_finditer r s)"

definition re_split :: "regex \<Rightarrow> nat \<Rightarrow> string \<Rightarrow> string option list" where
  "re_split r n s = (case re_scan r s of (segs, tail) \<Rightarrow>
     concat (map (\<lambda>(pre, t, g). Some pre # map g [1..<Suc n]) segs) @ [Some tail])"

text \<open>
  Replacement templates: \<^verbatim>\<open>\1\<close> to \<^verbatim>\<open>\99\<close> are groups, \<^verbatim>\<open>\n\<close> a line break, a doubled
  backslash a backslash; a backslash before another character that is not a letter stays.
\<close>

datatype tpl = T_chr char | T_grp nat

fun parse_tpl :: "string \<Rightarrow> tpl list" where
  "parse_tpl [] = []"
| "parse_tpl [c] = [T_chr c]"
| "parse_tpl (c # d # s) =
     (if c \<noteq> BSL then T_chr c # parse_tpl (d # s)
      else if d = BSL then T_chr BSL # parse_tpl s
      else if d = CHR ''n'' then T_chr NL # parse_tpl s
      else if is_digit d then
        (case s of
           e # s' \<Rightarrow> if is_digit e then T_grp (10 * digit_val d + digit_val e) # parse_tpl s'
                      else T_grp (digit_val d) # parse_tpl s
         | [] \<Rightarrow> [T_grp (digit_val d)])
      else T_chr BSL # parse_tpl (d # s))"

fun expand :: "tpl list \<Rightarrow> groups \<Rightarrow> string" where
  "expand [] g = []"
| "expand (T_chr c # ts) g = c # expand ts g"
| "expand (T_grp n # ts) g = (case g n of None \<Rightarrow> [] | Some t \<Rightarrow> t) @ expand ts g"

text \<open>\<^verbatim>\<open>sub\<close>; a count of zero replaces every match.\<close>

definition sub_segs :: "(seg \<Rightarrow> string) \<Rightarrow> seg list \<Rightarrow> string" where
  "sub_segs f segs = concat (map (\<lambda>(pre, t, g). pre @ f (pre, t, g)) segs)"

definition re_subn :: "regex \<Rightarrow> string \<Rightarrow> nat \<Rightarrow> string \<Rightarrow> string" where
  "re_subn r tpl count s = (case re_scan r s of (segs, tail) \<Rightarrow>
     (let k = (if count = 0 then length segs else count) in
      sub_segs (\<lambda>(pre, t, g). expand (parse_tpl tpl) g) (take k segs) @ segs_text (drop k segs) @ tail))"

definition re_sub :: "regex \<Rightarrow> string \<Rightarrow> string \<Rightarrow> string" where
  "re_sub r tpl s = re_subn r tpl 0 s"

section \<open>Facts\<close>

lemma re_match_Some:
  assumes "re_match r s = Some m"
  shows "\<exists>rest p. s = m_text m @ rest \<and> m_text m \<in> lang r \<and> m_start m = 0 \<and>
    step_re r (None, s, no_groups) (p, rest, m_groups m)"
proof -
  from assms obtain p' s' g where f: "first_match r False None s = Some (p', s', g)"
    and m: "m = PyMatch 0 (take (length s - length s') s) g"
    by (auto simp: re_match_def split: option.splits)
  from step_lang [OF first_match_step(1) [OF f]] obtain t where "t \<in> lang r" "s = t @ s'"
    by (auto simp: consumed_def)
  with first_match_step(1) [OF f] m show ?thesis by auto
qed

lemma re_search_Some:
  assumes "re_search r s = Some m"
  shows "\<exists>pre rest q p. s = pre @ m_text m @ rest \<and> m_text m \<in> lang r \<and> m_start m = length pre \<and>
    step_re r (q, m_text m @ rest, no_groups) (p, rest, m_groups m)"
proof -
  from assms obtain pre t g p' s' where f: "search1 r False None s = Some (pre, t, g, p', s')"
    and m: "m = PyMatch (length pre) t g"
    by (auto simp: re_search_def split: option.splits)
  from search1_spec [OF f] m show ?thesis by auto
qed

text \<open>What a group of a successful match holds.\<close>

lemma step_group_lang:
  assumes "step_re r (p, s, no_groups) (p', s', g)" and "g n = Some t"
  shows "\<exists>b \<in> set (bodies n r). t \<in> lang b"
  using step_captured [OF assms(1), of n] assms(2) by (auto simp: captured_def)

lemma re_match_group:
  assumes "re_match r s = Some m" and "0 < n" and "m_group m n = Some t"
  shows "\<exists>b \<in> set (bodies n r). t \<in> lang b"
  using re_match_Some [OF assms(1)] assms(2,3) by (auto simp: m_group_def dest: step_group_lang)

lemma re_search_group:
  assumes "re_search r s = Some m" and "0 < n" and "m_group m n = Some t"
  shows "\<exists>b \<in> set (bodies n r). t \<in> lang b"
  using re_search_Some [OF assms(1)] assms(2,3) by (auto simp: m_group_def dest: step_group_lang)

lemma re_search_sure: "re_search r s = Some m \<Longrightarrow> sure n r \<Longrightarrow> 0 < n \<Longrightarrow> m_group m n \<noteq> None"
  using re_search_Some [of r s m] step_sure [of r _ _ n] by (fastforce simp: m_group_def)

lemma re_match_sure: "re_match r s = Some m \<Longrightarrow> sure n r \<Longrightarrow> 0 < n \<Longrightarrow> m_group m n \<noteq> None"
  using re_match_Some [of r s m] step_sure [of r _ _ n] by (fastforce simp: m_group_def)

lemma re_search_None_scan: "re_search r s = None \<longleftrightarrow> re_scan r s = ([], s)"
  by (auto simp: re_search_def re_scan_def scan.simps [of r False None s] split: option.splits prod.splits)

lemma re_sub_no_match: "re_search r s = None \<Longrightarrow> re_sub r tpl s = s"
  by (simp add: re_sub_def re_subn_def re_search_None_scan sub_segs_def segs_text_def)

lemma re_scan_nonempty: "re_search r s \<noteq> None \<Longrightarrow> fst (re_scan r s) \<noteq> []"
  by (auto simp: re_search_def re_scan_def scan.simps [of r False None s] split: option.splits prod.splits)

lemma re_sub_alt: "re_scan r s = (segs, tail) \<Longrightarrow>
    re_sub r tpl s = sub_segs (\<lambda>(pre, t, g). expand (parse_tpl tpl) g) segs @ tail"
  by (simp add: re_sub_def re_subn_def segs_text_def)

section \<open>Weights\<close>

text \<open>
  A weight adds up over concatenation (a length, the number of occurrences of a character). If
  every replacement weighs at most what it replaces, a substitution does not increase the weight;
  if each weighs less, a substitution that finds a match decreases it. This is what makes the
  loops that substitute until nothing matches end.
\<close>

locale weight =
  fixes w :: "string \<Rightarrow> nat"
  assumes w_append: "w (x @ y) = w x + w y"
begin

lemma w_Nil: "w [] = 0"
  using w_append [of "[]" "[]"] by simp

lemma sub_segs_le:
  assumes "\<And>pre t g. (pre, t, g) \<in> set segs \<Longrightarrow> w (f (pre, t, g)) \<le> w t"
  shows "w (sub_segs f segs) \<le> w (segs_text segs)"
  using assms by (induction segs) (fastforce simp: sub_segs_def segs_text_def w_append w_Nil)+

lemma sub_segs_less:
  assumes "\<And>pre t g. (pre, t, g) \<in> set segs \<Longrightarrow> w (f (pre, t, g)) < w t" and "segs \<noteq> []"
  shows "w (sub_segs f segs) < w (segs_text segs)"
proof -
  obtain pre t g rest where segs: "segs = (pre, t, g) # rest"
    using assms(2) by (cases segs) auto
  have "w (sub_segs f rest) \<le> w (segs_text rest)"
    using assms(1) by (intro sub_segs_le) (auto simp: segs less_imp_le)
  moreover have "w (f (pre, t, g)) < w t" using assms(1) segs by simp
  ultimately show ?thesis by (simp add: segs sub_segs_def segs_text_def w_append)
qed

lemma re_sub_less:
  assumes "\<And>q t u v g. step_re r (q, t @ u, no_groups) (v, u, g) \<Longrightarrow> w (expand (parse_tpl tpl) g) < w t"
    and "re_search r s \<noteq> None"
  shows "w (re_sub r tpl s) < w s"
proof -
  obtain segs tail where sc: "re_scan r s = (segs, tail)" by (cases "re_scan r s")
  then have "segs \<noteq> []" using re_scan_nonempty [OF assms(2)] by simp
  moreover have "w (expand (parse_tpl tpl) g) < w t" if "(pre, t, g) \<in> set segs" for pre t g
    using scan_langs [OF sc [unfolded re_scan_def] that] assms(1) by blast
  ultimately have "w (sub_segs (\<lambda>(pre, t, g). expand (parse_tpl tpl) g) segs) < w (segs_text segs)"
    by (intro sub_segs_less) auto
  moreover have "s = segs_text segs @ tail" using scan_text sc by (simp add: re_scan_def)
  ultimately show ?thesis unfolding re_sub_alt [OF sc] by (simp add: w_append)
qed

end

interpretation len: weight length
  by unfold_locales simp

interpretation occ: weight "\<lambda>s. count_list s c" for c
  by unfold_locales simp

end
