(* ===== verification/Kern_Re.thy ===== *)
theory Kern_Re
  imports Py_Scan
begin

text \<open>
  The class \<^verbatim>\<open>KernRe\<close> of \<^verbatim>\<open>kdoc_re.py\<close>: a compiled pattern with the module-wide cache of
  compiled patterns and the result of the last match. The cache is passed explicitly. The rest of
  the development reads patterns through \<open>re\<close> and matches through \<open>re_match\<close> and its companions:
  a \<^verbatim>\<open>KernRe\<close> object whose last match is read right after the match it belongs to.
\<close>

section \<open>State and operations\<close>

type_synonym re_cache = "(string, compiled) dict"

record kern_re =
  kr_regex :: compiled
  kr_cache :: bool
  kr_last :: "pymatch option"

text \<open>\<^verbatim>\<open>_add_regex\<close>: the cache is asked with the pattern alone.\<close>

definition add_regex :: "re_cache \<Rightarrow> string \<Rightarrow> bool \<Rightarrow> re_flags \<Rightarrow> (compiled \<times> re_cache) res" where
  "add_regex ch s use fl = (case dict_get ch s of
      Some c \<Rightarrow> Inr (c, ch)
    | None \<Rightarrow>
      (case re_compile s fl of
         None \<Rightarrow> Inl ReError
       | Some c \<Rightarrow> Inr (c, if use then dict_set ch s c else ch)))"

definition kern_re_init :: "re_cache \<Rightarrow> string \<Rightarrow> bool \<Rightarrow> re_flags \<Rightarrow> (kern_re \<times> re_cache) res" where
  "kern_re_init ch s use fl = rbind (add_regex ch s use fl)
     (\<lambda>(c, ch'). Inr (\<lparr>kr_regex = c, kr_cache = use, kr_last = None\<rparr>, ch'))"

definition kern_re_str :: "kern_re \<Rightarrow> string" where
  "kern_re_str k = c_pattern (kr_regex k)"

definition kern_re_add :: "re_cache \<Rightarrow> kern_re \<Rightarrow> kern_re \<Rightarrow> (kern_re \<times> re_cache) res" where
  "kern_re_add ch a b = kern_re_init ch (kern_re_str a @ kern_re_str b) (kr_cache a \<or> kr_cache b)
     (or_flags (c_flags (kr_regex a)) (c_flags (kr_regex b)))"

definition kern_re_match :: "kern_re \<Rightarrow> string \<Rightarrow> kern_re \<times> pymatch option" where
  "kern_re_match k s = (let m = re_match (c_prog (kr_regex k)) s in (k\<lparr>kr_last := m\<rparr>, m))"

definition kern_re_search :: "kern_re \<Rightarrow> string \<Rightarrow> kern_re \<times> pymatch option" where
  "kern_re_search k s = (let m = re_search (c_prog (kr_regex k)) s in (k\<lparr>kr_last := m\<rparr>, m))"

definition kern_re_finditer :: "kern_re \<Rightarrow> string \<Rightarrow> pymatch list" where
  "kern_re_finditer k s = re_finditer (c_prog (kr_regex k)) s"

definition kern_re_findall :: "kern_re \<Rightarrow> string \<Rightarrow> string list list" where
  "kern_re_findall k s = re_findall (c_prog (kr_regex k)) (c_ngroups (kr_regex k)) s"

definition kern_re_split :: "kern_re \<Rightarrow> string \<Rightarrow> string option list" where
  "kern_re_split k s = re_split (c_prog (kr_regex k)) (c_ngroups (kr_regex k)) s"

definition kern_re_sub :: "kern_re \<Rightarrow> string \<Rightarrow> string \<Rightarrow> nat \<Rightarrow> string" where
  "kern_re_sub k tpl s count = re_subn (c_prog (kr_regex k)) tpl count s"

text \<open>Reading a group before any match, or after a failed one, raises; so does an unknown group.\<close>

definition kern_re_group :: "kern_re \<Rightarrow> nat \<Rightarrow> string option res" where
  "kern_re_group k n = (case kr_last k of
      None \<Rightarrow> Inl AttributeError
    | Some m \<Rightarrow> if n \<le> c_ngroups (kr_regex k) then Inr (m_group m n) else Inl IndexError)"

definition kern_re_groups :: "kern_re \<Rightarrow> string option list res" where
  "kern_re_groups k = (case kr_last k of
      None \<Rightarrow> Inl AttributeError
    | Some m \<Rightarrow> Inr (map (m_group m) [1..<Suc (c_ngroups (kr_regex k))]))"

section \<open>The cache\<close>

text \<open>Every cached pattern is stored under its own text and compiles to what is stored.\<close>

definition cache_ok :: "re_cache \<Rightarrow> bool" where
  "cache_ok ch \<longleftrightarrow> (\<forall>s c. dict_get ch s = Some c \<longrightarrow> c_pattern c = s \<and> re_compile s (c_flags c) = Some c)"

lemma re_compile_fields: "re_compile s fl = Some c \<Longrightarrow> c_pattern c = s \<and> c_flags c = fl"
  by (auto simp: re_compile_def split: option.splits prod.splits list.splits)

lemma add_regex_ok:
  assumes "cache_ok ch" and "add_regex ch s use fl = Inr (c, ch')"
  shows "cache_ok ch' \<and> c_pattern c = s \<and> re_compile s (c_flags c) = Some c"
proof (cases "dict_get ch s")
  case None
  with assms(2) have "re_compile s fl = Some c" "ch' = (if use then dict_set ch s c else ch)"
    by (auto simp: add_regex_def split: option.splits)
  with assms(1) show ?thesis using re_compile_fields by (auto simp: cache_ok_def)
next
  case (Some d)
  with assms show ?thesis by (auto simp: add_regex_def cache_ok_def)
qed

text \<open>
  Building a \<^verbatim>\<open>KernRe\<close> keeps the cache consistent, and the object built holds the requested
  pattern, compiled: whatever was cached before, its program is the compilation of that pattern
  under the flags the object reports.
\<close>

theorem kern_re_init_sound:
  assumes "cache_ok ch" and "kern_re_init ch s use fl = Inr (k, ch')"
  shows "cache_ok ch' \<and> kern_re_str k = s \<and> kr_last k = None \<and>
    re_compile s (c_flags (kr_regex k)) = Some (kr_regex k)"
  using assms add_regex_ok [OF assms(1)]
  by (auto simp: kern_re_init_def kern_re_str_def rbind_Inr_iff)

theorem kern_re_init_sound_witness:
  "cache_ok [] \<and> (\<exists>k ch'. kern_re_init [] ''a'' True no_flags = Inr (k, ch') \<and> kern_re_str k = ''a'')"
proof -
  have ok: "cache_ok []" by (simp add: cache_ok_def dict_get_def)
  obtain k ch' where i: "kern_re_init [] ''a'' True no_flags = Inr (k, ch')"
  proof -
    have "\<not> isl (kern_re_init [] ''a'' True no_flags)" by code_simp
    then show ?thesis by (cases "kern_re_init [] ''a'' True no_flags") (auto intro: that)
  qed
  from kern_re_init_sound [OF ok i] i ok show ?thesis by blast
qed

lemma compiles_a: "re_compile ''a'' no_flags \<noteq> None"
  by code_simp

text \<open>
  The cache is keyed by the pattern only: once a pattern is cached, asking for it again with
  the ignore-case flag gives the cached, case-sensitive program, so the second object does not
  match \<open>A\<close> although a fresh compilation with that flag does.
\<close>

theorem kern_re_cache_ignores_flags:
  "\<exists>k1 ch k2. kern_re_init [] ''a'' True no_flags = Inr (k1, ch) \<and>
     kern_re_init ch ''a'' True flag_I = Inr (k2, ch) \<and>
     snd (kern_re_match k2 ''A'') = None \<and> re_match (prog ''a'' flag_I) ''A'' \<noteq> None"
proof -
  obtain c where c: "re_compile ''a'' no_flags = Some c"
    by (cases "re_compile ''a'' no_flags") (use compiles_a in auto)
  have "re_match (prog ''a'' no_flags) ''A'' = None" and m: "re_match (prog ''a'' flag_I) ''A'' \<noteq> None"
    by code_simp+
  then have n: "re_match (c_prog c) ''A'' = None" by (simp add: prog_def c)
  let ?k = "\<lparr>kr_regex = c, kr_cache = True, kr_last = None\<rparr>"
  have "kern_re_init [] ''a'' True no_flags = Inr (?k, [(''a'', c)])"
    and "kern_re_init [(''a'', c)] ''a'' True flag_I = Inr (?k, [(''a'', c)])"
    by (simp_all add: kern_re_init_def add_regex_def dict_get_def c)
  moreover have "snd (kern_re_match ?k ''A'') = None" by (simp add: kern_re_match_def n Let_def)
  ultimately show ?thesis using m by blast
qed

end
