(* ===== verification/C_Scanner.thy ===== *)
theory C_Scanner
  imports Kern_Re
begin

text \<open>
  The token kinds of \<^verbatim>\<open>c_lex.py\<close> and its scanner pattern: the list of patterns, the joined pattern
  with one named group per kind, and what it compiles to. The joined pattern is compiled once and
  for all here, alternative by alternative: each compiles alone, whatever follows its bar.
\<close>

section \<open>Token kinds\<close>

datatype ckind =
    COMMENT | STRING | CHAR_tok | NUMBER | PUNC | BEGIN | END | CPP | HASH | OP
  | STRUCT | UNION | ENUM | TYPEDEF | NAME | SPACE | ENDSTMT | BACKREF | MISMATCH

text \<open>\<^verbatim>\<open>_name_by_val\<close>, \<^verbatim>\<open>to_name\<close> and \<^verbatim>\<open>from_name\<close>.\<close>

definition name_by_val :: "(ckind \<times> string) list" where
  "name_by_val =
     [(COMMENT, ''COMMENT''), (STRING, ''STRING''), (CHAR_tok, ''CHAR''), (NUMBER, ''NUMBER''),
      (PUNC, ''PUNC''), (BEGIN, ''BEGIN''), (END, ''END''), (CPP, ''CPP''), (HASH, ''HASH''),
      (OP, ''OP''), (STRUCT, ''STRUCT''), (UNION, ''UNION''), (ENUM, ''ENUM''),
      (TYPEDEF, ''TYPEDEF''), (NAME, ''NAME''), (SPACE, ''SPACE''), (ENDSTMT, ''ENDSTMT''),
      (BACKREF, ''BACKREF''), (MISMATCH, ''MISMATCH'')]"

definition to_name :: "ckind \<Rightarrow> string" where
  "to_name k = (case map_of name_by_val k of Some n \<Rightarrow> n | None \<Rightarrow> ''UNKNOWN'')"

definition from_name :: "string \<Rightarrow> ckind" where
  "from_name n = (case map_of (map (\<lambda>(k, v). (v, k)) name_by_val) n of Some k \<Rightarrow> k | None \<Rightarrow> MISMATCH)"

section \<open>The scanner pattern\<close>

definition RE_SCANNER_LIST :: "(ckind \<times> string) list" where
  "RE_SCANNER_LIST =
     [(COMMENT, rx ''//[^~n]*|/~*[~s~S]*?~*/''),
      (STRING, rx ''\"(?:~~.|[^\"~~])*\"''),
      (CHAR_tok, rx [CHR 0x27] @ rx ''(?:~~.|[^'' @ [CHR 0x27] @ rx ''~~])'' @ [CHR 0x27]),
      (NUMBER, rx ''0[xX][~da-fA-F]+[uUlL]*|0[0-7]+[uUlL]*|~d+(?:~.~d*)?(?:[eE][+-]?~d+)?[fFlL]*''),
      (ENDSTMT, rx ''(?:~s+;|;)''),
      (PUNC, rx ''[,~.]''),
      (BEGIN, rx ''[~[~(~{]''),
      (END, rx ''[~]~)~}]''),
      (CPP, rx ''#~s*(?:define|include|ifdef|ifndef|if|else|elif|endif|undef|pragma)~b''),
      (HASH, ''#''),
      (OP, raw (CHR ''@'') ''@+@+|@-@-|@->|==|@!=|<=|>=|&&|@|@||<<|>>|@+=|@-=|@*=|/=|%=|&=|@|=|@^=|[=@+@-@*/%<>&@|@^~!@?@:]''),
      (STRUCT, rx ''~bstruct~b''),
      (UNION, rx ''~bunion~b''),
      (ENUM, rx ''~benum~b''),
      (TYPEDEF, rx ''~btypedef~b''),
      (NAME, rx ''[A-Za-z_]~w*''),
      (SPACE, rx ''~s+''),
      (BACKREF, rx ''~~~d+''),
      (MISMATCH, ''.'')]"

text \<open>
  \<^verbatim>\<open>fill_re_scanner\<close> joins the patterns as alternatives, each in a group named after its kind. The
  \<^verbatim>\<open>re.MULTILINE | re.DOTALL\<close> it passes stands where \<^verbatim>\<open>KernRe\<close> takes its \<^verbatim>\<open>cache\<close> argument, so
  the pattern is compiled without flags.
\<close>

definition grp_text :: "ckind \<times> string \<Rightarrow> string" where
  "grp_text t = (case t of (kind, pattern) \<Rightarrow> ''(?P<'' @ to_name kind @ ''>'' @ pattern @ '')'')"

definition fill_re_scanner :: "(ckind \<times> string) list \<Rightarrow> compiled option" where
  "fill_re_scanner ts = re_compile (join ''|'' (map grp_text ts)) no_flags"

definition RE_SCANNER :: compiled where
  "RE_SCANNER = the (fill_re_scanner RE_SCANNER_LIST)"

section \<open>The compiled scanner\<close>

definition chr :: "char \<Rightarrow> regex" where "chr c = RAtom False (A_chr c)"
definition cls :: "string \<Rightarrow> regex" where "cls cs = RAtom False (A_set False (map CI_chr cs))"
definition itm :: "citem list \<Rightarrow> regex" where "itm is = RAtom False (A_set False is)"
definition plus1 :: "regex \<Rightarrow> regex" where "plus1 r = RSeq r (RStar r)"
definition opt1 :: "regex \<Rightarrow> regex" where "opt1 r = RAlt r REmpty"
fun seqs :: "regex list \<Rightarrow> regex" where
  "seqs [] = REmpty" | "seqs [r] = r" | "seqs (r # rs) = RSeq r (seqs rs)"
fun alts :: "regex list \<Rightarrow> regex" where
  "alts [] = REmpty" | "alts [r] = r" | "alts (r # rs) = RAlt r (alts rs)"
definition lit :: "string \<Rightarrow> regex" where "lit cs = seqs (map chr cs)"
definition word :: "string \<Rightarrow> regex" where "word cs = RSeq RWordB (seqs (map chr cs @ [RWordB]))"

text \<open>What each pattern of the list compiles to.\<close>

definition scanner_bodies :: "regex list" where
  "scanner_bodies =
     [RAlt (seqs [chr (CHR ''/''), chr (CHR ''/''), RStar (RAtom False (A_set True [CI_chr NL]))])
        (seqs [chr (CHR ''/''), chr (CHR ''*''), RLazy (itm [CI_space, CI_nspace]), chr (CHR ''*''), chr (CHR ''/'')]),
      seqs [chr (CHR 0x22),
        RStar (RAlt (RSeq (chr BSL) (RAtom False (A_dot False))) (RAtom False (A_set True [CI_chr (CHR 0x22), CI_chr BSL]))),
        chr (CHR 0x22)],
      seqs [chr (CHR 0x27),
        RAlt (RSeq (chr BSL) (RAtom False (A_dot False))) (RAtom False (A_set True [CI_chr (CHR 0x27), CI_chr BSL])),
        chr (CHR 0x27)],
      alts [
        seqs [chr (CHR ''0''), cls ''xX'',
          plus1 (itm [CI_digit, CI_rng (CHR ''a'') (CHR ''f''), CI_rng (CHR ''A'') (CHR ''F'')]), RStar (cls ''uUlL'')],
        seqs [chr (CHR ''0''), plus1 (itm [CI_rng (CHR ''0'') (CHR ''7'')]), RStar (cls ''uUlL'')],
        seqs [plus1 (itm [CI_digit]), opt1 (RSeq (chr (CHR ''.'')) (RStar (itm [CI_digit]))),
          opt1 (seqs [cls ''eE'', opt1 (cls ''+-''), plus1 (itm [CI_digit])]), RStar (cls ''fFlL'')]],
      RAlt (RSeq (plus1 (itm [CI_space])) (chr (CHR '';''))) (chr (CHR '';'')),
      cls '',.'', cls ''[({'', cls ''])}'',
      seqs [chr (CHR ''#''), RStar (itm [CI_space]),
        alts (map lit [''define'', ''include'', ''ifdef'', ''ifndef'', ''if'', ''else'', ''elif'', ''endif'',
          ''undef'', ''pragma'']), RWordB],
      chr (CHR ''#''),
      alts (map lit [''++'', ''--'', ''->'', ''=='', ''!='', ''<='', ''>='', ''&&'', ''||'', ''<<'', ''>>'',
          ''+='', ''-='', ''*='', ''/='', ''%='', ''&='', ''|='', ''^=''] @ [cls ''=+-*/%<>&|^~!?:'']),
      word ''struct'', word ''union'', word ''enum'', word ''typedef'',
      RSeq (itm [CI_rng (CHR ''A'') (CHR ''Z''), CI_rng (CHR ''a'') (CHR ''z''), CI_chr (CHR ''_'')]) (RStar (itm [CI_word])),
      plus1 (itm [CI_space]),
      RSeq (chr BSL) (plus1 (itm [CI_digit])),
      RAtom False (A_dot False)]"

text \<open>The alternatives of the joined pattern, as numbered groups.\<close>

fun alt_groups :: "nat \<Rightarrow> regex list \<Rightarrow> regex" where
  "alt_groups n [] = REmpty"
| "alt_groups n [b] = RGroup n b"
| "alt_groups n (b # bs) = RAlt (RGroup n b) (alt_groups (Suc n) bs)"

fun group_names :: "nat \<Rightarrow> ckind list \<Rightarrow> (string \<times> nat) list" where
  "group_names n [] = []"
| "group_names n (k # ks) = (to_name k, n) # group_names (Suc n) ks"

text \<open>One alternative compiles to its group, followed by a bar or at the end of the pattern.\<close>

definition seq_ok :: "ckind \<times> string \<Rightarrow> regex \<Rightarrow> bool" where
  "seq_ok k b \<longleftrightarrow> (\<forall>f n ns t. t = [] \<or> hd t = CHR ''|'' \<longrightarrow>
     p_seq ((Suc ^^ 120) f) (p_alt ((Suc ^^ 119) f) no_flags) no_flags (grp_text k @ t, n, ns) =
       Some (RGroup n b, t, Suc n, (to_name (fst k), n) # ns))"

lemma seq_okI:
  assumes "\<And>f n ns r. p_seq ((Suc ^^ 120) f) (p_alt ((Suc ^^ 119) f) no_flags) no_flags
      (grp_text k @ CHR ''|'' # r, n, ns) = Some (RGroup n b, CHR ''|'' # r, Suc n, (to_name (fst k), n) # ns)"
    and "\<And>f n ns. p_seq ((Suc ^^ 120) f) (p_alt ((Suc ^^ 119) f) no_flags) no_flags
      (grp_text k, n, ns) = Some (RGroup n b, [], Suc n, (to_name (fst k), n) # ns)"
  shows "seq_ok k b"
  unfolding seq_ok_def using assms by (metis append_Nil2 list.exhaust_sel)

lemma scanner_list_ok: "list_all2 seq_ok RE_SCANNER_LIST scanner_bodies"
  unfolding RE_SCANNER_LIST_def scanner_bodies_def list_all2_Cons list_all2_Nil
  by (intro conjI refl; rule seq_okI; code_simp)

lemma seq_ok_alt:
  assumes "seq_ok k b" and "119 \<le> f" and "t = [] \<or> hd t = CHR ''|''"
  shows "p_alt (Suc f) no_flags (grp_text k @ t, n, ns) =
    (if t = [] then Some (RGroup n b, [], Suc n, (to_name (fst k), n) # ns)
     else (case p_alt f no_flags (tl t, Suc n, (to_name (fst k), n) # ns) of
         None \<Rightarrow> None
       | Some (r', st') \<Rightarrow> Some (RAlt (RGroup n b) r', st')))"
proof -
  have f: "(Suc ^^ 119) (f - 119) = f" and sf: "(Suc ^^ 120) (f - 119) = Suc f"
    using assms(2) by (simp_all add: Suc_funpow)
  have "p_seq (Suc f) (p_alt f no_flags) no_flags (grp_text k @ t, n, ns) =
      Some (RGroup n b, t, Suc n, (to_name (fst k), n) # ns)"
    using assms(1) [unfolded seq_ok_def, rule_format, OF assms(3), of "f - 119" n ns] unfolding f sf .
  then show ?thesis using assms(3) by auto
qed

lemma p_alt_join:
  assumes "list_all2 seq_ok ts bs" and "ts \<noteq> []" and "length ts + 119 \<le> f"
  shows "p_alt f no_flags (join ''|'' (map grp_text ts), n, ns) =
    Some (alt_groups n bs, [], n + length ts, rev (group_names n (map fst ts)) @ ns)"
  using assms
proof (induction ts arbitrary: bs f n ns)
  case Nil
  then show ?case by simp
next
  case (Cons k ts)
  obtain b bs' where bs: "bs = b # bs'" "seq_ok k b" "list_all2 seq_ok ts bs'"
    using Cons.prems(1) by (auto simp: list_all2_Cons1)
  obtain f' where f: "f = Suc f'" "length ts + 119 \<le> f'" using Cons.prems(3) by (cases f) auto
  show ?case
  proof (cases "ts = []")
    case True
    then have [simp]: "bs' = []" using bs(3) by simp
    have "p_alt f no_flags (grp_text k @ [], n, ns) = Some (RGroup n b, [], Suc n, (to_name (fst k), n) # ns)"
      using seq_ok_alt [OF bs(2), of f' "[]" n ns] f by simp
    then show ?thesis by (simp add: True bs(1))
  next
    case False
    then obtain b1 bs1 where bs': "bs' = b1 # bs1" using bs(3) by (cases bs'; cases ts) auto
    let ?t = "CHR ''|'' # join ''|'' (map grp_text ts)"
    have join: "join ''|'' (map grp_text (k # ts)) = grp_text k @ ?t"
      using False by (cases ts) auto
    have "p_alt f no_flags (grp_text k @ ?t, n, ns) =
      (case p_alt f' no_flags (tl ?t, Suc n, (to_name (fst k), n) # ns) of
         None \<Rightarrow> None | Some (r', st') \<Rightarrow> Some (RAlt (RGroup n b) r', st'))"
      using seq_ok_alt [OF bs(2), of f' ?t n ns] f by simp
    then show ?thesis unfolding join
      using Cons.IH [OF bs(3) False f(2)] by (simp add: bs(1) bs')
  qed
qed

lemma scanner_length: "600 < length (join ''|'' (map grp_text RE_SCANNER_LIST))"
  by code_simp

lemma RE_SCANNER_code [code]:
  "RE_SCANNER = \<lparr>c_pattern = join ''|'' (map grp_text RE_SCANNER_LIST), c_flags = no_flags,
     c_prog = alt_groups 1 scanner_bodies, c_ngroups = 19,
     c_names = group_names 1 (map fst RE_SCANNER_LIST)\<rparr>"
proof -
  let ?s = "join ''|'' (map grp_text RE_SCANNER_LIST)"
  have len: "length RE_SCANNER_LIST = 19" by (simp add: RE_SCANNER_LIST_def)
  have "p_alt (Suc (length ?s)) no_flags (?s, 1, []) =
      Some (alt_groups 1 scanner_bodies, [], 1 + length RE_SCANNER_LIST,
        rev (group_names 1 (map fst RE_SCANNER_LIST)) @ [])"
    by (rule p_alt_join [OF scanner_list_ok])
      (use scanner_length in \<open>simp_all add: len, auto simp: RE_SCANNER_LIST_def\<close>)
  then show ?thesis
    by (simp add: RE_SCANNER_def fill_re_scanner_def re_compile_def len)
qed

end
