(* ===== verification/C_Lex.thy ===== *)
theory C_Lex
  imports C_Scanner
begin

text \<open>
  The tokenizer of \<^verbatim>\<open>c_lex.py\<close>: \<^verbatim>\<open>CToken\<close>, \<^verbatim>\<open>CTokenizer._tokenize\<close> with its three
  nesting counters, and \<^verbatim>\<open>CTokenizer.__str__\<close>, which prints the tokens without comments and
  without what a \<^verbatim>\<open>private:\<close> comment hides. The log of unexpected characters is not modelled.
\<close>

section \<open>Tokens\<close>

text \<open>The nesting level, in the order of the code's tuple: brackets, parentheses, braces.\<close>

type_synonym level = "nat \<times> nat \<times> nat"

record ctoken =
  tk_kind :: ckind
  tk_value :: string
  tk_pos :: nat
  tk_level :: level

definition RE_CONT :: regex where
  "RE_CONT = re (rx ''~~~n'')"

definition RE_COMMENT_START :: regex where
  "RE_COMMENT_START = re (rx ''/~*~s*'')"

text \<open>\<^verbatim>\<open>match.lastgroup\<close>: the alternatives of the scanner are groups, so the last one set is the only one.\<close>

definition lastgroup :: "compiled \<Rightarrow> pymatch \<Rightarrow> string" where
  "lastgroup c m = (case filter (\<lambda>(nm, n). m_group m n \<noteq> None) (c_names c) of
      [] \<Rightarrow> [] | (nm, n) # _ \<Rightarrow> nm)"

text \<open>
  The level after a token. A closing token whose own counter is zero falls through to the brace
  counter.
\<close>

definition level_step :: "level \<Rightarrow> ckind \<Rightarrow> string \<Rightarrow> level" where
  "level_step lv kind value = (case lv of (bracket, paren, brace) \<Rightarrow>
     if kind = BEGIN then
       (if value = ''('' then (bracket, paren + 1, brace)
        else if value = ''['' then (bracket + 1, paren, brace)
        else (bracket, paren, brace + 1))
     else if kind = END then
       (if value = '')'' \<and> 0 < paren then (bracket, paren - 1, brace)
        else if value = '']'' \<and> 0 < bracket then (bracket - 1, paren, brace)
        else if 0 < brace then (bracket, paren, brace - 1)
        else lv)
     else lv)"

fun tokens_from :: "level \<Rightarrow> pymatch list \<Rightarrow> ctoken list" where
  "tokens_from lv [] = []"
| "tokens_from lv (m # ms) =
     (let kind = from_name (lastgroup RE_SCANNER m);
          lv' = level_step lv kind (m_text m) in
      \<lparr>tk_kind = kind, tk_value = m_text m, tk_pos = m_start m, tk_level = lv'\<rparr> # tokens_from lv' ms)"

definition tokenize :: "string \<Rightarrow> ctoken list" where
  "tokenize source = tokens_from (0, 0, 0) (re_finditer (c_prog RE_SCANNER) (re_sub RE_CONT [] source))"

text \<open>\<^verbatim>\<open>CTokenizer(source)\<close>: from nothing, from a list of tokens, or from text.\<close>

datatype csource = Src_none | Src_list "ctoken list" | Src_str string

fun ctokenizer :: "csource \<Rightarrow> ctoken list" where
  "ctokenizer Src_none = []"
| "ctokenizer (Src_list ts) = ts"
| "ctokenizer (Src_str s) = (if s = [] then [] else tokenize s)"

section \<open>Printing\<close>

text \<open>
  The visibility stack is its top and the rest, so it is never empty. \<open>shown\<close> says whether a token
  that is visible is printed: a space before a semicolon and all but the last of several
  semicolons are dropped.
\<close>

definition shown :: "ctoken \<Rightarrow> ctoken list \<Rightarrow> bool" where
  "shown tok rest = (case rest of
      [] \<Rightarrow> True
    | next_tok # _ \<Rightarrow>
      \<not> (tk_kind tok = SPACE \<and> tk_kind next_tok = ENDSTMT) \<and>
      \<not> (tk_kind tok = ENDSTMT \<and> tk_kind next_tok = tk_kind tok))"

definition emit :: "bool \<Rightarrow> ctoken \<Rightarrow> ctoken list \<Rightarrow> string" where
  "emit vis tok rest = (if vis \<and> shown tok rest then tk_value tok else [])"

definition comment_vis :: "ctoken \<Rightarrow> bool \<Rightarrow> bool" where
  "comment_vis tok vis =
     (let comment = re_sub RE_COMMENT_START [] (tk_value tok) in
      if startswith comment ''private:'' then False
      else if startswith comment ''public:'' then True else vis)"

fun tokens_str :: "bool \<Rightarrow> bool list \<Rightarrow> ctoken list \<Rightarrow> string" where
  "tokens_str vis st [] = []"
| "tokens_str vis st (tok # ts) =
     (if tk_kind tok = BEGIN then emit vis tok ts @ tokens_str vis (vis # st) ts
      else if tk_kind tok = END then
        (case st of
           [] \<Rightarrow> emit vis tok ts @ tokens_str vis [] ts
         | t # st' \<Rightarrow>
           if \<not> vis \<and> t then replicate (length st') TAB @ tk_value tok @ tokens_str t st' ts
           else emit t tok ts @ tokens_str t st' ts)
      else if tk_kind tok = COMMENT then tokens_str (comment_vis tok vis) st ts
      else emit vis tok ts @ tokens_str vis st ts)"

definition ctokenizer_str :: "ctoken list \<Rightarrow> string" where
  "ctokenizer_str ts = tokens_str True [] ts"

section \<open>The scanner matches everywhere\<close>

lemma step_star_stop: "step_re (RStar r) c c"
proof -
  obtain p s g where c: "c = (p, s, g)" by (cases c)
  show ?thesis unfolding c step_re_def by (subst matches.simps(8)) simp
qed

lemma step_RGroupI:
  "step_re r (p, s, g) (p', s', g') \<Longrightarrow>
   step_re (RGroup n r) (p, s, g) (p', s', g'(n := Some (take (length s - length s') s)))"
  by (simp only: step_re_simps, rule exI [of _ g'], rule conjI, assumption, rule refl)

lemma step_alt_groups:
  "b \<in> set bs \<Longrightarrow> step_re b (p, s, g) (p', s', g') \<Longrightarrow> \<exists>g''. step_re (alt_groups n bs) (p, s, g) (p', s', g'')"
proof (induction n bs rule: alt_groups.induct)
  case (2 n a)
  then show ?case using step_RGroupI [of a p s g p' s' g' n] by simp blast
next
  case (3 n a a' bs)
  from "3.prems"(1) consider "b = a" | "b \<in> set (a' # bs)" by auto
  then show ?case
  proof cases
    case 1
    with step_RGroupI [of a p s g p' s' g' n] "3.prems"(2) show ?thesis
      by (simp only: alt_groups.simps step_re_simps(7)) blast
  next
    case 2
    from "3.IH" [OF this "3.prems"(2)] show ?thesis
      by (simp only: alt_groups.simps step_re_simps(7)) blast
  qed
qed simp

lemma alt_groups_step:
  "step_re (alt_groups n bs) (p, s, g) (p', s', g') \<Longrightarrow> bs \<noteq> [] \<Longrightarrow>
   \<exists>i g1. i < length bs \<and> step_re (bs ! i) (p, s, g) (p', s', g1) \<and>
     g' = g1(n + i := Some (take (length s - length s') s))"
proof (induction n bs rule: alt_groups.induct)
  case (2 n a)
  then obtain g1 where "step_re a (p, s, g) (p', s', g1)"
    "g' = g1(n := Some (take (length s - length s') s))" unfolding alt_groups.simps step_re_simps by blast
  then show ?case by (intro exI [of _ 0] exI [of _ g1]) simp
next
  case (3 n a a' bs)
  from "3.prems" consider "step_re (RGroup n a) (p, s, g) (p', s', g')"
    | "step_re (alt_groups (Suc n) (a' # bs)) (p, s, g) (p', s', g')"
    unfolding alt_groups.simps step_re_simps by blast
  then show ?case
  proof cases
    case 1
    then obtain g1 where "step_re a (p, s, g) (p', s', g1)"
      "g' = g1(n := Some (take (length s - length s') s))" unfolding step_re_simps by blast
    then show ?thesis by (intro exI [of _ 0] exI [of _ g1]) simp
  next
    case 2
    from "3.IH" [OF this] obtain i g1 where "i < length (a' # bs)"
      "step_re ((a' # bs) ! i) (p, s, g) (p', s', g1)"
      "g' = g1(Suc n + i := Some (take (length s - length s') s))" by blast
    then show ?thesis by (intro exI [of _ "Suc i"] exI [of _ g1]) simp
  qed
qed simp

lemma scanner_prog [simp]: "c_prog RE_SCANNER = alt_groups 1 scanner_bodies"
  by (simp add: RE_SCANNER_code)

lemma scanner_min_len: "min_len (alt_groups 1 scanner_bodies) = 1"
  by code_simp

lemma scanner_bodies_last: "RAtom False (A_dot False) \<in> set scanner_bodies"
    "plus1 (itm [CI_space]) \<in> set scanner_bodies"
  by (simp_all add: scanner_bodies_def)

lemma scanner_step: "\<exists>c'. step_re (alt_groups 1 scanner_bodies) (p, x # xs, g) c'"
proof (cases "x = NL")
  case True
  then have "step_re (itm [CI_space]) (p, x # xs, g) (Some x, xs, g)"
    by (simp add: itm_def re_set)
  then have "step_re (plus1 (itm [CI_space])) (p, x # xs, g) (Some x, xs, g)"
    unfolding plus1_def step_re_simps using step_star_stop by blast
  with step_alt_groups [OF scanner_bodies_last(2)] show ?thesis by blast
next
  case False
  then have "step_re (RAtom False (A_dot False)) (p, x # xs, g) (Some x, xs, g)"
    by (simp add: re_set)
  with step_alt_groups [OF scanner_bodies_last(1)] show ?thesis by blast
qed

lemma step_min_len: "step_re r (p, s, g) (p', s', g') \<Longrightarrow> min_len r + length s' \<le> length s"
  using step_lang [of r "(p, s, g)" "(p', s', g')"] lang_min_len by (fastforce simp: consumed_def)

section \<open>Patterns that tile\<close>

text \<open>A pattern that matches at every character and never the empty text cuts a string into matches.\<close>

locale tiling =
  fixes r :: regex
  assumes eats: "0 < min_len r"
    and everywhere: "\<exists>c'. step_re r (p, x # xs, no_groups) c'"
begin

lemma first_match_Cons: "first_match r adv p (x # xs) \<noteq> None"
proof
  assume "first_match r adv p (x # xs) = None"
  then have none: "\<forall>c \<in> set (matches r (p, x # xs, no_groups)). (case c of (p', s', g) \<Rightarrow>
      if adv \<and> length s' = length (x # xs) then None else Some (p', s', g)) = None"
    by (simp only: first_match_def first_some_None_iff)
  obtain p' s' g' where c': "step_re r (p, x # xs, no_groups) (p', s', g')"
    using everywhere by (metis prod_cases3)
  then have "(p', s', g') \<in> set (matches r (p, x # xs, no_groups))" by (simp add: step_re_def)
  with none have "(if adv \<and> length s' = length (x # xs) then None else Some (p', s', g')) = None"
    using bspec by fastforce
  then have "length s' = length (x # xs)" by (cases "adv \<and> length s' = length (x # xs)") auto
  with step_min_len [OF c'] eats show False by simp
qed

lemma first_match_Nil: "first_match r adv p [] = None"
proof (cases "first_match r adv p []")
  case (Some c)
  then show ?thesis using step_min_len [OF first_match_step(1)] eats by (cases c) fastforce
qed simp

lemma scan_tiles:
  "r' = r \<Longrightarrow> scan r' adv p s = (segs, tail) \<Longrightarrow> tail = [] \<and> (\<forall>(pre, t, g) \<in> set segs. pre = [] \<and> t \<noteq> [])"
proof (induction r' adv p s arbitrary: segs rule: scan.induct)
  case (1 r' adv p s)
  note [simp] = "1.prems"(1)
  show ?case
  proof (cases s)
    case Nil
    then show ?thesis using "1.prems"(2) by (simp add: scan.simps [of r adv p "[]"] first_match_Nil)
  next
    case (Cons x xs)
    obtain p' s' g where m: "first_match r adv p s = Some (p', s', g)"
      using first_match_Cons Cons by (metis not_Some_eq prod_cases3)
    let ?t = "take (length s - length s') s"
    have s1: "search1 r adv p s = Some ([], ?t, g, p', s')" using m Cons by simp
    have ne: "?t \<noteq> []" using step_min_len [OF first_match_step(1) [OF m]] eats Cons by auto
    obtain segs' where sc: "scan r (?t = []) p' s' = (segs', tail)" and segs: "segs = ([], ?t, g) # segs'"
      using "1.prems"(2) s1 by (auto simp: scan.simps [of r adv p s] split: prod.splits)
    have "tail = [] \<and> (\<forall>(pre, t, g) \<in> set segs'. pre = [] \<and> t \<noteq> [])"
      by (rule "1.IH" [OF _ refl refl refl refl "1.prems"(1)], unfold "1.prems"(1), rule s1, rule sc)
    with segs ne show ?thesis by simp
  qed
qed

end

interpretation scanner: tiling "alt_groups 1 scanner_bodies"
  using scanner_min_len scanner_step by unfold_locales auto

section \<open>Tokens tile the source\<close>

text \<open>Tokens that are not empty and stand one right after the other from a position on.\<close>

fun at_pos :: "nat \<Rightarrow> ctoken list \<Rightarrow> bool" where
  "at_pos i [] = True"
| "at_pos i (t # ts) = (tk_pos t = i \<and> tk_value t \<noteq> [] \<and> at_pos (i + length (tk_value t)) ts)"

lemma tokens_from_tile:
  "\<forall>(pre, t, g) \<in> set segs. pre = [] \<and> t \<noteq> [] \<Longrightarrow>
   concat (map tk_value (tokens_from lv (seg_matches i segs))) = segs_text segs \<and>
   at_pos i (tokens_from lv (seg_matches i segs))"
proof (induction i segs arbitrary: lv rule: seg_matches.induct)
  case (1 i)
  show ?case by (simp add: segs_text_def)
next
  case (2 i pre t g segs)
  let ?lv = "level_step lv (from_name (lastgroup RE_SCANNER (PyMatch i t g))) t"
  have "concat (map tk_value (tokens_from ?lv (seg_matches (i + length t) segs))) = segs_text segs \<and>
      at_pos (i + length t) (tokens_from ?lv (seg_matches (i + length t) segs))"
    using "2.IH" [of ?lv] "2.prems" by auto
  with "2.prems" show ?case by (auto simp: Let_def segs_text_def)
qed

lemma tokenize_tile:
  "concat (map tk_value (tokenize s)) = re_sub RE_CONT [] s \<and> at_pos 0 (tokenize s)"
proof -
  let ?s = "re_sub RE_CONT [] s"
  obtain segs tail where sc: "re_scan (alt_groups 1 scanner_bodies) ?s = (segs, tail)"
    by (cases "re_scan (alt_groups 1 scanner_bodies) ?s")
  have "tail = [] \<and> (\<forall>(pre, t, g) \<in> set segs. pre = [] \<and> t \<noteq> [])"
    using scanner.scan_tiles [OF refl sc [unfolded re_scan_def]] .
  moreover have "segs_text segs @ tail = ?s" using scan_text sc by (simp add: re_scan_def)
  ultimately show ?thesis
    using tokens_from_tile [of segs "(0, 0, 0)" 0] sc by (simp add: tokenize_def re_finditer_def)
qed

lemma tokenize_concat: "concat (map tk_value (tokenize s)) = re_sub RE_CONT [] s"
  using tokenize_tile by blast

text \<open>
  C14. The tokenizer loses nothing: the values of the tokens, concatenated, are the source with its
  continuation lines joined, no token is empty, and each stands where the one before it ends.
\<close>

theorem tokenize_tiles:
  "concat (map tk_value (tokenize s)) = re_sub RE_CONT [] s \<and> at_pos 0 (tokenize s)"
  by (rule tokenize_tile)

section \<open>Token kinds\<close>

primrec no_grp :: "regex \<Rightarrow> bool" where
  "no_grp REmpty = True"
| "no_grp (RAtom ic a) = True"
| "no_grp (RBol m) = True"
| "no_grp (REol m) = True"
| "no_grp RWordB = True"
| "no_grp (RSeq r1 r2) = (no_grp r1 \<and> no_grp r2)"
| "no_grp (RAlt r1 r2) = (no_grp r1 \<and> no_grp r2)"
| "no_grp (RStar r) = no_grp r"
| "no_grp (RLazy r) = no_grp r"
| "no_grp (RGroup m r) = False"

lemma no_grp_bodies: "no_grp r \<Longrightarrow> bodies n r = []"
  by (induction r) auto

lemma no_grp_step: "step_re r (p, s, g) (p', s', g') \<Longrightarrow> no_grp r \<Longrightarrow> g' = g"
  using step_captured [of r "(p, s, g)" "(p', s', g')"] by (auto simp: captured_def no_grp_bodies)

lemma scanner_no_grp: "list_all no_grp scanner_bodies"
  by code_simp

lemma from_to_name [simp]: "from_name (to_name k) = k"
  by (cases k) (simp_all add: from_name_def to_name_def name_by_val_def)

lemma group_names_pos: "x \<in> set (group_names n ks) \<Longrightarrow> n \<le> snd x"
  by (induction ks arbitrary: n) fastforce+

lemma filter_group_names:
  "i < length ks \<Longrightarrow> filter (\<lambda>(nm, j). j = n + i) (group_names n ks) = [(to_name (ks ! i), n + i)]"
proof (induction ks arbitrary: n i)
  case Nil
  then show ?case by simp
next
  case (Cons k ks)
  have none: "filter (\<lambda>(nm, j). j = n) (group_names (n + Suc m) ks) = []" for m
    by (induction ks arbitrary: m) (auto simp: add_Suc_right [symmetric] simp del: add_Suc_right)
  show ?case
  proof (cases i)
    case 0
    then show ?thesis using none [of 0] by simp
  next
    case (Suc j)
    then show ?thesis using Cons.IH [of j "Suc n"] Cons.prems by simp
  qed
qed

lemma scan_kind:
  assumes "(pre, t, g) \<in> set segs" and "re_scan (alt_groups 1 scanner_bodies) s = (segs, tail)"
  shows "\<exists>i < length RE_SCANNER_LIST. from_name (lastgroup RE_SCANNER (PyMatch k t g)) =
    fst (RE_SCANNER_LIST ! i) \<and> t \<in> lang (scanner_bodies ! i)"
proof -
  have len: "length scanner_bodies = 19" "length RE_SCANNER_LIST = 19"
    by (simp_all add: scanner_bodies_def RE_SCANNER_LIST_def)
  from scan_langs [OF assms(2) [unfolded re_scan_def] assms(1)] obtain q u v
    where st: "step_re (alt_groups 1 scanner_bodies) (q, t @ u, no_groups) (v, u, g)" by blast
  have "scanner_bodies \<noteq> []" using len by auto
  from alt_groups_step [OF st this] obtain i g1 where i: "i < 19"
    and b: "step_re (scanner_bodies ! i) (q, t @ u, no_groups) (v, u, g1)"
    and g: "g = g1(1 + i := Some t)" using len by auto
  have "no_grp (scanner_bodies ! i)" using scanner_no_grp i len by (simp add: list_all_length)
  from no_grp_step [OF b this] have "g = no_groups(1 + i := Some t)" using g by simp
  then have "(\<lambda>(nm, j). m_group (PyMatch k t g) j \<noteq> None) x = (\<lambda>(nm, j). j = 1 + i) x"
    if "x \<in> set (group_names 1 (map fst RE_SCANNER_LIST))" for x
    using group_names_pos [OF that] by (cases x) (auto simp: m_group_def)
  then have "filter (\<lambda>(nm, j). m_group (PyMatch k t g) j \<noteq> None) (c_names RE_SCANNER) =
      filter (\<lambda>(nm, j). j = 1 + i) (group_names 1 (map fst RE_SCANNER_LIST))"
    unfolding RE_SCANNER_code by (simp cong: filter_cong)
  then have "lastgroup RE_SCANNER (PyMatch k t g) = to_name (fst (RE_SCANNER_LIST ! i))"
    using filter_group_names [of i "map fst RE_SCANNER_LIST" 1] i len by (simp add: lastgroup_def)
  moreover have "t \<in> lang (scanner_bodies ! i)"
    using step_lang [OF b] by (auto simp: consumed_def)
  ultimately show ?thesis using i len by auto
qed

lemma tokens_from_in:
  "tok \<in> set (tokens_from lv ms) \<Longrightarrow>
   \<exists>m \<in> set ms. tk_kind tok = from_name (lastgroup RE_SCANNER m) \<and> tk_value tok = m_text m"
proof (induction ms arbitrary: lv)
  case Nil
  then show ?case by simp
next
  case (Cons m ms)
  then show ?case by (simp add: Let_def) fastforce
qed

lemma seg_matches_in: "m \<in> set (seg_matches i segs) \<Longrightarrow> \<exists>k pre t g. m = PyMatch k t g \<and> (pre, t, g) \<in> set segs"
  by (induction i segs rule: seg_matches.induct) auto

lemma scanner_bodies_re: "map (\<lambda>(k, p). re p) RE_SCANNER_LIST = scanner_bodies"
  by code_simp

lemma scanner_kinds_distinct: "distinct (map fst RE_SCANNER_LIST)"
  by code_simp

lemma token_kind_lang:
  assumes "tok \<in> set (tokenize s)"
  shows "\<exists>p. map_of RE_SCANNER_LIST (tk_kind tok) = Some p \<and> tk_value tok \<in> lang (re p)"
proof -
  obtain segs tail where sc: "re_scan (alt_groups 1 scanner_bodies) (re_sub RE_CONT [] s) = (segs, tail)"
    by (cases "re_scan (alt_groups 1 scanner_bodies) (re_sub RE_CONT [] s)")
  from tokens_from_in [OF assms [unfolded tokenize_def]] obtain m where m: "m \<in> set (seg_matches 0 segs)"
    and k: "tk_kind tok = from_name (lastgroup RE_SCANNER m)" "tk_value tok = m_text m"
    using sc by (auto simp: re_finditer_def)
  from seg_matches_in [OF m] obtain j pre t g where j: "m = PyMatch j t g" "(pre, t, g) \<in> set segs" by blast
  from scan_kind [OF j(2) sc, of j] obtain i where i: "i < length RE_SCANNER_LIST"
    "tk_kind tok = fst (RE_SCANNER_LIST ! i)" "t \<in> lang (scanner_bodies ! i)"
    using k j(1) by auto
  have "scanner_bodies ! i = re (snd (RE_SCANNER_LIST ! i))"
    using i(1) by (simp flip: scanner_bodies_re add: case_prod_unfold)
  moreover have "map_of RE_SCANNER_LIST (tk_kind tok) = Some (snd (RE_SCANNER_LIST ! i))"
    using i(1,2) scanner_kinds_distinct by (metis map_of_eq_Some_iff nth_mem prod.collapse)
  ultimately show ?thesis using i(3) k j(1) by auto
qed

text \<open>
  C15. The kind of a token is right: its value is in the language of the pattern the scanner list
  gives for that kind.
\<close>

theorem token_kind_sound:
  assumes "tok \<in> set (tokenize s)"
  shows "\<exists>p. map_of RE_SCANNER_LIST (tk_kind tok) = Some p \<and> tk_value tok \<in> lang (re p)"
  using assms by (rule token_kind_lang)

theorem token_kind_sound_witness:
  "let t = hd (tokenize ''a;'') in t \<in> set (tokenize ''a;'') \<and> tk_kind t = NAME \<and>
     (\<exists>p. map_of RE_SCANNER_LIST (tk_kind t) = Some p \<and> tk_value t \<in> lang (re p))"
proof -
  have "tokenize ''a;'' \<noteq> [] \<and> tk_kind (hd (tokenize ''a;'')) = NAME" by code_simp
  then show ?thesis using token_kind_sound [of "hd (tokenize ''a;'')" "''a;''"] by (simp add: Let_def)
qed

text \<open>Opening and closing tokens are single characters, as the level counters assume.\<close>

lemma begin_end_values:
  assumes "tok \<in> set (tokenize s)"
  shows "tk_kind tok = BEGIN \<Longrightarrow> tk_value tok \<in> {''('', ''['', ''{''}"
    and "tk_kind tok = END \<Longrightarrow> tk_value tok \<in> {'')'', '']'', ''}''}"
proof -
  have cls: "re (rx ''[~[~(~{]'') = cls ''[({''" "re (rx ''[~]~)~}]'') = cls ''])}''" by code_simp+
  show "tk_value tok \<in> {''('', ''['', ''{''}" if "tk_kind tok = BEGIN"
    using token_kind_lang [OF assms] that cls(1) by (auto simp: RE_SCANNER_LIST_def cls_def)
  show "tk_value tok \<in> {'')'', '']'', ''}''}" if "tk_kind tok = END"
    using token_kind_lang [OF assms] that cls(2) by (auto simp: RE_SCANNER_LIST_def cls_def)
qed

section \<open>Nesting levels\<close>

text \<open>Each token carries the level its predecessor's level steps to.\<close>

fun leveled :: "level \<Rightarrow> ctoken list \<Rightarrow> bool" where
  "leveled lv [] = True"
| "leveled lv (t # ts) = (tk_level t = level_step lv (tk_kind t) (tk_value t) \<and> leveled (tk_level t) ts)"

definition end_level :: "level \<Rightarrow> ctoken list \<Rightarrow> level" where
  "end_level lv ts = (if ts = [] then lv else tk_level (last ts))"

lemma end_level_simps [simp]:
  "end_level lv [] = lv" "end_level lv (t # ts) = end_level (tk_level t) ts"
  "end_level lv (xs @ ys) = end_level (end_level lv xs) ys"
  by (simp_all add: end_level_def)

lemma leveled_append: "leveled lv (xs @ ys) \<longleftrightarrow> leveled lv xs \<and> leveled (end_level lv xs) ys"
  by (induction xs arbitrary: lv) auto

lemma tokens_from_leveled: "leveled lv (tokens_from lv ms)"
  by (induction ms arbitrary: lv) (auto simp: Let_def)

lemma tokenize_leveled: "leveled (0, 0, 0) (tokenize s)"
  by (simp add: tokenize_def tokens_from_leveled)

definition opens :: "ctoken \<Rightarrow> bool" where
  "opens t \<longleftrightarrow> tk_kind t = BEGIN"

definition closes :: "ctoken \<Rightarrow> bool" where
  "closes t \<longleftrightarrow> tk_kind t = END"

definition pairs :: "ctoken \<Rightarrow> ctoken \<Rightarrow> bool" where
  "pairs o_t c_t \<longleftrightarrow> opens o_t \<and> closes c_t \<and>
     (tk_value o_t, tk_value c_t) \<in> {(''('', '')''), (''['', '']''), (''{'', ''}'')}"

text \<open>Well-bracketed token sequences.\<close>

inductive balanced :: "ctoken list \<Rightarrow> bool" where
  bal_Nil: "balanced []"
| bal_other: "\<not> opens t \<Longrightarrow> \<not> closes t \<Longrightarrow> balanced ts \<Longrightarrow> balanced (t # ts)"
| bal_pair: "pairs b e \<Longrightarrow> balanced ts \<Longrightarrow> balanced us \<Longrightarrow> balanced (b # ts @ e # us)"

lemma pair_level: "pairs b e \<Longrightarrow>
    level_step (level_step lv (tk_kind b) (tk_value b)) (tk_kind e) (tk_value e) = lv"
  by (cases lv) (auto simp: pairs_def opens_def closes_def level_step_def)

lemma balanced_end_level: "balanced ts \<Longrightarrow> leveled lv ts \<Longrightarrow> end_level lv ts = lv"
proof (induction ts arbitrary: lv rule: balanced.induct)
  case bal_Nil
  show ?case by simp
next
  case (bal_other t ts)
  then have "tk_level t = lv" by (cases lv) (simp add: opens_def closes_def level_step_def)
  with bal_other show ?case by simp
next
  case (bal_pair b e ts us)
  from bal_pair.prems have l: "leveled (tk_level b) ts" "leveled (tk_level e) us"
    "tk_level e = level_step (end_level (tk_level b) ts) (tk_kind e) (tk_value e)"
    "tk_level b = level_step lv (tk_kind b) (tk_value b)"
    unfolding leveled.simps leveled_append by blast+
  then have "tk_level e = lv" using bal_pair.IH(1) [OF l(1)] pair_level [OF bal_pair.hyps(1)] by simp
  with bal_pair.IH(2) l(2) show ?case by simp
qed

text \<open>
  C16. On well-bracketed text the counters are exact: after every well-bracketed stretch of a
  tokenized source the level is what it was before it; in particular it ends at zero.
\<close>

theorem balanced_levels:
  assumes "tokenize s = xs @ ys @ zs" and "balanced ys"
  shows "end_level (0, 0, 0) (xs @ ys) = end_level (0, 0, 0) xs"
  using balanced_end_level [OF assms(2)] tokenize_leveled [of s] assms(1) by (simp add: leveled_append)

theorem balanced_levels_witness:
  "let ts = tokenize ''(a)'' in length ts = 3 \<and> balanced ts \<and> end_level (0, 0, 0) ts = (0, 0, 0)"
proof -
  let ?b = "\<lparr>tk_kind = BEGIN, tk_value = ''('', tk_pos = 0, tk_level = (0, 1, 0)\<rparr>"
  let ?a = "\<lparr>tk_kind = NAME, tk_value = ''a'', tk_pos = 1, tk_level = (0, 1, 0)\<rparr>"
  let ?e = "\<lparr>tk_kind = END, tk_value = '')'', tk_pos = 2, tk_level = (0, 0, 0)\<rparr>"
  have ts: "tokenize ''(a)'' = [?b, ?a, ?e]" by code_simp
  have "balanced (?b # [?a] @ ?e # [])"
    by (intro balanced.intros) (simp_all add: pairs_def opens_def closes_def)
  then have b: "balanced (tokenize ''(a)'')" by (simp add: ts)
  from balanced_levels [of "''(a)''" "[]" "tokenize ''(a)''" "[]"] b show ?thesis
    by (simp add: Let_def ts)
qed

text \<open>
  The counters are not independent: a closing parenthesis or bracket without its opening one
  lowers the brace level, so the text after it inside a brace is taken to be outside.
\<close>

theorem stray_close_lowers_brace:
  "map tk_level (filter (\<lambda>t. tk_kind t = NAME) (tokenize ''{ a ) b }'')) = [(0, 0, 1), (0, 0, 0)]"
  by code_simp

section \<open>Printing\<close>

text \<open>Tokens that printing keeps: no comment, and none dropped before a semicolon.\<close>

fun plain :: "ctoken list \<Rightarrow> bool" where
  "plain [] = True"
| "plain (t # ts) = (tk_kind t \<noteq> COMMENT \<and> shown t ts \<and> plain ts)"

lemma tokens_str_plain: "plain ts \<Longrightarrow> set st \<subseteq> {True} \<Longrightarrow> tokens_str True st ts = concat (map tk_value ts)"
proof (induction True st ts rule: tokens_str.induct)
  case (2 st tok ts)
  then show ?case by (cases st) (auto simp: emit_def)
qed simp

text \<open>
  C17. Printing undoes tokenizing: a source whose tokens include no comment and no repeated
  semicolon prints back as itself, its continuation lines joined.
\<close>

theorem str_tokenize:
  assumes "plain (tokenize s)"
  shows "ctokenizer_str (tokenize s) = re_sub RE_CONT [] s"
  using tokens_str_plain [OF assms, of "[]"] tokenize_concat [of s] by (simp add: ctokenizer_str_def)

theorem str_tokenize_witness:
  "plain (tokenize ''int a;'') \<and> ctokenizer_str (tokenize ''int a;'') = ''int a;''"
proof -
  have p: "plain (tokenize ''int a;'')" by code_simp
  moreover have "re_sub RE_CONT [] ''int a;'' = ''int a;''" by code_simp
  ultimately show ?thesis using str_tokenize [OF p] by simp
qed

text \<open>A stretch of tokens whose blocks close, whatever their brackets.\<close>

inductive nested :: "ctoken list \<Rightarrow> bool" where
  nest_Nil: "nested []"
| nest_other: "\<not> opens t \<Longrightarrow> \<not> closes t \<Longrightarrow> nested ts \<Longrightarrow> nested (t # ts)"
| nest_block: "opens b \<Longrightarrow> closes e \<Longrightarrow> nested ts \<Longrightarrow> nested us \<Longrightarrow> nested (b # ts @ e # us)"

definition makes_public :: "ctoken \<Rightarrow> bool" where
  "makes_public t \<longleftrightarrow> tk_kind t = COMMENT \<and> comment_vis t False"

lemma hidden_nested:
  "nested ts \<Longrightarrow> \<forall>t \<in> set ts. \<not> makes_public t \<Longrightarrow>
   tokens_str False st (ts @ rest) = tokens_str False st rest"
proof (induction ts arbitrary: st rest rule: nested.induct)
  case nest_Nil
  show ?case by simp
next
  case (nest_other t ts)
  then show ?case by (auto simp: opens_def closes_def emit_def makes_public_def)
next
  case (nest_block b e ts us)
  then show ?case by (auto simp: opens_def closes_def emit_def)
qed

lemma private_vis: "\<not> comment_vis c True \<Longrightarrow> \<not> comment_vis c v"
  by (auto simp: comment_vis_def Let_def split: if_splits)

text \<open>
  C18. A private comment hides the rest of its block: nothing of what follows it is printed, nested
  blocks included, up to the token that closes the block, which is printed again, indented by the
  depth outside.
\<close>

theorem private_hides:
  assumes "tk_kind c = COMMENT" and "\<not> comment_vis c True" and "nested ts"
    and "\<forall>t \<in> set ts. \<not> makes_public t" and "closes e"
  shows "tokens_str v (True # st) (c # ts @ e # rest) =
    replicate (length st) TAB @ tk_value e @ tokens_str True st rest"
  using hidden_nested [OF assms(3,4), of "True # st" "e # rest"] assms(1,5) private_vis [OF assms(2)]
  by (simp add: closes_def)

theorem private_hides_witness:
  "let ts = tokenize ''{/* private: */a}'' in
   tokens_str True [True] (tl ts) = ''}'' \<and> length ts = 4"
proof -
  let ?ts = "tokenize ''{/* private: */a}''"
  let ?c = "\<lparr>tk_kind = COMMENT, tk_value = ''/* private: */'', tk_pos = 1, tk_level = (0, 0, 1)\<rparr>"
  let ?a = "\<lparr>tk_kind = NAME, tk_value = ''a'', tk_pos = 15, tk_level = (0, 0, 1)\<rparr>"
  let ?e = "\<lparr>tk_kind = END, tk_value = ''}'', tk_pos = 16, tk_level = (0, 0, 0)\<rparr>"
  have ts: "tl ?ts = [?c, ?a, ?e] \<and> length ?ts = 4" by code_simp
  have v: "\<not> comment_vis ?c True" by code_simp
  have n: "nested [?a]" by (intro nested.intros) (simp_all add: opens_def closes_def)
  from private_hides [OF _ v n, of ?e True "[]" "[]"] ts show ?thesis
    by (simp add: Let_def makes_public_def closes_def)
qed

end
