(* ===== verification/C_Match.thy ===== *)
theory C_Match
  imports C_Lex
begin

text \<open>
  \<^verbatim>\<open>CTokenArgs\<close> and \<^verbatim>\<open>CMatch\<close> of \<^verbatim>\<open>c_lex.py\<close>: finding macro calls in a token list and
  replacing them by a template with back references to their arguments. The generators of the
  code are the lists of what they yield; the log is not modelled, except that the one message
  sent to the missing attribute \<^verbatim>\<open>self.log\<close> raises.
\<close>

section \<open>Arguments of a macro call\<close>

text \<open>The highest group is \<open>-1\<close> as long as there is none; a greedy group of number zero counts as none.\<close>

record ctoken_args =
  ca_groups :: "nat list"
  ca_max :: int
  ca_greedy :: nat
  ca_sub_str :: string
  ca_tokens :: "ctoken list"

definition RE_BACKREF :: regex where
  "RE_BACKREF = re (rx ''~~(~d+)([+]?)'')"

definition RE_GREEDY :: regex where
  "RE_GREEDY = re (rx ''(~~~d+)[+]'')"

definition args_step :: "nat list \<times> int \<times> nat \<Rightarrow> pymatch \<Rightarrow> (nat list \<times> int \<times> nat) res" where
  "args_step st m = (case st of (gs, mx, greedy) \<Rightarrow>
     let group = digits_val 0 (m_str m 1); plus = (m_str m 2 = ''+'') in
     if plus \<and> greedy \<noteq> 0 \<and> greedy \<noteq> group then Inl ValueError
     else Inr (List.insert group gs, max mx (int group), if plus then group else greedy))"

definition ctoken_args_init :: "string \<Rightarrow> ctoken_args res" where
  "ctoken_args_init sub_str =
     rbind (fold_res args_step ([], -1, 0) (re_finditer RE_BACKREF sub_str)) (\<lambda>(gs, mx, greedy).
       if greedy \<noteq> 0 \<and> int greedy \<noteq> mx then Inl ValueError
       else (let s = (if greedy \<noteq> 0 then re_sub RE_GREEDY (rx ''~'' @ ''1'') sub_str else sub_str) in
         Inr \<lparr>ca_groups = gs, ca_max = mx, ca_greedy = greedy, ca_sub_str = s,
              ca_tokens = ctokenizer (Src_str s)\<rparr>))"

text \<open>The contents of \<^verbatim>\<open>\0\<close>.\<close>

fun group_zero :: "int \<Rightarrow> ctoken list \<Rightarrow> ctoken list \<Rightarrow> ctoken list" where
  "group_zero inner acc [] = acc"
| "group_zero inner acc (tok # ts) =
     (if tk_kind tok = BEGIN then
        (if acc = [] then group_zero (inner + 1) acc ts
         else group_zero (inner + 1) (if inner + 1 \<noteq> 0 then acc @ [tok] else acc) ts)
      else if tk_kind tok = END then
        (if inner - 1 < 0 then acc
         else group_zero (inner - 1) (if inner - 1 \<noteq> 0 then acc @ [tok] else acc) ts)
      else group_zero inner (if inner \<noteq> 0 then acc @ [tok] else acc) ts)"

text \<open>The loop over the arguments after the opening token.\<close>

fun args_loop :: "ctoken_args \<Rightarrow> string option \<Rightarrow> int \<Rightarrow> nat \<Rightarrow> ctoken list list \<Rightarrow> ctoken list \<Rightarrow> ctoken list list" where
  "args_loop ca delim inner pos gl [] = gl"
| "args_loop ca delim inner pos gl (tok # ts) =
     (let inner' = (if tk_kind tok = BEGIN then inner + 1 else if tk_kind tok = END then inner - 1 else inner) in
      if tk_kind tok = END \<and> inner' < 0 then gl
      else if (tk_kind tok = PUNC \<or> tk_kind tok = ENDSTMT) \<and> delim = Some (tk_value tok) then
        (if ca_greedy ca \<noteq> 0 \<and> ca_max ca < int (pos + 1)
         then args_loop ca delim inner' pos (gl[pos := gl ! pos @ [tok]]) ts
         else if ca_max ca < int (pos + 1) then gl @ [[]]
         else args_loop ca delim inner' (pos + 1) (gl @ [[]]) ts)
      else args_loop ca delim inner' pos (gl[pos := gl ! pos @ [tok]]) ts)"

text \<open>
  \<^verbatim>\<open>groups\<close>. A bracket as the opening token reaches \<^verbatim>\<open>self.log\<close>, an attribute that does not exist;
  without any token the loop variable is unbound.
\<close>

definition args_groups :: "ctoken_args \<Rightarrow> ctoken list \<Rightarrow> (level \<times> ctoken list list) res" where
  "args_groups ca ts =
     (if ca_max ca < 0 then Inr ((0, 0, 0), [])
      else (let g0 = (if 0 \<in> set (ca_groups ca) then group_zero 0 [] ts else []) in
        if ca_max ca = 0 then Inr ((0, 0, 0), [g0])
        else if ts = [] then Inl UnboundLocalError
        else (case dropWhile (\<lambda>t. tk_kind t \<noteq> BEGIN) ts of
            [] \<Rightarrow> Inr ((0, 0, 0), [g0, []])
          | b # rest \<Rightarrow>
            if tk_value b = ''{'' then Inr (tk_level b, args_loop ca (Some '';'') 0 1 [g0, []] rest)
            else if tk_value b = ''('' then Inr (tk_level b, args_loop ca (Some '','') 0 1 [g0, []] rest)
            else Inl AttributeError)))"

definition add_level :: "level \<Rightarrow> level \<Rightarrow> level" where
  "add_level a b = (case a of (x, y, z) \<Rightarrow> case b of (u, v, w) \<Rightarrow> (x + u, y + v, z + w))"

definition args_subst :: "level \<Rightarrow> ctoken list list \<Rightarrow> ctoken list \<Rightarrow> ctoken \<Rightarrow> ctoken list res" where
  "args_subst lv groups acc tok =
     (if tk_kind tok = BACKREF then
        (let group = digits_val 0 (drop 1 (tk_value tok)) in
         if group < length groups then
           Inr (acc @ map (\<lambda>t. t\<lparr>tk_level := add_level (tk_level t) lv\<rparr>) (groups ! group))
         else Inl IndexError)
      else Inr (acc @ [tok]))"

definition args_tokens :: "ctoken_args \<Rightarrow> ctoken list \<Rightarrow> ctoken list res" where
  "args_tokens ca ts = rbind (args_groups ca ts) (\<lambda>(lv, groups).
     fold_res (args_subst lv groups) [] (ca_tokens ca))"

section \<open>Matching macro calls\<close>

record cmatch =
  cm_regex :: regex
  cm_delim :: string

definition cmatch_init :: "string \<Rightarrow> string \<Rightarrow> cmatch" where
  "cmatch_init regex delim = \<lparr>cm_regex = re (''^'' @ regex @ rx ''~b''), cm_delim = delim\<rparr>"

abbreviation CMatch :: "string \<Rightarrow> cmatch" where
  "CMatch regex \<equiv> cmatch_init regex ''(''"

definition names :: "cmatch \<Rightarrow> ctoken \<Rightarrow> bool" where
  "names cm tok \<longleftrightarrow> tk_kind tok = NAME \<and> re_match (cm_regex cm) (tk_value tok) \<noteq> None"

text \<open>
  \<^verbatim>\<open>_search\<close>: the ranges it yields, from token \<open>i\<close> on. A match that starts at token 0 counts as no
  match when the tokens run out.
\<close>

fun search_loop :: "cmatch \<Rightarrow> nat \<Rightarrow> nat option \<Rightarrow> bool \<Rightarrow> (nat \<times> level) list \<Rightarrow> ctoken list \<Rightarrow>
    (nat \<times> nat) list res" where
  "search_loop cm i start started stack [] =
     Inr (case start of
        None \<Rightarrow> []
      | Some st \<Rightarrow> if st \<noteq> 0 \<and> stack \<noteq> [] then [(st, i)] else [])"
| "search_loop cm i start started stack (tok # ts) = (case start of
      None \<Rightarrow>
        if names cm tok then search_loop cm (i + 1) (Some i) False ((i, tk_level tok) # stack) ts
        else search_loop cm (i + 1) None started stack ts
    | Some st \<Rightarrow>
        if \<not> started \<and> tk_kind tok = SPACE then search_loop cm (i + 1) start started stack ts
        else if \<not> started \<and> tk_kind tok = BEGIN \<and> tk_value tok = cm_delim cm then
          search_loop cm (i + 1) start True stack ts
        else (let j = (if \<not> started \<and> st < i then i - 1 else i);
                  out = (if started then [] else [(st, j)]);
                  start' = (if started then start else None) in
          if tk_kind tok = END then
            (case stack of
               [] \<Rightarrow> Inl IndexError
             | (st0, lv) # stack' \<Rightarrow>
               if tk_level tok = lv then
                 rbind (search_loop cm (i + 1) None started stack' ts) (\<lambda>rs. Inr (out @ (st0, j) # rs))
               else rbind (search_loop cm (i + 1) start' started stack ts) (\<lambda>rs. Inr (out @ rs)))
          else rbind (search_loop cm (i + 1) start' started stack ts) (\<lambda>rs. Inr (out @ rs))))"

definition cmatch_ranges :: "cmatch \<Rightarrow> ctoken list \<Rightarrow> (nat \<times> nat) list res" where
  "cmatch_ranges cm ts = search_loop cm 0 None False [] ts"

text \<open>\<^verbatim>\<open>xs[a:b]\<close> for bounds that are not negative.\<close>

definition slice :: "nat \<Rightarrow> nat \<Rightarrow> 'a list \<Rightarrow> 'a list" where
  "slice a b xs = take (b - a) (drop a xs)"

text \<open>The source of a search or a substitution is a tokenizer or text; the result is of the same sort.\<close>

datatype ctext = Toks "ctoken list" | Text string

fun ctext_tokens :: "ctext \<Rightarrow> ctoken list" where
  "ctext_tokens (Toks ts) = ts"
| "ctext_tokens (Text s) = ctokenizer (Src_str s)"

fun ctext_like :: "ctext \<Rightarrow> ctoken list \<Rightarrow> ctext" where
  "ctext_like (Toks _) ts = Toks ts"
| "ctext_like (Text _) ts = Text (ctokenizer_str ts)"

definition cmatch_search :: "cmatch \<Rightarrow> ctext \<Rightarrow> ctext list res" where
  "cmatch_search cm source = rbind (cmatch_ranges cm (ctext_tokens source)) (\<lambda>rs.
     Inr (map (\<lambda>(start, end). ctext_like source (slice start (end + 1) (ctext_tokens source))) rs))"

fun sub_loop :: "ctoken_args \<Rightarrow> ctoken list \<Rightarrow> nat \<Rightarrow> nat \<Rightarrow> nat \<Rightarrow> (nat \<times> nat) list \<Rightarrow> ctoken list res" where
  "sub_loop ca ts count pos n [] = Inr (drop pos ts)"
| "sub_loop ca ts count pos n ((start, end) # rs) =
     rbind (args_tokens ca (slice start (end + 1) ts)) (\<lambda>new.
       if count \<noteq> 0 \<and> count \<le> n + 1 then Inr (slice pos start ts @ new @ drop (end + 1) ts)
       else rbind (sub_loop ca ts count (end + 1) (n + 1) rs) (\<lambda>out. Inr (slice pos start ts @ new @ out)))"

definition cmatch_sub :: "cmatch \<Rightarrow> string \<Rightarrow> ctext \<Rightarrow> nat \<Rightarrow> ctext res" where
  "cmatch_sub cm sub_str source count =
     (let ts = ctext_tokens source in
      rbind (ctoken_args_init sub_str) (\<lambda>ca.
      rbind (cmatch_ranges cm ts) (\<lambda>rs.
      rbind (sub_loop ca ts count 0 0 rs) (\<lambda>out.
      Inr (ctext_like source out)))))"

section \<open>Ranges\<close>

text \<open>
  What the loop knows: every start it remembers is an earlier token that matches the name; while a
  match is open, its start is on top of the stack, and the first opening token since then, if any,
  is the delimiter.
\<close>

definition open_ok :: "cmatch \<Rightarrow> ctoken list \<Rightarrow> nat \<Rightarrow> bool \<Rightarrow> nat \<Rightarrow> bool" where
  "open_ok cm toks st started i \<longleftrightarrow>
     (if started then \<exists>j. st < j \<and> j < i \<and> tk_kind (toks ! j) = BEGIN \<and> tk_value (toks ! j) = cm_delim cm \<and>
        (\<forall>m. st \<le> m \<and> m < j \<longrightarrow> tk_kind (toks ! m) \<noteq> BEGIN)
      else \<forall>m. st \<le> m \<and> m < i \<longrightarrow> tk_kind (toks ! m) \<noteq> BEGIN)"

definition search_inv :: "cmatch \<Rightarrow> ctoken list \<Rightarrow> nat \<Rightarrow> nat option \<Rightarrow> bool \<Rightarrow> (nat \<times> level) list \<Rightarrow> bool" where
  "search_inv cm toks i start started stack \<longleftrightarrow>
     (\<forall>(a, lv) \<in> set stack. a < i \<and> names cm (toks ! a)) \<and>
     (\<forall>st. start = Some st \<longrightarrow>
        st < i \<and> names cm (toks ! st) \<and> stack \<noteq> [] \<and> fst (hd stack) = st \<and> open_ok cm toks st started i)"

text \<open>A range that starts at a name and whose first opening token, if any, is the delimiter.\<close>

definition range_ok :: "cmatch \<Rightarrow> ctoken list \<Rightarrow> nat \<times> nat \<Rightarrow> bool" where
  "range_ok cm toks r \<longleftrightarrow> fst r \<le> snd r \<and> fst r < length toks \<and> snd r \<le> length toks \<and> names cm (toks ! fst r) \<and>
     (\<forall>j. fst r \<le> j \<and> j \<le> snd r \<and> j < length toks \<and> tk_kind (toks ! j) = BEGIN \<and>
        (\<forall>m. fst r \<le> m \<and> m < j \<longrightarrow> tk_kind (toks ! m) \<noteq> BEGIN) \<longrightarrow> tk_value (toks ! j) = cm_delim cm)"

lemma open_ok_step:
  "open_ok cm toks st True i \<Longrightarrow> open_ok cm toks st True (i + 1)"
  "open_ok cm toks st False i \<Longrightarrow> tk_kind (toks ! i) \<noteq> BEGIN \<Longrightarrow> open_ok cm toks st False (i + 1)"
  "open_ok cm toks st False i \<Longrightarrow> tk_kind (toks ! i) = BEGIN \<Longrightarrow> tk_value (toks ! i) = cm_delim cm \<Longrightarrow>
   st < i \<Longrightarrow> open_ok cm toks st True (i + 1)"
  by (auto simp: open_ok_def less_Suc_eq)

lemma open_ok_range:
  assumes "open_ok cm toks st started i" and "st < i" and "i \<le> length toks" and "names cm (toks ! st)"
  shows "started \<Longrightarrow> range_ok cm toks (st, i)"
    and "\<not> started \<Longrightarrow> range_ok cm toks (st, i - 1)"
    and "i = length toks \<Longrightarrow> range_ok cm toks (st, i)"
proof -
  have *: "range_ok cm toks (st, i)" if "started"
  proof -
    from assms(1) that obtain j where j: "st < j" "tk_kind (toks ! j) = BEGIN" "tk_value (toks ! j) = cm_delim cm"
      "\<forall>m. st \<le> m \<and> m < j \<longrightarrow> tk_kind (toks ! m) \<noteq> BEGIN" by (auto simp: open_ok_def)
    have "k = j" if "tk_kind (toks ! k) = BEGIN" "\<forall>m. st \<le> m \<and> m < k \<longrightarrow> tk_kind (toks ! m) \<noteq> BEGIN" "st \<le> k" for k
      using that j by (cases k j rule: linorder_cases) auto
    then show ?thesis using assms(2-4) j(3) by (auto simp: range_ok_def)
  qed
  then show "started \<Longrightarrow> range_ok cm toks (st, i)" .
  have r: "range_ok cm toks (st, k)" if "\<not> started" "st \<le> k" "k < i \<or> k = i \<and> i = length toks" for k
    using assms that by (auto simp: range_ok_def open_ok_def)
  show "\<not> started \<Longrightarrow> range_ok cm toks (st, i - 1)" by (rule r) (use assms(2) in auto)
  show "i = length toks \<Longrightarrow> range_ok cm toks (st, i)" using * r [of i] assms(2) by (cases started) auto
qed

lemma search_inv_None: "search_inv cm toks i start started stack \<Longrightarrow> search_inv cm toks (i + 1) None started' stack"
  by (fastforce simp: search_inv_def)

lemma search_inv_pop: "search_inv cm toks i start started (x # stack) \<Longrightarrow> search_inv cm toks (i + 1) None started' stack"
  by (fastforce simp: search_inv_def)

lemma search_inv_new: "search_inv cm toks i None started stack \<Longrightarrow> names cm (toks ! i) \<Longrightarrow>
    search_inv cm toks (i + 1) (Some i) False ((i, lv) # stack)"
  by (fastforce simp: search_inv_def open_ok_def names_def less_Suc_eq)

lemma search_inv_on:
  assumes "search_inv cm toks i (Some st) started stack" and "open_ok cm toks st started' (i + 1)"
  shows "search_inv cm toks (i + 1) (Some st) started' stack"
  using assms by (fastforce simp: search_inv_def)

lemma search_loop_ok:
  assumes "toks = pre @ ts" and "length pre = i" and "search_inv cm toks i start started stack"
  shows "\<exists>rs. search_loop cm i start started stack ts = Inr rs \<and> (\<forall>r \<in> set rs. range_ok cm toks r)"
  using assms
proof (induction ts arbitrary: pre i start started stack)
  case Nil
  show ?case
  proof (cases start)
    case (Some st)
    have "open_ok cm toks st started i" "st < i" "names cm (toks ! st)"
      using Nil.prems(3) Some by (simp_all add: search_inv_def)
    moreover have "i = length toks" using Nil.prems(1,2) by simp
    ultimately have "range_ok cm toks (st, i)" by (intro open_ok_range(3)) simp_all
    with Some show ?thesis by simp
  qed simp
next
  case (Cons tok ts)
  have pre: "toks = (pre @ [tok]) @ ts" "length (pre @ [tok]) = i + 1" and tok: "toks ! i = tok"
    and i: "i < length toks" using Cons.prems by auto
  note IH = Cons.IH [OF pre]
  show ?case
  proof (cases start)
    case None
    show ?thesis
    proof (cases "names cm tok")
      case True
      then have "search_inv cm toks (i + 1) (Some i) False ((i, tk_level tok) # stack)"
        using search_inv_new [of cm toks i started stack] Cons.prems(3) None tok by simp
      from IH [OF this] True None show ?thesis by simp
    next
      case False
      with IH [OF search_inv_None [OF Cons.prems(3)], of started] None show ?thesis by simp
    qed
  next
    case (Some st)
    note inv = Cons.prems(3) [unfolded Some]
    have st: "st < i" "names cm (toks ! st)" "stack \<noteq> []" "fst (hd stack) = st" "open_ok cm toks st started i"
      using inv by (auto simp: search_inv_def)
    obtain lv stack' where stack: "stack = (st, lv) # stack'" using st(3,4) by (cases stack) auto
    note rng = open_ok_range(1,2) [OF st(5,1) less_imp_le [OF i] st(2)]
    obtain r1 r3 where r: "search_loop cm (i + 1) None started stack' ts = Inr r1"
        "search_loop cm (i + 1) None started stack ts = Inr r3"
      and ok: "\<forall>r \<in> set r1. range_ok cm toks r" "\<forall>r \<in> set r3. range_ok cm toks r"
      using IH [OF search_inv_pop [OF inv [unfolded stack]], of started] IH [OF search_inv_None [OF inv], of started]
      by blast
    show ?thesis
    proof (cases started)
      case True
      have "open_ok cm toks st True (i + 1)" using open_ok_step(1) [of cm toks st i] st(5) True by simp
      from IH [OF search_inv_on [OF inv this]] obtain r2
        where "search_loop cm (i + 1) (Some st) True stack ts = Inr r2" "\<forall>r \<in> set r2. range_ok cm toks r" by blast
      moreover from this r Some stack True have "search_loop cm i start started stack (tok # ts) =
          Inr (if tk_kind tok = END \<and> tk_level tok = lv then (st, i) # r1 else r2)" by (simp add: Let_def)
      ultimately show ?thesis using ok rng(1) True by simp
    next
      case False
      consider "tk_kind tok = SPACE" | "tk_kind tok = BEGIN" "tk_value tok = cm_delim cm"
        | "tk_kind tok \<noteq> SPACE" "\<not> (tk_kind tok = BEGIN \<and> tk_value tok = cm_delim cm)" by blast
      then show ?thesis
      proof cases
        case 1
        then have "open_ok cm toks st False (i + 1)"
          using open_ok_step(2) [of cm toks st i] st(5) False tok by simp
        from IH [OF search_inv_on [OF inv this]] 1 False Some show ?thesis by simp
      next
        case 2
        then have "open_ok cm toks st True (i + 1)"
          using open_ok_step(3) [of cm toks st i] st(1,5) False tok by simp
        from IH [OF search_inv_on [OF inv this]] 2 False Some show ?thesis by simp
      next
        case 3
        with r Some stack False st(1) have "search_loop cm i start started stack (tok # ts) =
            Inr ((st, i - 1) # (if tk_kind tok = END \<and> tk_level tok = lv then (st, i - 1) # r1 else r3))"
          by (auto simp: Let_def)
        then show ?thesis using ok rng(2) False by simp
      qed
    qed
  qed
qed

lemma cmatch_ranges_total: "\<exists>rs. cmatch_ranges cm ts = Inr rs \<and> (\<forall>r \<in> set rs. range_ok cm ts r)"
  unfolding cmatch_ranges_def by (rule search_loop_ok [of _ "[]"]) (simp_all add: search_inv_def)

text \<open>
  C19. Searching never fails, and what it yields are ranges of the token list that start at a token
  the name pattern matches and whose first opening token, if there is one, is the delimiter.
\<close>

theorem cmatch_ranges_sound: "\<exists>rs. cmatch_ranges cm ts = Inr rs \<and> list_all (range_ok cm ts) rs"
  using cmatch_ranges_total [of cm ts] by (auto simp: list_all_iff)

section \<open>A well-bracketed call\<close>

fun le_level :: "level \<Rightarrow> level \<Rightarrow> bool" where
  "le_level (a, b, c) (x, y, z) \<longleftrightarrow> a \<le> x \<and> b \<le> y \<and> c \<le> z"

lemma le_level_refl [simp]: "le_level l l"
  by (cases l) simp

lemma le_level_trans: "le_level a b \<Longrightarrow> le_level b c \<Longrightarrow> le_level a c"
  by (cases a; cases b; cases c) simp

lemma opens_above: "opens b \<Longrightarrow> le_level lv (level_step lv (tk_kind b) (tk_value b))"
  by (cases lv) (simp add: opens_def level_step_def)

lemma opens_differs: "opens b \<Longrightarrow> \<not> le_level (level_step lv (tk_kind b) (tk_value b)) lv"
  by (cases lv) (simp add: opens_def level_step_def)

lemma balanced_above: "balanced ts \<Longrightarrow> leveled lv ts \<Longrightarrow> t \<in> set ts \<Longrightarrow> le_level lv (tk_level t)"
proof (induction ts arbitrary: lv rule: balanced.induct)
  case bal_Nil
  then show ?case by simp
next
  case (bal_other u ts)
  then have "tk_level u = lv" by (cases lv) (simp add: opens_def closes_def level_step_def)
  with bal_other.IH [of lv] bal_other.prems show ?case by (cases "t = u") simp_all
next
  case (bal_pair b e ts us)
  have o: "opens b" using bal_pair.hyps(1) by (simp add: pairs_def)
  from bal_pair.prems(1) have l: "tk_level b = level_step lv (tk_kind b) (tk_value b)"
    "leveled (tk_level b) ts" "leveled (end_level (tk_level b) ts) (e # us)"
    unfolding leveled.simps leveled_append by blast+
  have "tk_level e = lv"
    using l balanced_end_level [OF bal_pair.hyps(2) l(2)] pair_level [OF bal_pair.hyps(1)] by simp
  moreover have "le_level lv (tk_level b)" using opens_above [OF o] l(1) by simp
  ultimately show ?case
    using bal_pair.prems(2) l bal_pair.IH(1) [OF l(2)] bal_pair.IH(2) [of lv]
    by (auto intro: le_level_trans)
qed

lemma rbind_Inr_id [simp]: "rbind x Inr = x" "rbind x (\<lambda>v. Inr v) = x"
  by (cases x; simp)+

lemma search_skip: "\<forall>t \<in> set pre. \<not> names cm t \<Longrightarrow>
    search_loop cm i None started stack (pre @ ts) = search_loop cm (i + length pre) None started stack ts"
  by (induction pre arbitrary: i) auto

lemma search_spaces: "\<forall>t \<in> set sp. tk_kind t = SPACE \<Longrightarrow>
    search_loop cm i (Some st) False stack (sp @ ts) = search_loop cm (i + length sp) (Some st) False stack ts"
  by (induction sp arbitrary: i) auto

lemma search_body: "\<forall>t \<in> set body. tk_level t \<noteq> lv \<Longrightarrow>
    search_loop cm i (Some st) True ((st0, lv) # stack) (body @ ts) =
    search_loop cm (i + length body) (Some st) True ((st0, lv) # stack) ts"
  by (induction body arbitrary: i) (auto simp: Let_def)

text \<open>A macro call: its name, spaces, the opening delimiter, a well-bracketed body, the closing one.\<close>

definition macro_call :: "cmatch \<Rightarrow> ctoken list \<Rightarrow> bool" where
  "macro_call cm ts \<longleftrightarrow> (\<exists>nm sp b body e. ts = nm # sp @ b # body @ [e] \<and> names cm nm \<and>
     (\<forall>t \<in> set sp. tk_kind t = SPACE) \<and> tk_value b = cm_delim cm \<and> pairs b e \<and> balanced body)"

lemma search_call:
  assumes "macro_call cm call" and "leveled lv call"
  shows "search_loop cm i None started stack (call @ ts) =
    rbind (search_loop cm (i + length call) None True stack ts) (\<lambda>rs. Inr ((i, i + length call - 1) # rs))"
proof -
  from assms(1) obtain nm sp b body e where c: "call = nm # sp @ b # body @ [e]" "names cm nm"
    "\<forall>t \<in> set sp. tk_kind t = SPACE" "tk_value b = cm_delim cm" "pairs b e" "balanced body"
    unfolding macro_call_def by blast
  have o: "opens b" "closes e" using c(5) by (auto simp: pairs_def)
  have nm: "tk_level nm = lv" using assms(2) c(1,2) by (cases lv) (auto simp: names_def level_step_def)
  have l: "leveled lv (sp @ b # body @ [e])" using assms(2) c(1) nm by simp
  have "balanced sp" using c(3) by (induction sp) (auto intro!: balanced.intros simp: opens_def closes_def)
  then have sp: "end_level lv sp = lv" using balanced_end_level l leveled_append by blast
  with l have "leveled lv (b # body @ [e])" by (simp only: leveled_append)
  then have lb: "tk_level b = level_step lv (tk_kind b) (tk_value b)" "leveled (tk_level b) (body @ [e])"
    unfolding leveled.simps by blast+
  from lb(2) have lbody: "leveled (tk_level b) body" unfolding leveled_append by blast
  have le: "tk_level e = lv"
    using lb balanced_end_level [OF c(6) lbody] pair_level [OF c(5)] by (simp add: leveled_append)
  have inside: "\<forall>t \<in> set body. tk_level t \<noteq> lv"
    using balanced_above [OF c(6) lbody] opens_differs [OF o(1), of lv] lb(1) by auto
  have k: "tk_kind b = BEGIN" "tk_kind e = END" using o by (simp_all add: opens_def closes_def)
  have "search_loop cm i None started stack (call @ ts) =
      search_loop cm (i + 1 + length sp + 1 + length body) (Some i) True ((i, lv) # stack) (e # ts)"
    using c nm k by (simp add: search_spaces search_body [OF inside])
  also have "\<dots> = rbind (search_loop cm (i + length call) None True stack ts)
      (\<lambda>rs. Inr ((i, i + length call - 1) # rs))"
    using k le c(1) by (simp add: Let_def add.assoc)
  finally show ?thesis .
qed

lemma args_init_Nil: "ctoken_args_init [] =
    Inr \<lparr>ca_groups = [], ca_max = -1, ca_greedy = 0, ca_sub_str = [], ca_tokens = []\<rparr>"
  by code_simp

lemma macro_call_ne: "macro_call cm call \<Longrightarrow> call \<noteq> []"
  by (auto simp: macro_call_def)

lemma one_call_ranges:
  assumes "macro_call cm call" and "leveled lv (pre @ call @ post)"
    and "\<forall>t \<in> set pre \<union> set post. \<not> names cm t"
  shows "cmatch_ranges cm (pre @ call @ post) = Inr [(length pre, length pre + length call - 1)]"
proof -
  have "leveled (end_level lv pre) call" using assms(2) unfolding leveled_append by blast
  from search_call [OF assms(1) this, of "length pre" False "[]" post] show ?thesis
    using assms(3) search_skip [of post cm "length pre + length call" True "[]" "[]"]
    by (simp add: cmatch_ranges_def search_skip)
qed

text \<open>
  C20. Substituting the empty text for a macro removes exactly its call: from tokens that hold one
  well-bracketed call and otherwise no token the name pattern matches, what is before and after
  the call remains.
\<close>

theorem sub_removes_call:
  assumes "macro_call cm call" and "leveled lv (pre @ call @ post)"
    and "\<forall>t \<in> set pre \<union> set post. \<not> names cm t"
  shows "cmatch_sub cm [] (Toks (pre @ call @ post)) count = Inr (Toks (pre @ post))"
proof -
  have "length pre + length call - 1 + 1 = length pre + length call"
    using macro_call_ne [OF assms(1)] by (cases call) auto
  then show ?thesis
    using one_call_ranges [OF assms]
    by (simp add: cmatch_sub_def args_init_Nil args_tokens_def args_groups_def slice_def Let_def)
qed

lemma sub_no_match:
  assumes "ctoken_args_init sub_str = Inr ca" and "\<forall>t \<in> set ts. \<not> names cm t"
  shows "cmatch_sub cm sub_str (Toks ts) count = Inr (Toks ts)"
  using assms search_skip [OF assms(2), of 0 False "[]" "[]"]
  by (simp add: cmatch_sub_def cmatch_ranges_def)

section \<open>Arguments\<close>

text \<open>Arguments with their separators, and what is no separator.\<close>

fun sep_args :: "ctoken list list \<Rightarrow> ctoken list \<Rightarrow> ctoken list" where
  "sep_args [] ds = []"
| "sep_args [a] ds = a"
| "sep_args (a # as) (d # ds) = a @ d # sep_args as ds"
| "sep_args (a # as) [] = a"

definition is_delim :: "string \<Rightarrow> ctoken \<Rightarrow> bool" where
  "is_delim d t \<longleftrightarrow> (tk_kind t = PUNC \<or> tk_kind t = ENDSTMT) \<and> tk_value t = d"

definition simple_arg :: "string \<Rightarrow> ctoken list \<Rightarrow> bool" where
  "simple_arg d a \<longleftrightarrow> balanced a \<and> (\<forall>t \<in> set a. \<not> is_delim d t)"

lemma args_loop_arg:
  "balanced a \<Longrightarrow> \<forall>t \<in> set a. \<not> is_delim d t \<Longrightarrow> 0 \<le> inner \<Longrightarrow> pos < length gl \<Longrightarrow>
   args_loop ca (Some d) inner pos gl (a @ ts) = args_loop ca (Some d) inner pos (gl[pos := gl ! pos @ a]) ts"
proof (induction a arbitrary: inner gl ts rule: balanced.induct)
  case bal_Nil
  then show ?case by simp
next
  case (bal_other t us)
  have "args_loop ca (Some d) inner pos gl ((t # us) @ ts) =
      args_loop ca (Some d) inner pos (gl[pos := gl ! pos @ [t]]) (us @ ts)"
    using bal_other.hyps(1,2) bal_other.prems(1)
    by (auto simp: opens_def closes_def is_delim_def Let_def)
  also have "\<dots> = args_loop ca (Some d) inner pos (gl[pos := gl ! pos @ t # us]) ts"
    using bal_other by (subst bal_other.IH) auto
  finally show ?case .
next
  case (bal_pair b e us vs)
  have k: "tk_kind b = BEGIN" "tk_kind e = END"
    using bal_pair.hyps(1) by (auto simp: pairs_def opens_def closes_def)
  have "args_loop ca (Some d) inner pos gl ((b # us @ e # vs) @ ts) =
      args_loop ca (Some d) (inner + 1) pos (gl[pos := gl ! pos @ [b]]) (us @ e # vs @ ts)"
    using k by (simp add: Let_def)
  also have "\<dots> = args_loop ca (Some d) (inner + 1) pos (gl[pos := gl ! pos @ b # us]) (e # vs @ ts)"
    using bal_pair.prems by (subst bal_pair.IH(1)) auto
  also have "\<dots> = args_loop ca (Some d) inner pos (gl[pos := gl ! pos @ b # us @ [e]]) (vs @ ts)"
    using k bal_pair.prems by (simp add: Let_def)
  also have "\<dots> = args_loop ca (Some d) inner pos (gl[pos := gl ! pos @ b # us @ e # vs]) ts"
    using bal_pair.prems by (subst bal_pair.IH(2)) auto
  finally show ?case .
qed

lemma args_loop_args:
  assumes "args \<noteq> []" and "length ds + 1 = length args" and "\<forall>a \<in> set args. simple_arg d a"
    and "\<forall>t \<in> set ds. is_delim d t" and "tk_kind e = END"
    and "int (length gl) + int (length args) - 1 \<le> ca_max ca"
  shows "args_loop ca (Some d) 0 (length gl) (gl @ [[]]) (sep_args args ds @ e # rest) = gl @ args"
  using assms
proof (induction args ds arbitrary: gl rule: sep_args.induct)
  case (2 a ds)
  then show ?case
    using args_loop_arg [of a d 0 "length gl" "gl @ [[]]" ca "e # rest"]
    by (simp add: simple_arg_def Let_def)
next
  case (3 a a' as t ds)
  have t: "is_delim d t" using "3.prems"(4) by simp
  have "args_loop ca (Some d) 0 (length gl) (gl @ [[]]) (sep_args (a # a' # as) (t # ds) @ e # rest) =
      args_loop ca (Some d) 0 (length gl) (gl @ [a]) (t # sep_args (a' # as) ds @ e # rest)"
    using args_loop_arg [of a d 0 "length gl" "gl @ [[]]" ca "t # sep_args (a' # as) ds @ e # rest"] "3.prems"(3)
    by (simp add: simple_arg_def)
  also have "\<dots> = args_loop ca (Some d) 0 (length (gl @ [a])) ((gl @ [a]) @ [[]]) (sep_args (a' # as) ds @ e # rest)"
    using t "3.prems"(6) by (auto simp: is_delim_def Let_def)
  also have "\<dots> = (gl @ [a]) @ a' # as"
    by (rule "3.IH") (use "3.prems" in auto)
  finally show ?case by simp
qed auto



theorem sub_removes_call_witness:
  "let t = (\<lambda>k v l. \<lparr>tk_kind = k, tk_value = v, tk_pos = 0, tk_level = l\<rparr>);
       call = [t NAME ''M'' (0, 0, 0), t BEGIN ''('' (0, 1, 0), t NAME ''x'' (0, 1, 0), t END '')'' (0, 0, 0)] in
   cmatch_sub (CMatch ''M'') [] (Toks (t NAME ''a'' (0, 0, 0) # call @ [t NAME ''b'' (0, 0, 0)])) 0 =
     Inr (Toks [t NAME ''a'' (0, 0, 0), t NAME ''b'' (0, 0, 0)])"
proof -
  let ?t = "\<lambda>k v l. \<lparr>tk_kind = k, tk_value = v, tk_pos = 0, tk_level = l\<rparr>"
  let ?nm = "?t NAME ''M'' (0, 0, 0)" let ?b = "?t BEGIN ''('' (0, 1, 0)"
  let ?x = "?t NAME ''x'' (0, 1, 0)" let ?e = "?t END '')'' (0, 0, 0)"
  let ?a = "?t NAME ''a'' (0, 0, 0)" let ?z = "?t NAME ''b'' (0, 0, 0)"
  have n: "names (CMatch ''M'') ?nm" "\<not> names (CMatch ''M'') ?a" "\<not> names (CMatch ''M'') ?z" by code_simp+
  have "balanced [?x]" by (auto intro!: balanced.intros simp: opens_def closes_def)
  then have c: "macro_call (CMatch ''M'') [?nm, ?b, ?x, ?e]"
    unfolding macro_call_def using n(1)
    by (intro exI [of _ ?nm] exI [of _ "[]"] exI [of _ ?b] exI [of _ "[?x]"] exI [of _ ?e])
      (simp add: cmatch_init_def pairs_def opens_def closes_def)
  have l: "leveled (0, 0, 0) ([?a] @ [?nm, ?b, ?x, ?e] @ [?z])" by (simp add: level_step_def)
  from sub_removes_call [OF c l, of 0] n show ?thesis by (simp add: Let_def)
qed

text \<open>
  A comma inside a nested parenthesis ends an argument too: the second argument of
  \<open>M(a,f(b,c))\<close> is taken to be \<open>f(b\<close>.
\<close>

theorem nested_comma_splits:
  "cmatch_sub (CMatch ''M'') (rx (''~'' @ ''2'')) (Text ''M(a,f(b,c))'') 0 = Inr (Text ''f(b'')"
  by code_simp

text \<open>
  A back reference to a missing argument raises \<open>IndexError\<close>, and the square bracket, which the
  code means to report, raises \<open>AttributeError\<close>.
\<close>

theorem missing_argument_raises:
  "cmatch_sub (CMatch ''M'') (rx (''~'' @ ''2'')) (Text ''M(a)'') 0 = Inl IndexError \<and>
   cmatch_sub (cmatch_init ''M'' ''['') (rx (''~'' @ ''1'')) (Text ''M[a]'') 0 = Inl AttributeError"
  by (intro conjI; code_simp)

section \<open>What a substitution can raise\<close>

lemma range_slice_delim:
  assumes "range_ok cm ts (a, b)" and "dropWhile (\<lambda>t. tk_kind t \<noteq> BEGIN) (slice a (b + 1) ts) = x # xs"
  shows "tk_value x = cm_delim cm"
proof -
  let ?s = "slice a (b + 1) ts" let ?p = "takeWhile (\<lambda>t. tk_kind t \<noteq> BEGIN) ?s"
  have s: "?s = ?p @ x # xs" and x: "tk_kind x = BEGIN"
    using assms(2) by (simp_all add: dropWhile_eq_Cons_conv)
  have nth: "?s ! k = ts ! (a + k)" if "k < length ?s" for k
    using that by (auto simp: slice_def intro!: nth_drop)
  have len: "length ?s \<le> b + 1 - a" "a + length ?s \<le> length ts \<or> ?s = []" by (auto simp: slice_def)
  have lp: "length ?p < length ?s" by (subst s) simp
  have "ts ! (a + length ?p) = x"
    using nth [OF lp] by (subst (asm) s) (simp add: nth_append)
  moreover have "tk_kind (ts ! m) \<noteq> BEGIN" if "a \<le> m" "m < a + length ?p" for m
  proof -
    have k: "m - a < length ?p" using that by simp
    have "ts ! m = ?p ! (m - a)" using nth [of "m - a"] k lp that(1) by (simp add: takeWhile_nth)
    then show ?thesis using nth_mem [OF k] set_takeWhileD by (metis (mono_tags, lifting))
  qed
  moreover have "a + length ?p \<le> b" "a + length ?p < length ts" using lp len by (auto simp: slice_def)
  ultimately show ?thesis using assms(1) x by (auto simp: range_ok_def)
qed

lemma range_slice_ne: "range_ok cm ts (a, b) \<Longrightarrow> slice a (b + 1) ts \<noteq> []"
  by (auto simp: range_ok_def slice_def)

lemma fold_subst_err: "fold_res (args_subst lv gs) acc ts = Inl e \<Longrightarrow> e = IndexError"
  by (induction ts arbitrary: acc) (auto simp: rbind_Inl_iff args_subst_def Let_def split: if_splits)

lemma args_tokens_err:
  assumes "range_ok cm ts (a, b)" and "cm_delim cm = ''(''"
    and "args_tokens ca (slice a (b + 1) ts) = Inl e"
  shows "e = IndexError"
proof -
  have "args_groups ca (slice a (b + 1) ts) \<noteq> Inl e'" for e'
    using range_slice_delim [OF assms(1)] range_slice_ne [OF assms(1)] assms(2)
    by (auto simp: args_groups_def Let_def split: list.splits)
  then show ?thesis using assms(3) fold_subst_err by (auto simp: args_tokens_def rbind_Inl_iff)
qed

lemma sub_loop_err:
  assumes "list_all (range_ok cm ts) rs" and "cm_delim cm = ''(''" and "sub_loop ca ts count pos n rs = Inl e"
  shows "e = IndexError"
  using assms
proof (induction rs arbitrary: pos n)
  case Nil
  then show ?case by simp
next
  case (Cons r rs)
  obtain a b where r: "r = (a, b)" by (cases r)
  from Cons show ?case
    by (auto simp: r rbind_Inl_iff split: if_splits dest: args_tokens_err)
qed

lemma cmatch_sub_err:
  assumes "ctoken_args_init sub_str = Inr ca" and "cm_delim cm = ''(''" and "cmatch_sub cm sub_str source count = Inl e"
  shows "e = IndexError"
proof -
  obtain rs where "cmatch_ranges cm (ctext_tokens source) = Inr rs" "list_all (range_ok cm (ctext_tokens source)) rs"
    using cmatch_ranges_total [of cm "ctext_tokens source"] by (auto simp: list_all_iff)
  with assms sub_loop_err [of cm "ctext_tokens source" rs ca count 0 0 e] show ?thesis
    by (auto simp: cmatch_sub_def rbind_Inl_iff)
qed

end
