(* ===== verification/Xforms.thy ===== *)
theory Xforms
  imports C_Match
begin

text \<open>
  The transforms of \<^verbatim>\<open>xforms_lists.py\<close>: the three tables of macro names and patterns with their
  replacements, and \<^verbatim>\<open>CTransforms.apply\<close>.
\<close>

section \<open>The tables\<close>

datatype xsearch = X_match cmatch | X_re regex

definition struct_xforms :: "(xsearch \<times> string) list" where
  "struct_xforms =
     [(X_match (CMatch ''__attribute__''), []),
      (X_match (CMatch ''__aligned''), []),
      (X_match (CMatch ''__counted_by''), []),
      (X_match (CMatch ''__counted_by_(le|be)''), []),
      (X_match (CMatch ''__counted_by_ptr''), []),
      (X_match (CMatch ''__guarded_by''), []),
      (X_match (CMatch ''__pt_guarded_by''), []),
      (X_match (CMatch ''__packed''), []),
      (X_match (CMatch ''CRYPTO_MINALIGN_ATTR''), []),
      (X_match (CMatch ''__private''), []),
      (X_match (CMatch ''__rcu''), []),
      (X_match (CMatch ''____cacheline_aligned_in_smp''), []),
      (X_match (CMatch ''____cacheline_aligned''), []),
      (X_match (CMatch ''__cacheline_group_(?:begin|end)''), []),
      (X_match (CMatch ''__ETHTOOL_DECLARE_LINK_MODE_MASK''), rx ''DECLARE_BITMAP(~1, __ETHTOOL_LINK_MODE_MASK_NBITS)''),
      (X_match (CMatch ''DECLARE_PHY_INTERFACE_MASK''), rx ''DECLARE_BITMAP(~1, PHY_INTERFACE_MODE_MAX)''),
      (X_match (CMatch ''DECLARE_BITMAP''), rx ''unsigned long ~1[BITS_TO_LONGS(~2)]''),
      (X_match (CMatch ''DECLARE_HASHTABLE''), rx ''unsigned long ~1[1 << ((~2) - 1)]''),
      (X_match (CMatch ''DECLARE_KFIFO''), rx ''~2 *~1''),
      (X_match (CMatch ''DECLARE_KFIFO_PTR''), rx ''~2 *~1''),
      (X_match (CMatch ''(?:__)?DECLARE_FLEX_ARRAY''), rx ''~1 ~2[]''),
      (X_match (CMatch ''DEFINE_DMA_UNMAP_ADDR''), rx ''dma_addr_t ~1''),
      (X_match (CMatch ''DEFINE_DMA_UNMAP_LEN''), rx ''__u32 ~1''),
      (X_match (CMatch ''VIRTIO_DECLARE_FEATURES''), rx ''union { u64 ~1; u64 ~1_array[VIRTIO_FEATURES_U64S]; }''),
      (X_match (CMatch ''__SYSFS_FUNCTION_ALTERNATIVE''), rx ''union { ~1+ }''),
      (X_match (CMatch ''__attribute__''), []),
      (X_match (CMatch ''struct_group''), rx ''struct { ~2+ };''),
      (X_match (CMatch ''struct_group_attr''), rx ''struct { ~3+ };''),
      (X_match (CMatch ''struct_group_tagged''), rx ''struct { ~3+ };''),
      (X_match (CMatch ''__struct_group''), rx ''struct { ~4+ };'')]"

definition function_xforms :: "(xsearch \<times> string) list" where
  "function_xforms =
     [(X_match (CMatch ''static''), []),
      (X_match (CMatch ''extern''), []),
      (X_match (CMatch ''asmlinkage''), []),
      (X_match (CMatch ''inline''), []),
      (X_match (CMatch ''__inline__''), []),
      (X_match (CMatch ''__inline''), []),
      (X_match (CMatch ''__always_inline''), []),
      (X_match (CMatch ''noinline''), []),
      (X_match (CMatch ''__FORTIFY_INLINE''), []),
      (X_match (CMatch ''__init''), []),
      (X_match (CMatch ''__init_or_module''), []),
      (X_match (CMatch ''__exit''), []),
      (X_match (CMatch ''__deprecated''), []),
      (X_match (CMatch ''__flatten''), []),
      (X_match (CMatch ''__meminit''), []),
      (X_match (CMatch ''__must_check''), []),
      (X_match (CMatch ''__weak''), []),
      (X_match (CMatch ''__sched''), []),
      (X_match (CMatch ''__always_unused''), []),
      (X_match (CMatch ''__maybe_unused''), []),
      (X_match (CMatch ''__printf''), []),
      (X_match (CMatch ''__(?:re)?alloc_size''), []),
      (X_match (CMatch ''__diagnose_as''), []),
      (X_match (CMatch ''DECL_BUCKET_PARAMS''), rx ''~1, ~2''),
      (X_match (CMatch ''__cond_acquires''), []),
      (X_match (CMatch ''__cond_releases''), []),
      (X_match (CMatch ''__acquires''), []),
      (X_match (CMatch ''__releases''), []),
      (X_match (CMatch ''__must_hold''), []),
      (X_match (CMatch ''__must_not_hold''), []),
      (X_match (CMatch ''__must_hold_shared''), []),
      (X_match (CMatch ''__cond_acquires_shared''), []),
      (X_match (CMatch ''__acquires_shared''), []),
      (X_match (CMatch ''__releases_shared''), []),
      (X_match (CMatch ''__no_context_analysis''), []),
      (X_match (CMatch ''__attribute_const__''), []),
      (X_match (CMatch ''__attribute__''), []),
      (X_match (CMatch ''STATIC_IFN_KUNIT''), []),
      (X_match (CMatch ''INLINE_IFN_KUNIT''), []),
      (X_re (re (''_noprof'')), [])]"

definition var_xforms :: "(xsearch \<times> string) list" where
  "var_xforms =
     [(X_match (CMatch ''__read_mostly''), []),
      (X_match (CMatch ''__ro_after_init''), []),
      (X_match (CMatch ''__guarded_by''), []),
      (X_match (CMatch ''__pt_guarded_by''), []),
      (X_match (CMatch ''LIST_HEAD''), rx ''struct list_head ~1''),
      (X_match (CMatch ''DECLARE_PER_CPU''), rx ''~1 ~2[PER_CPU]; }''),
      (X_re (re (''(?://.*)$'')), []),
      (X_re (re (rx ''(?:/~*.*~*/)'')), []),
      (X_re (re ('';$'')), [])]"

definition xforms :: "(string \<times> (xsearch \<times> string) list) list" where
  "xforms = [(''struct'', struct_xforms), (''func'', function_xforms), (''var'', var_xforms)]"

section \<open>Applying a table\<close>

fun ctext_str :: "ctext \<Rightarrow> string" where
  "ctext_str (Toks ts) = ctokenizer_str ts"
| "ctext_str (Text s) = s"

text \<open>A pattern works on text only, so the tokens are printed before the first one.\<close>

fun apply_step :: "ctext \<Rightarrow> xsearch \<times> string \<Rightarrow> ctext res" where
  "apply_step source (X_re r, subst) = Inr (Text (re_sub r subst (ctext_str source)))"
| "apply_step source (X_match cm, subst) = cmatch_sub cm subst source 0"

definition ctrans_apply :: "string \<Rightarrow> ctext \<Rightarrow> ctext res" where
  "ctrans_apply xforms_type source = (case map_of xforms xforms_type of
      None \<Rightarrow> Inr source
    | Some xs \<Rightarrow>
      rbind (fold_res apply_step (Toks (ctext_tokens source)) xs) (\<lambda>out. Inr (Text (ctext_str out))))"

section \<open>What the tables promise\<close>

text \<open>Every replacement of the tables is a well-formed template, and every macro opens with a parenthesis.\<close>

fun xform_ok :: "xsearch \<times> string \<Rightarrow> bool" where
  "xform_ok (X_re r, subst) = True"
| "xform_ok (X_match cm, subst) = (\<not> isl (ctoken_args_init subst) \<and> cm_delim cm = ''('')"

text \<open>The check of a template without its tokens.\<close>

definition template_ok :: "string \<Rightarrow> bool" where
  "template_ok s = (case fold_res args_step ([], -1, 0) (re_finditer RE_BACKREF s) of
      Inl e \<Rightarrow> False | Inr (gs, mx, greedy) \<Rightarrow> greedy = 0 \<or> int greedy = mx)"

lemma template_ok_init: "template_ok s \<Longrightarrow> \<not> isl (ctoken_args_init s)"
  by (auto simp: template_ok_def ctoken_args_init_def Let_def split: sum.splits prod.splits)

definition templates :: "string list" where
  "templates = [[], rx ''DECLARE_BITMAP(~1, __ETHTOOL_LINK_MODE_MASK_NBITS)'',
     rx ''DECLARE_BITMAP(~1, PHY_INTERFACE_MODE_MAX)'', rx ''unsigned long ~1[BITS_TO_LONGS(~2)]'',
     rx ''unsigned long ~1[1 << ((~2) - 1)]'', rx ''~2 *~1'', rx ''~1 ~2[]'', rx ''dma_addr_t ~1'',
     rx ''__u32 ~1'', rx ''union { u64 ~1; u64 ~1_array[VIRTIO_FEATURES_U64S]; }'', rx ''union { ~1+ }'',
     rx ''struct { ~2+ };'', rx ''struct { ~3+ };'', rx ''struct { ~4+ };'', rx ''~1, ~2'',
     rx ''struct list_head ~1'', rx ''~1 ~2[PER_CPU]; }'']"

lemma templates_ok: "list_all template_ok templates"
  by code_simp

lemma xforms_templates:
  "list_all (\<lambda>(x, s). s \<in> set templates \<and> (case x of X_re r \<Rightarrow> True | X_match cm \<Rightarrow> cm_delim cm = ''(''))
     (struct_xforms @ function_xforms @ var_xforms)"
  by (simp add: struct_xforms_def function_xforms_def var_xforms_def cmatch_init_def templates_def)

lemma xforms_ok: "list_all xform_ok (struct_xforms @ function_xforms @ var_xforms)"
  unfolding list_all_iff
proof
  fix y assume y: "y \<in> set (struct_xforms @ function_xforms @ var_xforms)"
  obtain x s where [simp]: "y = (x, s)" by (cases y)
  have x: "s \<in> set templates" "case x of X_re r \<Rightarrow> True | X_match cm \<Rightarrow> cm_delim cm = ''(''"
    using bspec [OF xforms_templates [unfolded list_all_iff] y] by simp_all
  have "\<not> isl (ctoken_args_init s)"
    using x(1) templates_ok template_ok_init by (simp add: list_all_iff)
  with x(2) show "xform_ok y" by (cases x) simp_all
qed

lemma apply_step_err: "xform_ok x \<Longrightarrow> apply_step source x = Inl e \<Longrightarrow> e = IndexError"
proof (induction source x rule: apply_step.induct)
  case (2 source cm subst)
  then obtain ca where "ctoken_args_init subst = Inr ca" by (cases "ctoken_args_init subst") auto
  with 2 cmatch_sub_err show ?case by auto
qed simp

lemma fold_apply_err: "list_all xform_ok xs \<Longrightarrow> fold_res apply_step source xs = Inl e \<Longrightarrow> e = IndexError"
  by (induction xs arbitrary: source) (auto simp: rbind_Inl_iff dest: apply_step_err)

lemma ctrans_apply_err: "ctrans_apply ty source = Inl e \<Longrightarrow> e = IndexError"
  using xforms_ok fold_apply_err
  by (auto simp: ctrans_apply_def xforms_def rbind_Inl_iff split: if_splits)

text \<open>
  C22. Applying a table of transforms either returns or raises \<open>IndexError\<close>, the error of a macro call
  with too few arguments: no template is malformed, and no other error of the matcher is reachable.
\<close>

theorem ctrans_apply_errors:
  "(\<exists>out. ctrans_apply ty source = Inr out) \<or> ctrans_apply ty source = Inl IndexError"
  using ctrans_apply_err [of ty source] by (cases "ctrans_apply ty source") auto

lemma fold_apply_idle:
  assumes "list_all xform_ok xs" and "\<forall>(x, s) \<in> set xs. \<exists>cm. x = X_match cm \<and> (\<forall>t \<in> set ts. \<not> names cm t)"
  shows "fold_res apply_step (Toks ts) xs = Inr (Toks ts)"
  using assms
proof (induction xs)
  case Nil
  show ?case by simp
next
  case (Cons y xs)
  obtain cm s where y: "y = (X_match cm, s)" "\<forall>t \<in> set ts. \<not> names cm t" using Cons.prems(2) by auto
  with Cons.prems(1) obtain ca where "ctoken_args_init s = Inr ca" by (cases "ctoken_args_init s") auto
  from sub_no_match [OF this y(2), of 0] y(1) Cons show ?case by simp
qed

text \<open>
  A structure body that uses none of the macros comes out as its printed tokens: all the
  transforms do to it is drop its comments and its private members.
\<close>

theorem struct_apply_idle:
  assumes "\<forall>(x, s) \<in> set struct_xforms. \<forall>cm. x = X_match cm \<longrightarrow> (\<forall>t \<in> set (ctokenizer (Src_str src)). \<not> names cm t)"
  shows "ctrans_apply ''struct'' (Text src) = Inr (Text (ctokenizer_str (ctokenizer (Src_str src))))"
proof -
  have "\<forall>(x, s) \<in> set struct_xforms. \<exists>cm. x = X_match cm" by (simp add: struct_xforms_def)
  then have "\<forall>(x, s) \<in> set struct_xforms. \<exists>cm. x = X_match cm \<and> (\<forall>t \<in> set (ctokenizer (Src_str src)). \<not> names cm t)"
    using assms by fast
  moreover have "list_all xform_ok struct_xforms" using xforms_ok by simp
  ultimately show ?thesis
    using fold_apply_idle [of struct_xforms "ctokenizer (Src_str src)"] by (simp add: ctrans_apply_def xforms_def)
qed

theorem struct_apply_idle_witness:
  "ctrans_apply ''struct'' (Text ''int a;/* b */'') = Inr (Text ''int a;'')"
proof -
  let ?ts = "ctokenizer (Src_str ''int a;/* b */'')"
  have n: "tk_value t \<in> {''int'', ''a''}" if "t \<in> set ?ts" "tk_kind t = NAME" for t
  proof -
    have "list_all (\<lambda>t. tk_kind t = NAME \<longrightarrow> tk_value t = ''int'' \<or> tk_value t = ''a'') ?ts" by code_simp
    with that show ?thesis by (auto simp: list_all_iff)
  qed
  have "list_all (\<lambda>(x, s). case x of X_re r \<Rightarrow> True | X_match cm \<Rightarrow>
      re_match (cm_regex cm) ''int'' = None \<and> re_match (cm_regex cm) ''a'' = None) struct_xforms"
    by code_simp
  then have "\<forall>(x, s) \<in> set struct_xforms. \<forall>cm. x = X_match cm \<longrightarrow> (\<forall>t \<in> set ?ts. \<not> names cm t)"
    using n by (fastforce simp: list_all_iff names_def)
  moreover have "ctokenizer_str ?ts = ''int a;''" by code_simp
  ultimately show ?thesis using struct_apply_idle [of "''int a;/* b */''"] by simp
qed

end
