(* ===== verification/Kernel_Entry.thy ===== *)
theory Kernel_Entry
  imports Xforms
begin

text \<open>
  The data the parser builds: \<^verbatim>\<open>KdocItem\<close> of \<^verbatim>\<open>kdoc_item.py\<close>, \<^verbatim>\<open>KernelEntry\<close> of
  \<^verbatim>\<open>kdoc_parser.py\<close> with its section handling, and the patterns that recognise the lines of a
  kernel-doc comment. An attribute that \<^verbatim>\<open>KernelEntry.__init__\<close> does not set is an option, and
  reading it before it is assigned raises \<open>AttributeError\<close>.
\<close>

section \<open>Items\<close>

datatype pyval =
    V_none | V_str string | V_bool bool | V_int int | V_list "string list"
  | V_dict "(string, string) dict" | V_lines "(string, int) dict"

record kdoc_item =
  it_name :: string
  it_fname :: string
  it_type :: string
  it_start_line :: int
  it_sections :: "(string, string) dict"
  it_sections_lines :: "(string, int) dict"
  it_parameterlist :: "string list"
  it_paramdesc_lines :: "(string, int) dict"
  it_parameterdescs :: "(string, string) dict"
  it_parametertypes :: "(string, string) dict"
  it_warnings :: "string list"
  it_other :: "(string, pyval) dict"

text \<open>A known key sets its attribute; each carries a value of that attribute's type.\<close>

definition known_keys :: "string list" where
  "known_keys = [''declaration_start_line'', ''sections'', ''sections_start_lines'', ''parameterlist'',
     ''parameterdesc_start_lines'', ''parameterdescs'', ''parametertypes'', ''warnings'']"

definition item_setattr :: "kdoc_item \<Rightarrow> string \<Rightarrow> pyval \<Rightarrow> kdoc_item" where
  "item_setattr it k v =
     (if k = ''declaration_start_line'' then (case v of V_int n \<Rightarrow> it\<lparr>it_start_line := n\<rparr> | _ \<Rightarrow> it)
      else if k = ''sections'' then (case v of V_dict d \<Rightarrow> it\<lparr>it_sections := d\<rparr> | _ \<Rightarrow> it)
      else if k = ''sections_start_lines'' then (case v of V_lines d \<Rightarrow> it\<lparr>it_sections_lines := d\<rparr> | _ \<Rightarrow> it)
      else if k = ''parameterlist'' then (case v of V_list l \<Rightarrow> it\<lparr>it_parameterlist := l\<rparr> | _ \<Rightarrow> it)
      else if k = ''parameterdesc_start_lines'' then (case v of V_lines d \<Rightarrow> it\<lparr>it_paramdesc_lines := d\<rparr> | _ \<Rightarrow> it)
      else if k = ''parameterdescs'' then (case v of V_dict d \<Rightarrow> it\<lparr>it_parameterdescs := d\<rparr> | _ \<Rightarrow> it)
      else if k = ''parametertypes'' then (case v of V_dict d \<Rightarrow> it\<lparr>it_parametertypes := d\<rparr> | _ \<Rightarrow> it)
      else if k = ''warnings'' then (case v of V_list l \<Rightarrow> it\<lparr>it_warnings := l\<rparr> | _ \<Rightarrow> it)
      else it)"

definition item_set :: "kdoc_item \<Rightarrow> string \<times> pyval \<Rightarrow> kdoc_item" where
  "item_set it kv = (case kv of (k, v) \<Rightarrow>
     if k \<in> set known_keys then item_setattr it k v
     else it\<lparr>it_other := dict_set (it_other it) k v\<rparr>)"

lemma item_setattr_frame [simp]:
  "it_name (item_setattr it k v) = it_name it"
  "it_type (item_setattr it k v) = it_type it"
  "it_other (item_setattr it k v) = it_other it"
  by (simp_all add: item_setattr_def split: pyval.splits)

lemma item_set_frame [simp]:
  "it_name (item_set it kv) = it_name it"
  "it_type (item_set it kv) = it_type it"
  by (simp_all add: item_set_def split: prod.splits)

lemma item_set_other: "it_other (item_set it (k, v)) = (if k \<in> set known_keys then it_other it else dict_set (it_other it) k v)"
  by (simp add: item_set_def)

definition kdoc_item_init :: "string \<Rightarrow> string \<Rightarrow> string \<Rightarrow> int \<Rightarrow> (string \<times> pyval) list \<Rightarrow> kdoc_item" where
  "kdoc_item_init name fname ty start_line other_stuff =
     foldl item_set
       \<lparr>it_name = name, it_fname = fname, it_type = ty, it_start_line = start_line, it_sections = [],
        it_sections_lines = [], it_parameterlist = [], it_paramdesc_lines = [], it_parameterdescs = [],
        it_parametertypes = [], it_warnings = [], it_other = []\<rparr> other_stuff"

definition item_get :: "kdoc_item \<Rightarrow> string \<Rightarrow> pyval \<Rightarrow> pyval" where
  "item_get it key dflt = (case dict_get (it_other it) key of None \<Rightarrow> dflt | Some v \<Rightarrow> v)"

definition set_sections :: "kdoc_item \<Rightarrow> (string, string) dict \<Rightarrow> (string, int) dict \<Rightarrow> kdoc_item" where
  "set_sections it sections start_lines = it\<lparr>it_sections := sections, it_sections_lines := start_lines\<rparr>"

definition set_params :: "kdoc_item \<Rightarrow> string list \<Rightarrow> (string, string) dict \<Rightarrow> (string, string) dict \<Rightarrow>
    (string, int) dict \<Rightarrow> kdoc_item" where
  "set_params it nms descs types starts =
     it\<lparr>it_parameterlist := nms, it_parameterdescs := descs, it_parametertypes := types, it_paramdesc_lines := starts\<rparr>"

section \<open>Patterns\<close>

definition doc_start :: regex where "doc_start = re (rx ''^/~*~*~s*$'')"
definition doc_end :: regex where "doc_end = re (rx ''~*/'')"

definition doc_com_s :: string where "doc_com_s = rx ''~s*~*~s*''"
definition doc_com_body_s :: string where "doc_com_body_s = rx ''~s*~* ?''"
definition known_section_names :: string where
  "known_section_names = ''description|context|returns?|notes?|examples?''"

definition doc_decl :: regex where "doc_decl = re (doc_com_s @ rx ''(~w+)'')"
definition known_sections :: regex where "known_sections = prog known_section_names flag_I"
definition doc_sect :: regex where
  "doc_sect = prog (doc_com_s @ rx ''~s*(@[.~w]+|@~.~.~.|'' @ known_section_names @ rx '')~s*:([^:].*)?$'') flag_I"
definition doc_content :: regex where "doc_content = re (doc_com_body_s @ ''(.*)'')"
definition doc_inline_start :: regex where "doc_inline_start = re (rx ''^~s*/~*~*~s*$'')"
definition doc_inline_sect :: regex where "doc_inline_sect = re (rx ''~s*~*~s*(@~s*[~w][~w~.]*~s*):(.*)'')"
definition doc_inline_end :: regex where "doc_inline_end = re (rx ''^~s*~*/~s*$'')"
definition doc_inline_oneline :: regex where
  "doc_inline_oneline = re (rx ''^~s*/~*~*~s*(@~s*[~w][~w~.]*~s*):~s*(.*)~s*~*/~s*$'')"
definition export_symbol :: regex where
  "export_symbol = re (rx ''^~s*EXPORT_SYMBOL(_GPL)?~s*~(~s*(~w+)~s*~)~s*'')"
definition export_symbol_ns :: regex where
  "export_symbol_ns = re (rx ''^~s*EXPORT_SYMBOL_NS(_GPL)?~s*~(~s*(~w+)~s*,~s*\"~S+\"~)~s*'')"
definition type_param :: regex where "type_param = re (rx ''@(~w*((~.~w+)|(->~w+))*(~.~.~.)?)'')"
definition doc_block :: regex where "doc_block = re (doc_com_s @ rx ''DOC:~s*(.*)?'')"
definition doc_begin_data :: regex where
  "doc_begin_data = re (rx ''^~s*~*?~s*(struct|union|enum|typedef|var)~b~s*(~w*)'')"
definition doc_begin_func :: regex where
  "doc_begin_func = re (doc_com_s @ rx ''(?:~w+~s*~*~s*)?'' @ rx ''(?:define~s+)?'' @
     rx ''(~w+)~s*(?:~(~w*~))?~s*'' @ ''(?:[-:].*)?$'')"
definition multi_space :: regex where "multi_space = re (rx ''~s~s+'')"

definition trim_whitespace :: "string \<Rightarrow> string" where
  "trim_whitespace s = re_sub multi_space '' '' (strip s)"

definition trim_private_members :: "string \<Rightarrow> string" where
  "trim_private_members text = ctokenizer_str (ctokenizer (Src_str text))"

section \<open>Entries\<close>

definition SECTION_DEFAULT :: string where
  "SECTION_DEFAULT = ''Description''"

record entry =
  e_fname :: string
  e_contents :: "string list"
  e_prototype :: string
  e_warnings :: "string list"
  e_parameterlist :: "string list"
  e_parameterdescs :: "(string, string) dict"
  e_parametertypes :: "(string, string) dict"
  e_paramdesc_lines :: "(string, int) dict"
  e_sections_lines :: "(string, int) dict"
  e_sections :: "(string, string) dict"
  e_anon :: bool
  e_leading_space :: "nat option"
  e_brcount :: int
  e_start_line :: nat
  e_identifier :: "string option"
  e_decl_type :: "string option"
  e_section :: "string option"
  e_purpose :: "string option"
  e_new_start_line :: "nat option"

definition entry_init :: "string \<Rightarrow> nat \<Rightarrow> entry" where
  "entry_init fname ln =
     \<lparr>e_fname = fname, e_contents = [], e_prototype = [], e_warnings = [], e_parameterlist = [],
      e_parameterdescs = [], e_parametertypes = [], e_paramdesc_lines = [], e_sections_lines = [],
      e_sections = [], e_anon = False, e_leading_space = None, e_brcount = 0, e_start_line = ln + 1,
      e_identifier = None, e_decl_type = None, e_section = None, e_purpose = None,
      e_new_start_line = None\<rparr>"

definition add_text :: "string \<Rightarrow> entry \<Rightarrow> entry" where
  "add_text text e = e\<lparr>e_contents := e_contents e @ [text]\<rparr>"

definition entry_contents :: "entry \<Rightarrow> string" where
  "entry_contents e = join [NL] (e_contents e) @ [NL]"

definition log_line :: "string \<Rightarrow> nat \<Rightarrow> string \<Rightarrow> string" where
  "log_line fname ln msg = fname @ '':'' @ str_nat ln @ '' '' @ msg"

text \<open>\<^verbatim>\<open>emit_msg\<close> for a warning: it is kept with the entry.\<close>

definition entry_warn :: "nat \<Rightarrow> string \<Rightarrow> entry \<Rightarrow> entry" where
  "entry_warn ln msg e = e\<lparr>e_warnings := e_warnings e @ [log_line (e_fname e) ln msg]\<rparr>"

definition close_section :: "bool \<Rightarrow> entry \<Rightarrow> entry" where
  "close_section start_new e = (if start_new then e\<lparr>e_section := Some SECTION_DEFAULT, e_contents := []\<rparr> else e)"

definition dump_section :: "bool \<Rightarrow> entry \<Rightarrow> entry res" where
  "dump_section start_new e = rbind (attr (e_section e)) (\<lambda>name.
     if name = SECTION_DEFAULT \<and> e_contents e = [] then Inr e
     else (let contents = entry_contents e in
       case re_match type_param name of
         Some m \<Rightarrow>
           rbind (attr (e_new_start_line e)) (\<lambda>l. let param = m_str m 1 in
             Inr (close_section start_new
               (e\<lparr>e_parameterdescs := dict_set (e_parameterdescs e) param contents,
                  e_paramdesc_lines := dict_set (e_paramdesc_lines e) param (int l),
                  e_new_start_line := Some 0\<rparr>)))
       | None \<Rightarrow>
         (case dict_get (e_sections e) name of
            Some (c # old) \<Rightarrow>
              rbind (if name \<noteq> SECTION_DEFAULT
                     then rbind (attr (e_new_start_line e)) (\<lambda>l.
                       Inr (entry_warn l (''duplicate section name '' @ [CHR 0x27] @ name @ [CHR 0x27]) e))
                     else Inr e) (\<lambda>e1.
                Inr (close_section start_new
                  (e1\<lparr>e_sections := dict_set (e_sections e1) name ((c # old) @ [NL] @ contents)\<rparr>)))
          | _ \<Rightarrow>
              rbind (attr (e_new_start_line e)) (\<lambda>l.
                Inr (close_section start_new
                  (e\<lparr>e_sections := dict_set (e_sections e) name contents,
                     e_sections_lines := dict_set (e_sections_lines e) name (int l),
                     e_new_start_line := Some 0\<rparr>))))))"

definition begin_section :: "nat \<Rightarrow> string \<Rightarrow> bool \<Rightarrow> entry \<Rightarrow> entry res" where
  "begin_section line_no title dump e = rbind (if dump then dump_section True e else Inr e) (\<lambda>e1.
     Inr (e1\<lparr>e_section := Some title, e_new_start_line := Some line_no\<rparr>))"

end
