(* ===== verification/Kdoc_Params.thy ===== *)
theory Kdoc_Params
  imports Kernel_Entry
begin

text \<open>
  Parameters and members: \<^verbatim>\<open>push_parameter\<close>, \<^verbatim>\<open>create_parameter_list\<close>, \<^verbatim>\<open>check_sections\<close> and
  \<^verbatim>\<open>check_return_section\<close> of \<^verbatim>\<open>kdoc_parser.py\<close>. They work on the current entry; while there is
  one, the parser's messages go to it.
\<close>

section \<open>Storing one parameter\<close>

definition undescribed :: string where
  "undescribed = ''-- undescribed --''"

definition quoted :: "string \<Rightarrow> string" where
  "quoted s = [CHR 0x27] @ s @ [CHR 0x27]"

text \<open>\<^verbatim>\<open>not d.get(k)\<close>: absent or empty.\<close>

definition falsy_at :: "(string, string) dict \<Rightarrow> string \<Rightarrow> bool" where
  "falsy_at d k = (case dict_get d k of None \<Rightarrow> True | Some v \<Rightarrow> v = [])"

definition RE_PARAM_TAIL :: regex where "RE_PARAM_TAIL = re (rx ''[~[~)].*'')"

definition describe :: "string \<Rightarrow> string \<Rightarrow> entry \<Rightarrow> entry" where
  "describe param text e = e\<lparr>e_parameterdescs := dict_set (e_parameterdescs e) param text\<rparr>"

text \<open>The description of \<^verbatim>\<open>name...\<close> moves to \<^verbatim>\<open>name\<close>, unless that has one.\<close>

definition migrate_variadic :: "string \<Rightarrow> entry \<Rightarrow> string \<times> entry" where
  "migrate_variadic param e =
     (let orig = dict_get (e_parameterdescs e) param;
          e1 = e\<lparr>e_parameterdescs := dict_del (e_parameterdescs e) param\<rparr>;
          param1 = take (length param - 3) param in
      (param1, case orig of
         Some text \<Rightarrow> if falsy_at (e_parameterdescs e1) param1 then describe param1 text e1 else e1
       | None \<Rightarrow> e1))"

definition push_variadic :: "nat \<Rightarrow> string \<Rightarrow> string \<Rightarrow> string \<Rightarrow> entry \<Rightarrow> string \<times> entry" where
  "push_variadic ln decl_type param declaration_name e =
     (let named = (3 < length param);
          pe = (if named then migrate_variadic param e else (param, e)) in
      (fst pe,
       if falsy_at (e_parameterdescs (snd pe)) (fst pe) then
         describe (fst pe) ''variable arguments''
           (if named \<and> decl_type = ''function''
            then entry_warn ln (''function parameter '' @ quoted (fst pe) @ '' not described in '' @
                   quoted declaration_name) (snd pe)
            else snd pe)
       else snd pe))"

definition push_typeless :: "nat \<Rightarrow> string \<Rightarrow> string \<Rightarrow> string \<Rightarrow> entry \<Rightarrow> string \<times> entry" where
  "push_typeless ln decl_type param declaration_name e =
     (if endswith param ''...'' then push_variadic ln decl_type param declaration_name e
      else if param = [] \<or> param = ''void'' then (''void'', describe ''void'' ''no arguments'' e)
      else if param = ''struct'' \<or> param = ''union'' then
        (''{unnamed_'' @ param @ ''}'',
         (describe (''{unnamed_'' @ param @ ''}'') (''anonymous'' @ [NL]) e)\<lparr>e_anon := True\<rparr>)
      else (param, e))"

definition decl_noun :: "string \<Rightarrow> string" where
  "decl_noun decl_type = (if decl_type = ''function'' then decl_type @ '' parameter'' else decl_type @ '' member'')"

definition push_undescribed :: "nat \<Rightarrow> string \<Rightarrow> string \<Rightarrow> string \<Rightarrow> entry \<Rightarrow> entry" where
  "push_undescribed ln decl_type param declaration_name e =
     (if \<not> dict_has (e_parameterdescs e) param \<and> \<not> startswith param ''#'' then
        (let e1 = describe param undescribed e in
         if CHR ''.'' \<notin> set param then
           entry_warn ln (decl_noun decl_type @ '' '' @ quoted param @ '' not described in '' @ quoted declaration_name) e1
         else e1)
      else e)"

definition push_parameter ::
    "nat \<Rightarrow> string \<Rightarrow> string \<Rightarrow> string \<Rightarrow> string \<Rightarrow> string \<Rightarrow> entry \<Rightarrow> entry" where
  "push_parameter ln decl_type param dtype org_arg declaration_name e =
     (if e_anon e \<and> dtype = [] \<and> param = ''}'' then e
      else (let e1 = e\<lparr>e_anon := False\<rparr>;
                param1 = re_subn RE_PARAM_TAIL [] 1 param;
                pe = (if dtype = [] then push_typeless ln decl_type param1 declaration_name e1 else (param1, e1));
                e2 = push_undescribed ln decl_type (fst pe) declaration_name (snd pe) in
        e2\<lparr>e_parameterlist := e_parameterlist e2 @ [fst pe],
           e_parametertypes := dict_set (e_parametertypes e2) (fst pe) (re_sub multi_space '' '' org_arg)\<rparr>))"

section \<open>The list of parameters\<close>

definition arg_expr :: regex where "arg_expr = re (rx ''(~([^~),]+),'')"

text \<open>A group followed by one character.\<close>

lemma step_group_chr:
  assumes "step_re (RSeq (RGroup n r) (RAtom False (A_chr c))) (q, t @ u, g0) (v, u, g)"
  shows "\<exists>t1. t = t1 @ [c] \<and> g n = Some t1 \<and> t1 \<in> lang r"
proof -
  from assms obtain d where d: "step_re (RGroup n r) (q, t @ u, g0) d" "step_re (RAtom False (A_chr c)) d (v, u, g)"
    unfolding step_re_simps(6) by blast
  obtain p1 s1 g1 where [simp]: "d = (p1, s1, g1)" by (cases d)
  note grp = d(1) [simplified]
  from d(2) have s1: "s1 = c # u" "g = g1" by (auto simp: re_set)
  from step_lang [OF grp] obtain t1 where t1: "t1 \<in> lang r" "t @ u = t1 @ s1" by (auto simp: consumed_def)
  from grp obtain g2 where "g1 = g2(n := Some (take (length (t @ u) - length s1) (t @ u)))"
    unfolding step_re_simps(8) by blast
  then have "g1 n = Some t1" by (simp only: t1(2)) simp
  moreover have "t = t1 @ [c]" using t1(2) s1(1) by simp
  ultimately show ?thesis using s1(2) t1(1) by auto
qed

lemma arg_expr_prog: "\<exists>r. arg_expr = RSeq (RGroup 1 r) (RAtom False (A_chr (CHR '','')))"
  by (rule exI [of _ "RSeq (RAtom False (A_chr (CHR ''('')))
    (RSeq (RAtom False (A_set True [CI_chr (CHR '')''), CI_chr (CHR '','')]))
      (RStar (RAtom False (A_set True [CI_chr (CHR '')''), CI_chr (CHR '','')]))))"]) code_simp

lemma arg_expr_less:
  assumes "re_search arg_expr s \<noteq> None"
  shows "count_list (re_sub arg_expr (rx ''~1#'') s) (CHR '','') < count_list s (CHR '','')"
proof (rule occ.re_sub_less [OF _ assms])
  fix q t u v g
  assume st: "step_re arg_expr (q, t @ u, no_groups) (v, u, g)"
  obtain r where r: "arg_expr = RSeq (RGroup 1 r) (RAtom False (A_chr (CHR '','')))" using arg_expr_prog by blast
  from step_group_chr [OF st [unfolded r]] obtain t1 where t1: "t = t1 @ '',''" "g 1 = Some t1" by blast
  have "parse_tpl (rx ''~1#'') = [T_grp 1, T_chr (CHR ''#'')]" by code_simp
  with t1 show "count_list (expand (parse_tpl (rx ''~1#'')) g) (CHR '','') < count_list t (CHR '','')" by simp
qed

text \<open>The loop that hides the commas inside parentheses; each round leaves fewer commas.\<close>

function hide_commas :: "string \<Rightarrow> string" where
  "hide_commas args = (if re_search arg_expr args = None then args
     else hide_commas (re_sub arg_expr (rx ''~1#'') args))"
  by pat_completeness auto
termination
  by (relation "measure (\<lambda>s. count_list s (CHR '',''))") (simp_all add: arg_expr_less)

declare hide_commas.simps [simp del]

definition RE_POS :: regex where "RE_POS = re (rx ''~sPOS0?~s'')"
definition RE_SPACES :: regex where "RE_SPACES = re (rx ''~s+'')"
definition RE_FUNC_PTR :: regex where "RE_FUNC_PTR = re (rx ''~(.+~)~s*~('')"
definition RE_FUNC_NAME :: regex where
  "RE_FUNC_NAME = re (rx ''[^~(]+~(~*?~s*'' @ rx ''([~w~[~].]*)'' @ rx ''~s*~)'')"
definition RE_ARRAY_PTR :: regex where "RE_ARRAY_PTR = re (rx ''~(.+~)~s*~['')"
definition RE_ARRAY_NAME :: regex where
  "RE_ARRAY_NAME = re (rx ''[^~(]+~(~s*~*~s*'' @ rx ''([~w.]*?)'' @ rx ''~s*(~[~s*~w+~s*~]~s*)*~)'')"
definition RE_COLON :: regex where "RE_COLON = re (rx ''~s*:~s*'')"
definition RE_BRACKET :: regex where "RE_BRACKET = re (rx ''~s*~['')"
definition RE_COMMA :: regex where "RE_COMMA = re (rx ''~s*,~s*'')"
definition RE_STARS :: regex where "RE_STARS = re (rx ''(~*+)~s*'')"
definition RE_TYPE_NAME :: regex where "RE_TYPE_NAME = re (rx ''^([^[~]]*~s+)(.*)$'')"
definition RE_POINTER :: regex where "RE_POINTER = re (rx ''^(~*+)~s*(.*)'')"
definition RE_BITFIELD :: regex where "RE_BITFIELD = re (rx ''(.*?):(~w+)'')"

text \<open>The two cases that dig a name out of the middle of a declaration.\<close>

definition push_inner :: "nat \<Rightarrow> string \<Rightarrow> string \<Rightarrow> regex \<Rightarrow> string \<Rightarrow> entry \<Rightarrow> entry" where
  "push_inner ln decl_type declaration_name r arg e = (case re_match r arg of
      Some m \<Rightarrow> push_parameter ln decl_type (m_str m 1) (replace arg (m_str m 1) []) arg declaration_name e
    | None \<Rightarrow> push_parameter ln decl_type arg (replace arg arg []) arg declaration_name
                (entry_warn ln (''Invalid param: '' @ arg) e))"

text \<open>One declarator of a plain declaration.\<close>

definition push_declarator :: "nat \<Rightarrow> string \<Rightarrow> string \<Rightarrow> string \<Rightarrow> string \<Rightarrow> entry \<Rightarrow> string \<Rightarrow> entry" where
  "push_declarator ln decl_type declaration_name dtype arg e param = (case re_match RE_POINTER param of
      Some m \<Rightarrow> push_parameter ln decl_type (m_str m 2) (dtype @ '' '' @ m_str m 1) arg declaration_name e
    | None \<Rightarrow>
      (case re_search RE_BITFIELD param of
         Some m \<Rightarrow> if dtype \<noteq> []
                   then push_parameter ln decl_type (m_str m 1) (dtype @ '':'' @ m_str m 2) arg declaration_name e
                   else e
       | None \<Rightarrow> push_parameter ln decl_type param dtype arg declaration_name e))"

definition somes :: "'a option list \<Rightarrow> 'a list" where
  "somes xs = map the (filter (\<lambda>x. x \<noteq> None) xs)"

definition push_plain :: "nat \<Rightarrow> string \<Rightarrow> string \<Rightarrow> entry \<Rightarrow> string \<Rightarrow> entry" where
  "push_plain ln decl_type declaration_name e arg0 =
     (let arg = re_sub RE_BRACKET ''['' (re_sub RE_COLON '':'' arg0) in
      (case somes (re_split RE_COMMA 0 arg) of
         [] \<Rightarrow> e
       | first # rest \<Rightarrow>
         (let first1 = re_sub RE_STARS (rx '' ~1'') first in
          (case re_match RE_TYPE_NAME first1 of
             Some m \<Rightarrow> foldl (push_declarator ln decl_type declaration_name (m_str m 1) arg) e (m_str m 2 # rest)
           | None \<Rightarrow> foldl (push_declarator ln decl_type declaration_name [] arg) e (first1 # rest)))))"

definition trim_arg :: "string \<Rightarrow> string" where
  "trim_arg arg = re_subn RE_SPACES '' '' 1 (strip (replace (re_sub RE_POS '' '' arg) ''[at_least '' ''[static ''))"

definition push_trimmed :: "nat \<Rightarrow> string \<Rightarrow> string \<Rightarrow> entry \<Rightarrow> string \<Rightarrow> entry" where
  "push_trimmed ln decl_type declaration_name e arg =
     (if startswith arg ''#'' then push_parameter ln decl_type arg [] [] declaration_name e
      else if re_search RE_FUNC_PTR arg \<noteq> None then
        push_inner ln decl_type declaration_name RE_FUNC_NAME (replace arg ''#'' '','') e
      else if re_search RE_ARRAY_PTR arg \<noteq> None then
        push_inner ln decl_type declaration_name RE_ARRAY_NAME arg e
      else if arg \<noteq> [] then push_plain ln decl_type declaration_name e arg
      else e)"

definition push_arg :: "nat \<Rightarrow> string \<Rightarrow> string \<Rightarrow> entry \<Rightarrow> string \<Rightarrow> entry" where
  "push_arg ln decl_type declaration_name e arg = push_trimmed ln decl_type declaration_name e (trim_arg arg)"

definition create_parameter_list :: "nat \<Rightarrow> string \<Rightarrow> string \<Rightarrow> char \<Rightarrow> string \<Rightarrow> entry \<Rightarrow> entry" where
  "create_parameter_list ln decl_type args splitter declaration_name e =
     foldl (push_arg ln decl_type declaration_name) e (split_on splitter (hide_commas args))"

section \<open>Checks\<close>

definition check_section1 :: "nat \<Rightarrow> string \<Rightarrow> string \<Rightarrow> entry \<Rightarrow> string \<Rightarrow> entry" where
  "check_section1 ln decl_name decl_type e section =
     (if section \<notin> set (e_parameterlist e) \<and> re_search known_sections section = None then
        entry_warn ln (''Excess '' @ decl_noun decl_type @ '' '' @ quoted section @ '' description in '' @ quoted decl_name) e
      else e)"

definition auto_text :: "string \<Rightarrow> bool" where
  "auto_text desc \<longleftrightarrow> desc = undescribed \<or> desc = ''no arguments'' \<or> desc = ''anonymous'' @ [NL] \<or>
     desc = ''variable arguments''"

definition check_param1 :: "nat \<Rightarrow> string \<Rightarrow> string \<Rightarrow> entry \<Rightarrow> string \<times> string \<Rightarrow> entry" where
  "check_param1 ln decl_name decl_type e pd = (case pd of (param_name, desc) \<Rightarrow>
     if auto_text desc \<or> startswith param_name ''{unnamed_'' \<or> param_name \<in> set (e_parameterlist e) then e
     else entry_warn ln (''Excess '' @ decl_noun decl_type @ '' '' @ quoted param_name @ '' description in '' @ quoted decl_name) e)"

definition check_sections :: "nat \<Rightarrow> string \<Rightarrow> string \<Rightarrow> entry \<Rightarrow> entry" where
  "check_sections ln decl_name decl_type e =
     (let e1 = foldl (check_section1 ln decl_name decl_type) e (dict_keys (e_sections e)) in
      foldl (check_param1 ln decl_name decl_type) e1 (e_parameterdescs e1))"

definition RE_VOID :: regex where "RE_VOID = re (rx ''void~s*~w*~s*$'')"

definition check_return_section :: "bool \<Rightarrow> nat \<Rightarrow> string \<Rightarrow> string \<Rightarrow> entry \<Rightarrow> entry" where
  "check_return_section wreturn ln declaration_name return_type e =
     (if \<not> wreturn then e
      else if return_type = [] \<or> re_search RE_VOID return_type \<noteq> None then e
      else if falsy_at (e_sections e) ''Return'' then
        entry_warn ln (''No description found for return value of '' @ quoted declaration_name) e
      else e)"

section \<open>What the parameter operations leave alone\<close>

text \<open>Every field but the parameters, their descriptions and types, the warnings and the anonymous flag.\<close>

definition core :: "entry \<Rightarrow> entry" where
  "core e = e\<lparr>e_warnings := [], e_parameterlist := [], e_parameterdescs := [], e_parametertypes := [], e_anon := False\<rparr>"

lemma core_upd [frame]:
  "core (entry_warn ln msg e) = core e"
  "core (describe p t e) = core e"
  "core (e\<lparr>e_anon := b\<rparr>) = core e"
  "core (e\<lparr>e_parameterdescs := d\<rparr>) = core e"
  "core (e\<lparr>e_parameterlist := l\<rparr>) = core e"
  "core (e\<lparr>e_parametertypes := ty\<rparr>) = core e"
  by (simp_all add: core_def entry_warn_def describe_def)

lemma core_migrate [frame]: "core (snd (migrate_variadic param e)) = core e"
  by (simp add: migrate_variadic_def Let_def frame split: option.splits)

lemma core_typeless [frame]: "core (snd (push_typeless ln dt param dn e)) = core e"
  by (simp add: push_typeless_def push_variadic_def Let_def frame)

lemma core_undescribed [frame]: "core (push_undescribed ln dt param dn e) = core e"
  by (simp add: push_undescribed_def Let_def frame)

lemma core_push [frame]: "core (push_parameter ln dt param ty org dn e) = core e"
proof (cases "e_anon e \<and> ty = [] \<and> param = ''}''")
  case True
  then show ?thesis by (simp add: push_parameter_def)
next
  case False
  let ?pe = "if ty = [] then push_typeless ln dt (re_subn RE_PARAM_TAIL [] 1 param) dn (e\<lparr>e_anon := False\<rparr>)
    else (re_subn RE_PARAM_TAIL [] 1 param, e\<lparr>e_anon := False\<rparr>)"
  have "core (snd ?pe) = core e" by (simp add: frame)
  then show ?thesis by (simp only: push_parameter_def if_not_P [OF False] Let_def frame)
qed

lemma core_foldl: "(\<And>e x. core (f e x) = core e) \<Longrightarrow> core (foldl f e xs) = core e"
  by (induction xs arbitrary: e) simp_all

lemma core_declarator [frame]: "core (push_declarator ln dt dn ty arg e param) = core e"
  by (simp add: push_declarator_def frame split: option.splits)

lemma core_plain [frame]: "core (push_plain ln dt dn e arg) = core e"
  by (simp add: push_plain_def Let_def frame core_foldl split: option.splits list.splits)

lemma core_arg [frame]: "core (push_arg ln dt dn e arg) = core e"
  by (simp add: push_arg_def push_trimmed_def push_inner_def frame split: option.splits)

lemma core_create [frame]: "core (create_parameter_list ln dt args sp dn e) = core e"
  by (simp add: create_parameter_list_def core_foldl frame)

lemma core_check_sections [frame]: "core (check_sections ln nm dt e) = core e"
  by (simp add: check_sections_def check_section1_def check_param1_def Let_def core_foldl frame split: prod.splits)

lemma core_check_return [frame]: "core (check_return_section w ln nm rt e) = core e"
  by (simp add: check_return_section_def frame)

text \<open>So each of them keeps the attributes the state machine relies on.\<close>

lemma core_fields:
  assumes "core e' = core e"
  shows "e_identifier e' = e_identifier e" "e_decl_type e' = e_decl_type e" "e_section e' = e_section e"
    "e_purpose e' = e_purpose e" "e_new_start_line e' = e_new_start_line e" "e_sections e' = e_sections e"
    "e_sections_lines e' = e_sections_lines e" "e_start_line e' = e_start_line e" "e_fname e' = e_fname e"
proof -
  show "e_identifier e' = e_identifier e" using arg_cong [OF assms, of e_identifier] by (simp add: core_def)
  show "e_decl_type e' = e_decl_type e" using arg_cong [OF assms, of e_decl_type] by (simp add: core_def)
  show "e_section e' = e_section e" using arg_cong [OF assms, of e_section] by (simp add: core_def)
  show "e_purpose e' = e_purpose e" using arg_cong [OF assms, of e_purpose] by (simp add: core_def)
  show "e_new_start_line e' = e_new_start_line e" using arg_cong [OF assms, of e_new_start_line] by (simp add: core_def)
  show "e_sections e' = e_sections e" using arg_cong [OF assms, of e_sections] by (simp add: core_def)
  show "e_sections_lines e' = e_sections_lines e" using arg_cong [OF assms, of e_sections_lines] by (simp add: core_def)
  show "e_start_line e' = e_start_line e" using arg_cong [OF assms, of e_start_line] by (simp add: core_def)
  show "e_fname e' = e_fname e" using arg_cong [OF assms, of e_fname] by (simp add: core_def)
qed

section \<open>Every listed parameter is described and typed\<close>

definition param_ok :: "entry \<Rightarrow> string \<Rightarrow> bool" where
  "param_ok e p \<longleftrightarrow> dict_has (e_parametertypes e) p \<and>
     (dict_has (e_parameterdescs e) p \<or> startswith p ''#'' \<or> endswith p ''...'')"

definition params_ok :: "entry \<Rightarrow> bool" where
  "params_ok e \<longleftrightarrow> list_all (param_ok e) (e_parameterlist e)"

text \<open>Descriptions may be added, and that of a \<^verbatim>\<open>name...\<close> removed.\<close>

definition descs_grow :: "entry \<Rightarrow> entry \<Rightarrow> bool" where
  "descs_grow e e' \<longleftrightarrow> e_parameterlist e' = e_parameterlist e \<and> e_parametertypes e' = e_parametertypes e \<and>
     (\<forall>p. dict_has (e_parameterdescs e) p \<longrightarrow> dict_has (e_parameterdescs e') p \<or> endswith p ''...'')"

declare dict_has_set [simp]

lemma dict_del_other: "p \<noteq> k \<Longrightarrow> dict_get (dict_del d k) p = dict_get d p"
  by (induction d k rule: dict_del.induct) (auto simp: dict_get_def)

lemma descs_grow_refl: "descs_grow e e"
  by (simp add: descs_grow_def)

lemma descs_grow_trans: "descs_grow e e1 \<Longrightarrow> descs_grow e1 e2 \<Longrightarrow> descs_grow e e2"
  by (fastforce simp: descs_grow_def)

lemma descs_grow_upd [intro]:
  "descs_grow e e1 \<Longrightarrow> descs_grow e (entry_warn ln msg e1)"
  "descs_grow e e1 \<Longrightarrow> descs_grow e (describe p t e1)"
  "descs_grow e e1 \<Longrightarrow> descs_grow e (e1\<lparr>e_anon := b\<rparr>)"
  by (auto simp: descs_grow_def entry_warn_def describe_def)

lemma descs_grow_migrate: "endswith param ''...'' \<Longrightarrow> descs_grow e (snd (migrate_variadic param e))"
proof -
  assume ends: "endswith param ''...''"
  have "dict_get (dict_del (e_parameterdescs e) param) p = dict_get (e_parameterdescs e) p"
    if "\<not> endswith p ''...''" for p
    using ends that by (intro dict_del_other) auto
  then show ?thesis
    by (auto simp: descs_grow_def migrate_variadic_def Let_def describe_def dict_has_def split: option.splits)
qed

lemma descs_grow_typeless: "descs_grow e (snd (push_typeless ln dt param dn e))"
  using descs_grow_migrate [of param e]
  by (auto simp: push_typeless_def push_variadic_def Let_def intro!: descs_grow_upd descs_grow_refl)

lemma descs_grow_undescribed: "descs_grow e (push_undescribed ln dt param dn e)"
  by (auto simp: push_undescribed_def Let_def intro!: descs_grow_upd descs_grow_refl)

lemma undescribed_has: "dict_has (e_parameterdescs (push_undescribed ln dt param dn e)) param \<or> startswith param ''#''"
  by (auto simp: push_undescribed_def Let_def describe_def entry_warn_def)

lemma params_ok_push:
  assumes "params_ok e"
  shows "params_ok (push_parameter ln dt param ty org dn e)"
proof (cases "e_anon e \<and> ty = [] \<and> param = ''}''")
  case True
  then show ?thesis using assms by (simp add: push_parameter_def)
next
  case False
  define e1 where "e1 = e\<lparr>e_anon := False\<rparr>"
  define pe where "pe = (if ty = [] then push_typeless ln dt (re_subn RE_PARAM_TAIL [] 1 param) dn e1
      else (re_subn RE_PARAM_TAIL [] 1 param, e1))"
  define e2 where "e2 = push_undescribed ln dt (fst pe) dn (snd pe)"
  have push: "push_parameter ln dt param ty org dn e = e2\<lparr>e_parameterlist := e_parameterlist e2 @ [fst pe],
      e_parametertypes := dict_set (e_parametertypes e2) (fst pe) (re_sub multi_space '' '' org)\<rparr>"
    by (simp only: push_parameter_def if_not_P [OF False] Let_def e1_def pe_def e2_def)
  have "descs_grow e e1" unfolding e1_def by (intro descs_grow_upd descs_grow_refl)
  moreover have "descs_grow e1 (snd pe)" by (simp add: pe_def descs_grow_typeless descs_grow_refl)
  moreover have "descs_grow (snd pe) e2" by (simp add: e2_def descs_grow_undescribed)
  ultimately have "descs_grow e e2" by (blast intro: descs_grow_trans)
  moreover have "dict_has (e_parameterdescs e2) (fst pe) \<or> startswith (fst pe) ''#''"
    using undescribed_has by (simp add: e2_def)
  ultimately show ?thesis using assms unfolding push
    by (fastforce simp: params_ok_def param_ok_def list_all_iff descs_grow_def)
qed

lemma params_ok_warn [simp]: "params_ok (entry_warn ln msg e) = params_ok e"
  by (simp add: params_ok_def param_ok_def [abs_def] entry_warn_def)

lemma params_ok_foldl: "(\<And>e x. params_ok e \<Longrightarrow> params_ok (f e x)) \<Longrightarrow> params_ok e \<Longrightarrow> params_ok (foldl f e xs)"
  by (induction xs arbitrary: e) simp_all

lemma params_ok_declarator: "params_ok e \<Longrightarrow> params_ok (push_declarator ln dt dn ty arg e param)"
  by (simp add: push_declarator_def params_ok_push split: option.splits)

lemma params_ok_plain: "params_ok e \<Longrightarrow> params_ok (push_plain ln dt dn e arg)"
  by (simp add: push_plain_def Let_def params_ok_foldl params_ok_declarator split: option.splits list.splits)

lemma params_ok_arg: "params_ok e \<Longrightarrow> params_ok (push_arg ln dt dn e arg)"
  by (simp add: push_arg_def push_trimmed_def push_inner_def params_ok_push params_ok_plain split: option.splits)

lemma params_ok_create: "params_ok e \<Longrightarrow> params_ok (create_parameter_list ln dt args sp dn e)"
  by (simp add: create_parameter_list_def params_ok_foldl params_ok_arg)



text \<open>
  The loop that hides the commas of function-pointer arguments ends, and when it does no comma
  follows an open parenthesis with no closing one in between.
\<close>

theorem hide_commas_done: "re_search arg_expr (hide_commas s) = None"
  by (induction s rule: hide_commas.induct) (simp add: hide_commas.simps)

section \<open>The checks report exactly the excess descriptions\<close>

definition excess_msg :: "nat \<Rightarrow> string \<Rightarrow> string \<Rightarrow> string \<Rightarrow> entry \<Rightarrow> string" where
  "excess_msg ln decl_name decl_type x e =
     log_line (e_fname e) ln (''Excess '' @ decl_noun decl_type @ '' '' @ quoted x @ '' description in '' @ quoted decl_name)"

lemma check_section_fold:
  "foldl (check_section1 ln nm dt) e xs =
   e\<lparr>e_warnings := e_warnings e @ map (\<lambda>x. excess_msg ln nm dt x e)
     (filter (\<lambda>x. x \<notin> set (e_parameterlist e) \<and> re_search known_sections x = None) xs)\<rparr>"
  by (induction xs arbitrary: e) (simp_all add: check_section1_def entry_warn_def excess_msg_def)

lemma check_param_fold:
  "foldl (check_param1 ln nm dt) e xs =
   e\<lparr>e_warnings := e_warnings e @ map (\<lambda>(x, d). excess_msg ln nm dt x e)
     (filter (\<lambda>(x, d). \<not> (auto_text d \<or> startswith x ''{unnamed_'' \<or> x \<in> set (e_parameterlist e))) xs)\<rparr>"
  by (induction xs arbitrary: e) (simp_all add: check_param1_def entry_warn_def excess_msg_def split: prod.splits)

text \<open>
  Checking the sections changes nothing but the warnings, and adds exactly one for every section
  that is neither a parameter nor a known section name, and one for every description written by
  the author whose name is not in the parameter list.
\<close>

theorem check_sections_exact:
  "check_sections ln nm dt e = e\<lparr>e_warnings := e_warnings e @
     map (\<lambda>x. excess_msg ln nm dt x e)
       (filter (\<lambda>x. x \<notin> set (e_parameterlist e) \<and> re_search known_sections x = None) (dict_keys (e_sections e))) @
     map (\<lambda>(x, d). excess_msg ln nm dt x e)
       (filter (\<lambda>(x, d). \<not> (auto_text d \<or> startswith x ''{unnamed_'' \<or> x \<in> set (e_parameterlist e)))
         (e_parameterdescs e))\<rparr>"
  by (simp add: check_sections_def Let_def check_section_fold check_param_fold excess_msg_def)

end
