(* ===== verification/Re_Chars.thy ===== *)
theory Re_Chars
  imports Kdoc_Params
begin

text \<open>
  Where the characters of a result come from: a matched group is part of the searched text, a
  substitution adds only characters of its template, and replacing a substring removes every
  occurrence. These facts bound the loops of the structure parser.
\<close>

section \<open>Groups are parts of the text\<close>

definition chars_from :: "cursor \<Rightarrow> cursor \<Rightarrow> bool" where
  "chars_from c c' \<longleftrightarrow> set (fst (snd c')) \<subseteq> set (fst (snd c)) \<and>
     (\<forall>n t. grp c' n = Some t \<longrightarrow> grp c n = Some t \<or> set t \<subseteq> set (fst (snd c)))"

lemma chars_from_refl: "chars_from c c"
  by (simp add: chars_from_def)

lemma chars_from_trans: "chars_from c d \<Longrightarrow> chars_from d e \<Longrightarrow> chars_from c e"
  unfolding chars_from_def by (meson subset_trans)

lemma closure_chars:
  assumes "\<And>c c'. step_re r c c' \<Longrightarrow> chars_from c c'" and "(step_re r)\<^sup>*\<^sup>* c c'"
  shows "chars_from c c'"
  using assms(2)
proof (induction rule: rtranclp_induct)
  case base
  show ?case by (rule chars_from_refl)
next
  case (step d e)
  then show ?case using assms(1) chars_from_trans by blast
qed

lemma step_chars: "step_re r c c' \<Longrightarrow> chars_from c c'"
proof (induction r arbitrary: c c')
  case (RSeq r1 r2)
  then obtain d where "step_re r1 c d" "step_re r2 d c'" by (auto simp: re_set)
  with RSeq.IH show ?case by (blast intro: chars_from_trans)
next
  case (RAlt r1 r2)
  then show ?case unfolding step_re_simps by blast
next
  case (RStar r)
  from closure_chars [OF RStar.IH step_star [OF RStar.prems]] show ?case .
next
  case (RLazy r)
  from closure_chars [OF RLazy.IH step_lazy [OF RLazy.prems]] show ?case .
next
  case (RGroup n r)
  obtain p s g p' s' g' where c: "c = (p, s, g)" "c' = (p', s', g')" by (cases c, cases c')
  from RGroup.prems obtain g1 where g1: "step_re r c (p', s', g1)"
    and g': "g' = g1(n := Some (take (length s - length s') s))" by (auto simp: c re_set)
  from RGroup.IH [OF g1] show ?case
    by (auto simp: chars_from_def c g' dest: in_set_takeD split: if_splits)
next
  case (RAtom ic a)
  then show ?case by (cases c) (auto simp: re_set chars_from_def)
next
  case (RBol m)
  then show ?case by (cases c) (auto simp: re_set chars_from_def)
next
  case (REol m)
  then show ?case by (cases c) (auto simp: re_set chars_from_def)
next
  case RWordB
  then show ?case by (cases c) (auto simp: re_set chars_from_def)
next
  case REmpty
  then show ?case by (simp add: re_set chars_from_refl)
qed

lemma m_str_chars:
  "\<forall>n t. m_groups m n = Some t \<longrightarrow> set t \<subseteq> X \<Longrightarrow> set (m_text m) \<subseteq> X \<Longrightarrow> set (m_str m n) \<subseteq> X"
  by (cases "m_groups m n") (simp_all add: m_str_def m_group_def)

lemma re_match_chars:
  assumes "re_match r s = Some m"
  shows "set (m_str m n) \<subseteq> set s"
proof -
  from re_match_Some [OF assms] obtain rest p where s: "s = m_text m @ rest"
    and st: "step_re r (None, s, no_groups) (p, rest, m_groups m)" by blast
  show ?thesis by (rule m_str_chars) (use step_chars [OF st] s in \<open>simp_all add: chars_from_def\<close>)
qed

lemma re_search_chars:
  assumes "re_search r s = Some m"
  shows "set (m_str m n) \<subseteq> set s"
proof -
  from re_search_Some [OF assms] obtain pre rest q p where s: "s = pre @ m_text m @ rest"
    and st: "step_re r (q, m_text m @ rest, no_groups) (p, rest, m_groups m)" by blast
  have "set (m_str m n) \<subseteq> set (m_text m @ rest)"
    by (rule m_str_chars) (use step_chars [OF st] in \<open>simp_all add: chars_from_def\<close>)
  then show ?thesis using s by auto
qed

section \<open>Substitution adds only template characters\<close>

fun tpl_chars :: "tpl list \<Rightarrow> char set" where
  "tpl_chars [] = {}"
| "tpl_chars (T_chr c # ts) = insert c (tpl_chars ts)"
| "tpl_chars (T_grp n # ts) = tpl_chars ts"

lemma expand_chars:
  assumes "\<forall>n t. g n = Some t \<longrightarrow> set t \<subseteq> X"
  shows "set (expand tp g) \<subseteq> tpl_chars tp \<union> X"
proof (induction tp)
  case (Cons a tp)
  show ?case
  proof (cases a)
    case (T_grp n)
    then show ?thesis using Cons assms by (cases "g n") auto
  qed (use Cons in auto)
qed simp

text \<open>A segment of a scan drawn from a set of characters.\<close>

definition seg_in :: "char set \<Rightarrow> seg \<Rightarrow> bool" where
  "seg_in X sg = (case sg of (pre, t, g) \<Rightarrow> set pre \<subseteq> X \<and> set t \<subseteq> X \<and> (\<forall>n u. g n = Some u \<longrightarrow> set u \<subseteq> X))"

lemma seg_in_mono: "seg_in X sg \<Longrightarrow> X \<subseteq> Y \<Longrightarrow> seg_in Y sg"
  by (cases sg) (fastforce simp: seg_in_def)

lemma scan_chars:
  "scan r adv p s = (segs, tail) \<Longrightarrow> set tail \<subseteq> set s \<and> list_all (seg_in (set s)) segs"
proof (induction r adv p s arbitrary: segs rule: scan.induct)
  case (1 r adv p s)
  show ?case
  proof (cases "search1 r adv p s")
    case None
    with "1.prems" show ?thesis by (simp add: scan.simps [of r adv p s])
  next
    case (Some m)
    obtain pre t g p' s' where m: "m = (pre, t, g, p', s')" by (cases m)
    obtain segs' where sc: "scan r (t = []) p' s' = (segs', tail)" and segs: "segs = (pre, t, g) # segs'"
      using "1.prems" Some m by (auto simp: scan.simps [of r adv p s] split: prod.splits)
    from search1_spec [of r adv p s] Some m obtain q where s: "s = pre @ t @ s'"
      and st: "step_re r (q, t @ s', no_groups) (p', s', g)" by blast
    have "\<forall>n u. g n = Some u \<longrightarrow> set u \<subseteq> set (t @ s')"
      using step_chars [OF st] by (simp add: chars_from_def)
    then have "seg_in (set s) (pre, t, g)" by (fastforce simp: s seg_in_def)
    moreover have ih: "set tail \<subseteq> set s' \<and> list_all (seg_in (set s')) segs'"
      using "1.IH" Some m sc by blast
    moreover have sub: "set s' \<subseteq> set s" by (auto simp: s)
    moreover have "list_all (seg_in (set s)) segs'"
      using ih sub by (auto simp: list_all_iff intro: seg_in_mono)
    ultimately show ?thesis by (auto simp: segs)
  qed
qed

lemma re_subn_chars: "set (re_subn r tp k s) \<subseteq> tpl_chars (parse_tpl tp) \<union> set s"
proof -
  obtain segs tail where sc: "re_scan r s = (segs, tail)" by (cases "re_scan r s")
  note ch = scan_chars [OF sc [unfolded re_scan_def]]
  let ?f = "\<lambda>(pre, t, g). expand (parse_tpl tp) g" let ?X = "tpl_chars (parse_tpl tp) \<union> set s"
  have seg: "set pre \<subseteq> set s" "set t \<subseteq> set s" "set (expand (parse_tpl tp) g) \<subseteq> ?X" if "(pre, t, g) \<in> set segs" for pre t g
  proof -
    have "seg_in (set s) (pre, t, g)" using ch that by (simp add: list_all_iff)
    then show "set pre \<subseteq> set s" "set t \<subseteq> set s" "set (expand (parse_tpl tp) g) \<subseteq> ?X"
      by (simp_all add: seg_in_def expand_chars)
  qed
  have "set (sub_segs ?f xs) \<subseteq> ?X" if "set xs \<subseteq> set segs" for xs
    using that
  proof (induction xs)
    case (Cons x xs)
    then show ?case using seg [of "fst x" "fst (snd x)" "snd (snd x)"] by (cases x) (auto simp: sub_segs_def)
  qed (simp add: sub_segs_def)
  moreover have "set (segs_text xs) \<subseteq> set s" if "set xs \<subseteq> set segs" for xs
    using that
  proof (induction xs)
    case (Cons x xs)
    then show ?case using seg [of "fst x" "fst (snd x)" "snd (snd x)"] by (cases x) (auto simp: segs_text_def)
  qed (simp add: segs_text_def)
  ultimately have "set (sub_segs ?f (take j segs)) \<subseteq> ?X" "set (segs_text (drop j segs)) \<subseteq> set s" for j
    by (simp_all add: set_take_subset set_drop_subset)
  then have "set (sub_segs ?f (take j segs) @ segs_text (drop j segs) @ tail) \<subseteq> ?X" for j
    using ch by fastforce
  then show ?thesis unfolding re_subn_def sc prod.case Let_def .
qed

lemma re_sub_chars: "set (re_sub r tp s) \<subseteq> tpl_chars (parse_tpl tp) \<union> set s"
  unfolding re_sub_def by (rule re_subn_chars)

section \<open>Replacing a substring\<close>

lemma count_drop_le: "count_list (drop n s) c \<le> count_list s c"
  by (metis append_take_drop_id count_list_append le_add2)

lemma replace_ne_count: "c \<notin> set new \<Longrightarrow> count_list (replace_ne n old new s) c \<le> count_list (drop n s) c"
proof (induction n old new s rule: replace_ne.induct)
  case (3 old new x s)
  have "count_list new c = 0" using "3.prems" by (simp add: count_list_0_iff)
  with 3 show ?case using count_drop_le [of "length old - 1" s c] by (auto intro: order_trans)
qed simp_all

lemma replace_ne_less:
  assumes "c \<in> set old" and "c \<notin> set new"
  shows "s = pre @ old @ rest \<Longrightarrow> count_list (replace_ne 0 old new s) c < count_list s c"
proof (induction s arbitrary: pre)
  case Nil
  then show ?case using assms by simp
next
  case (Cons x s)
  show ?case
  proof (cases "startswith (x # s) old")
    case True
    then obtain t where t: "x # s = old @ t" by (auto simp: startswith_append)
    then have d: "drop (length old - 1) s = t" using assms(1) by (cases old) auto
    have "count_list new c = 0" using assms(2) by (simp add: count_list_0_iff)
    then have "count_list (replace_ne 0 old new (x # s)) c \<le> count_list t c"
      using True replace_ne_count [OF assms(2), of "length old - 1" old s] d by simp
    moreover have "0 < count_list old c" using assms(1) by (metis count_list_0_iff neq0_conv)
    ultimately show ?thesis by (simp add: t)
  next
    case False
    then obtain pre' where "pre = x # pre'" "s = pre' @ old @ rest"
      using Cons.prems by (cases pre) (auto simp: startswith_append)
    with Cons.IH False show ?thesis by auto
  qed
qed

lemma replace_count: "c \<notin> set new \<Longrightarrow> old \<noteq> [] \<Longrightarrow> count_list (replace s old new) c \<le> count_list s c"
  using replace_ne_count [of c new 0 old s] by (simp add: replace_def)

lemma replace_less: "c \<in> set old \<Longrightarrow> c \<notin> set new \<Longrightarrow> s = pre @ old @ rest \<Longrightarrow>
    count_list (replace s old new) c < count_list s c"
  using replace_ne_less [of c old new s pre rest] by (auto simp: replace_def)

section \<open>Weights that look at the context\<close>

text \<open>
  A weight whose summands depend on what precedes: it adds up over concatenation once the context
  is carried along. A plain weight is the case of a trivial context.
\<close>

locale ctx_weight =
  fixes w :: "'c \<Rightarrow> string \<Rightarrow> nat" and nxt :: "'c \<Rightarrow> string \<Rightarrow> 'c"
  assumes w_append: "w c (x @ y) = w c x + w (nxt c x) y"
    and nxt_append: "nxt c (x @ y) = nxt (nxt c x) y"
begin

lemma sub_segs_less:
  assumes "\<And>pre t g c. (pre, t, g) \<in> set segs \<Longrightarrow> w c (f (pre, t, g)) < w c t \<and> nxt c (f (pre, t, g)) = nxt c t"
  shows "w c (sub_segs f segs @ tail) + length segs \<le> w c (segs_text segs @ tail)"
  using assms
proof (induction segs arbitrary: c)
  case Nil
  show ?case by (simp add: sub_segs_def segs_text_def)
next
  case (Cons x segs)
  obtain pre t g where x: "x = (pre, t, g)" by (cases x)
  let ?c = "nxt c pre"
  have t: "w ?c (f (pre, t, g)) < w ?c t" "nxt ?c (f (pre, t, g)) = nxt ?c t" using Cons.prems x by auto
  have "w (nxt ?c t) (sub_segs f segs @ tail) + length segs \<le> w (nxt ?c t) (segs_text segs @ tail)"
    by (rule Cons.IH) (use Cons.prems in auto)
  with t show ?case by (simp add: x sub_segs_def segs_text_def w_append)
qed

lemma re_sub_less:
  assumes "\<And>q t u v g c. step_re r (q, t @ u, no_groups) (v, u, g) \<Longrightarrow>
      w c (expand (parse_tpl tpl) g) < w c t \<and> nxt c (expand (parse_tpl tpl) g) = nxt c t"
    and "re_search r s \<noteq> None"
  shows "w c (re_sub r tpl s) < w c s"
proof -
  obtain segs tail where sc: "re_scan r s = (segs, tail)" by (cases "re_scan r s")
  have le: "w c (sub_segs (\<lambda>(pre, t, g). expand (parse_tpl tpl) g) segs @ tail) + length segs \<le> w c (segs_text segs @ tail)"
    using scan_langs [OF sc [unfolded re_scan_def]] assms(1) by (intro sub_segs_less) (simp, blast)
  have "0 < length segs" using re_scan_nonempty [OF assms(2)] sc by simp
  with le have "w c (sub_segs (\<lambda>(pre, t, g). expand (parse_tpl tpl) g) segs @ tail) < w c (segs_text segs @ tail)"
    by linarith
  moreover have "segs_text segs @ tail = s" using scan_text sc by (simp add: re_scan_def)
  ultimately show ?thesis unfolding re_sub_alt [OF sc] by simp
qed

end

end
