(* ===== verification/Kdoc_Struct.thy ===== *)
theory Kdoc_Struct
  imports Re_Chars
begin

text \<open>
  Structures and unions: \<^verbatim>\<open>split_struct_proto\<close>, \<^verbatim>\<open>rewrite_struct_members\<close> and
  \<^verbatim>\<open>format_struct_decl\<close> of \<^verbatim>\<open>kdoc_parser.py\<close>. The two loops that rewrite until nothing matches
  end: the first removes braces, the second moves commas to line ends.
\<close>

section \<open>Splitting a prototype\<close>

definition struct_qualifiers :: "string list" where
  "struct_qualifiers = [''__attribute__'', ''__packed'', ''__aligned'', ''____cacheline_aligned_in_smp'',
     ''____cacheline_aligned'']"

definition definition_body_s :: string where
  "definition_body_s = rx ''~{(.*)~}~s*'' @ ''(?:'' @ join ''|'' struct_qualifiers @ '')?''"

definition RE_STRUCT :: regex where
  "RE_STRUCT = re (''(struct|union)'' @ rx ''~s+(~w+)~s*'' @ definition_body_s)"

definition RE_STRUCT_TYPEDEF :: regex where
  "RE_STRUCT_TYPEDEF = re (rx ''typedef~s+'' @ ''(struct|union)'' @ rx ''~s*'' @ definition_body_s @ rx ''~s*(~w+)~s*;'')"

definition split_struct_proto :: "string \<Rightarrow> (string \<times> string \<times> string) option" where
  "split_struct_proto proto = (case re_search RE_STRUCT proto of
      Some m \<Rightarrow> Some (m_str m 1, m_str m 2, m_str m 3)
    | None \<Rightarrow>
      (case re_search RE_STRUCT_TYPEDEF proto of
         Some m \<Rightarrow> Some (m_str m 1, m_str m 3, m_str m 2)
       | None \<Rightarrow> None))"

section \<open>Rewriting nested members\<close>

definition struct_members :: regex where
  "struct_members = re (''(struct|union)'' @ rx ''([^~{~};]+)'' @ rx ''(~{)'' @ rx ''([^~{~}]*)'' @ rx ''(~})'' @
     rx ''([^~{~};]*)(;)'')"

definition RE_ID_TAIL :: regex where "RE_ID_TAIL = re (rx ''[:~[].*'')"
definition RE_BARE_ID :: regex where "RE_BARE_ID = re (rx ''^~s*~**(~S+)~s*'')"
definition RE_MEMBER_FPTR :: regex where "RE_MEMBER_FPTR = re (rx ''^([^~(]+~(~*?~s*)([~w.]*)(~s*~).*)'')"
definition RE_MEMBER_BITS :: regex where "RE_MEMBER_BITS = re (rx '':~s*~d+~s*'')"
definition RE_MEMBER_ARRAY :: regex where "RE_MEMBER_ARRAY = re (rx ''~[.*~]'')"
definition RE_MEMBER_DECL :: regex where "RE_MEMBER_DECL = re (rx ''(.*)~s+([~S+,]+)'')"

text \<open>\<^verbatim>\<open>"{type} {s_id}.{name}; "\<close>, or without the prefix for an anonymous structure.\<close>

definition member_text :: "string \<Rightarrow> string \<Rightarrow> string \<Rightarrow> string" where
  "member_text ty s_id nm = (if s_id = [] then ty @ nm @ ''; '' else ty @ s_id @ ''.'' @ nm @ ''; '')"

text \<open>
  One member of the inner structure: the new text and the type, which the function-pointer case
  overwrites for the rest of the tuple.
\<close>

definition member_arg :: "string \<Rightarrow> string \<times> string \<Rightarrow> string \<Rightarrow> string \<times> string" where
  "member_arg s_id st arg0 = (case st of (new, dtype) \<Rightarrow>
     (let arg = strip arg0 in
      (case re_match RE_MEMBER_FPTR arg of
         Some m \<Rightarrow> (new @ member_text (m_str m 1) s_id (m_str m 2 @ m_str m 3), m_str m 1)
       | None \<Rightarrow>
         (let arg1 = re_sub RE_COMMA '','' (re_sub RE_MEMBER_ARRAY [] (re_sub RE_MEMBER_BITS [] arg)) in
          (case re_search RE_MEMBER_DECL arg1 of
             Some m \<Rightarrow>
               (new @ concat (map (\<lambda>nm. member_text (m_str m 1 @ '' '') s_id (re_sub RE_BARE_ID (rx ''~1'') nm))
                  (split_on (CHR '','') (m_str m 2))), dtype)
           | None \<Rightarrow> (new @ arg1 @ ''; '', dtype))))))"

definition member_id :: "string \<Rightarrow> string \<times> string \<Rightarrow> string \<Rightarrow> string \<times> string" where
  "member_id content st s_id0 = (case st of (new, dtype) \<Rightarrow>
     (let s_id1 = strip s_id0;
          s_id = re_sub RE_BARE_ID (rx ''~1'') (re_sub RE_ID_TAIL [] s_id1) in
      foldl (member_arg s_id) (new @ dtype @ '' '' @ s_id1 @ ''; '', dtype) (split_on (CHR '';'') content)))"

definition new_member :: "string list \<Rightarrow> string" where
  "new_member t = (case t of
      [dtype, name, lbr, content, rbr, rest, semi] \<Rightarrow> fst (foldl (member_id content) ([], dtype) (split_on (CHR '','') rest))
    | _ \<Rightarrow> [])"

definition rewrite_round :: "string \<Rightarrow> string list list \<Rightarrow> string" where
  "rewrite_round members tuples = foldl (\<lambda>ms t. replace ms (concat t) (new_member t)) members tuples"

section \<open>Each round removes a brace\<close>

lemma tpl_chars_1: "tpl_chars (parse_tpl (rx ''~1'')) = {}" "tpl_chars (parse_tpl []) = {}"
    "tpl_chars (parse_tpl '','') = {CHR '',''}"
  by code_simp+

definition no_brace :: "string \<Rightarrow> bool" where
  "no_brace s \<longleftrightarrow> CHR ''{'' \<notin> set s"

lemma no_brace_simps [simp]:
  "no_brace []" "no_brace (x # s) \<longleftrightarrow> x \<noteq> CHR ''{'' \<and> no_brace s" "no_brace (s @ t) \<longleftrightarrow> no_brace s \<and> no_brace t"
  by (auto simp: no_brace_def)

lemma no_brace_subset: "set t \<subseteq> set s \<Longrightarrow> no_brace s \<Longrightarrow> no_brace t"
  by (auto simp: no_brace_def)

lemma no_brace_sub: "no_brace s \<Longrightarrow> CHR ''{'' \<notin> tpl_chars (parse_tpl tp) \<Longrightarrow> no_brace (re_sub r tp s)"
  using re_sub_chars [of r tp s] by (auto simp: no_brace_def)

lemma no_brace_strip: "no_brace s \<Longrightarrow> no_brace (strip s)"
  by (rule no_brace_subset [OF set_strip_by])

lemma no_brace_match: "no_brace s \<Longrightarrow> re_match r s = Some m \<Longrightarrow> no_brace (m_str m n)"
  by (rule no_brace_subset [OF re_match_chars])

lemma no_brace_search: "no_brace s \<Longrightarrow> re_search r s = Some m \<Longrightarrow> no_brace (m_str m n)"
  by (rule no_brace_subset [OF re_search_chars])

lemma no_brace_split: "no_brace s \<Longrightarrow> w \<in> set (split_on x s) \<Longrightarrow> no_brace w"
  by (rule no_brace_subset [OF split_on_subset])

lemmas no_brace_ops = no_brace_strip no_brace_match no_brace_search no_brace_split

lemma member_text_no_brace:
  "no_brace ty \<Longrightarrow> no_brace s_id \<Longrightarrow> no_brace nm \<Longrightarrow> no_brace (member_text ty s_id nm)"
  by (simp add: member_text_def)

lemma no_brace_concat: "\<forall>x \<in> set xs. no_brace (f x) \<Longrightarrow> no_brace (concat (map f xs))"
  by (auto simp: no_brace_def)

lemma member_arg_no_brace:
  assumes "no_brace new" "no_brace dtype" "no_brace s_id" "no_brace arg"
  shows "no_brace (fst (member_arg s_id (new, dtype) arg)) \<and> no_brace (snd (member_arg s_id (new, dtype) arg))"
proof (cases "re_match RE_MEMBER_FPTR (strip arg)")
  case (Some m)
  then have "no_brace (m_str m n)" for n using assms(4) no_brace_ops by blast
  with Some assms show ?thesis by (simp add: member_arg_def Let_def member_text_no_brace)
next
  case None
  let ?a = "re_sub RE_COMMA '','' (re_sub RE_MEMBER_ARRAY [] (re_sub RE_MEMBER_BITS [] (strip arg)))"
  have a: "no_brace ?a" using assms(4) by (intro no_brace_sub no_brace_strip) (simp_all add: tpl_chars_1)
  show ?thesis
  proof (cases "re_search RE_MEMBER_DECL ?a")
    case None
    with a assms show ?thesis using \<open>re_match RE_MEMBER_FPTR (strip arg) = None\<close>
      by (simp add: member_arg_def Let_def)
  next
    case (Some m)
    then have m: "no_brace (m_str m n)" for n using a no_brace_ops by blast
    have "no_brace (member_text (m_str m 1 @ '' '') s_id (re_sub RE_BARE_ID (rx ''~1'') nm))"
      if "nm \<in> set (split_on (CHR '','') (m_str m 2))" for nm
      using m no_brace_split [OF m that] assms(3)
      by (intro member_text_no_brace no_brace_sub) (simp_all add: tpl_chars_1)
    then have "no_brace (concat (map (\<lambda>nm. member_text (m_str m 1 @ '' '') s_id (re_sub RE_BARE_ID (rx ''~1'') nm))
        (split_on (CHR '','') (m_str m 2))))" by (intro no_brace_concat) blast
    with Some assms show ?thesis using \<open>re_match RE_MEMBER_FPTR (strip arg) = None\<close>
      by (simp add: member_arg_def Let_def)
  qed
qed

lemma member_args_no_brace:
  "no_brace (fst st) \<Longrightarrow> no_brace (snd st) \<Longrightarrow> no_brace s_id \<Longrightarrow> \<forall>x \<in> set args. no_brace x \<Longrightarrow>
   no_brace (fst (foldl (member_arg s_id) st args)) \<and> no_brace (snd (foldl (member_arg s_id) st args))"
proof (induction args arbitrary: st)
  case Nil
  then show ?case by simp
next
  case (Cons x args)
  have "no_brace (fst (member_arg s_id st x)) \<and> no_brace (snd (member_arg s_id st x))"
    using member_arg_no_brace [of "fst st" "snd st" s_id x] Cons.prems by simp
  then show ?case using Cons.IH [of "member_arg s_id st x"] Cons.prems by simp
qed

lemma member_id_no_brace:
  assumes "no_brace (fst st)" "no_brace (snd st)" "no_brace content" "no_brace s_id"
  shows "no_brace (fst (member_id content st s_id)) \<and> no_brace (snd (member_id content st s_id))"
proof -
  have "no_brace (strip s_id)" "no_brace (re_sub RE_BARE_ID (rx ''~1'') (re_sub RE_ID_TAIL [] (strip s_id)))"
    using assms(4) by (intro no_brace_sub no_brace_strip; simp add: tpl_chars_1)+
  moreover have "\<forall>x \<in> set (split_on (CHR '';'') content). no_brace x" using assms(3) no_brace_split by blast
  ultimately show ?thesis using assms(1,2)
    by (cases st) (simp add: member_id_def Let_def member_args_no_brace)
qed

lemma member_ids_no_brace:
  "no_brace (fst st) \<Longrightarrow> no_brace (snd st) \<Longrightarrow> no_brace content \<Longrightarrow> \<forall>x \<in> set ids. no_brace x \<Longrightarrow>
   no_brace (fst (foldl (member_id content) st ids)) \<and> no_brace (snd (foldl (member_id content) st ids))"
proof (induction ids arbitrary: st)
  case Nil
  then show ?case by simp
next
  case (Cons x ids)
  then show ?case using member_id_no_brace [of st content x] by simp
qed

lemma new_member_no_brace:
  "no_brace dtype \<Longrightarrow> no_brace content \<Longrightarrow> no_brace rest \<Longrightarrow>
   no_brace (new_member [dtype, name, lbr, content, rbr, rest, semi])"
  using member_ids_no_brace [of "([], dtype)" content "split_on (CHR '','') rest"] no_brace_split
  by (auto simp: new_member_def)

section \<open>The tuples are the matched texts\<close>

text \<open>A pattern that is a sequence of groups: its match is the concatenation of the groups.\<close>

fun grp_seq :: "nat \<Rightarrow> regex list \<Rightarrow> regex" where
  "grp_seq n [] = REmpty"
| "grp_seq n [r] = RGroup n r"
| "grp_seq n (r # rs) = RSeq (RGroup n r) (grp_seq (Suc n) rs)"

lemma step_group_text1:
  assumes "step_re (RGroup n r) (q, s, g0) (v, s', g)" and "no_grp r"
  shows "\<exists>t. s = t @ s' \<and> t \<in> lang r \<and> g = g0(n := Some t)"
proof -
  from assms(1) obtain g1 where g1: "step_re r (q, s, g0) (v, s', g1)"
    "g = g1(n := Some (take (length s - length s') s))" unfolding step_re_simps(8) by blast
  from step_lang [OF g1(1)] obtain t where t: "t \<in> lang r" "s = t @ s'" by (auto simp: consumed_def)
  with g1 no_grp_step [OF g1(1) assms(2)] show ?thesis by auto
qed

lemma step_grp_seq:
  "step_re (grp_seq n rs) (q, s, g0) (v, s', g) \<Longrightarrow> list_all no_grp rs \<Longrightarrow>
   \<exists>ts. length ts = length rs \<and> s = concat ts @ s' \<and> (\<forall>i < length rs. g (n + i) = Some (ts ! i) \<and> ts ! i \<in> lang (rs ! i)) \<and>
     (\<forall>m < n. g m = g0 m)"
proof (induction n rs arbitrary: q s g0 rule: grp_seq.induct)
  case (1 n)
  then show ?case by (simp add: re_set)
next
  case (2 n r)
  then obtain t where "s = t @ s' \<and> t \<in> lang r \<and> g = g0(n := Some t)" using step_group_text1 by fastforce
  then show ?case by (intro exI [of _ "[t]"]) simp
next
  case (3 n r r' rs)
  from "3.prems"(1) obtain d where d: "step_re (RGroup n r) (q, s, g0) d" "step_re (grp_seq (Suc n) (r' # rs)) d (v, s', g)"
    unfolding grp_seq.simps step_re_simps(6) by blast
  obtain p1 s1 g1 where [simp]: "d = (p1, s1, g1)" by (cases d)
  from step_group_text1 [OF d(1) [simplified]] "3.prems"(2) obtain t
    where t: "s = t @ s1" "t \<in> lang r" "g1 = g0(n := Some t)" by auto
  from "3.IH" [OF d(2) [simplified]] "3.prems"(2) obtain ts where ts: "length ts = length (r' # rs)" "s1 = concat ts @ s'"
    "\<forall>i < length (r' # rs). g (Suc n + i) = Some (ts ! i) \<and> ts ! i \<in> lang ((r' # rs) ! i)" "\<forall>m < Suc n. g m = g1 m" by auto
  show ?case
  proof (intro exI [of _ "t # ts"] conjI allI impI)
    fix i assume "i < length (r # r' # rs)"
    then show "g (n + i) = Some ((t # ts) ! i)" "(t # ts) ! i \<in> lang ((r # r' # rs) ! i)"
      using ts(3,4) t(2,3) by (cases i; auto)+
  qed (use ts t in auto)
qed

text \<open>A pattern whose matches cannot contain a character.\<close>

primrec avoids :: "char \<Rightarrow> regex \<Rightarrow> bool" where
  "avoids c REmpty = True"
| "avoids c (RAtom ic a) = (\<not> atom_ok ic a c)"
| "avoids c (RBol m) = True"
| "avoids c (REol m) = True"
| "avoids c RWordB = True"
| "avoids c (RSeq r1 r2) = (avoids c r1 \<and> avoids c r2)"
| "avoids c (RAlt r1 r2) = (avoids c r1 \<and> avoids c r2)"
| "avoids c (RStar r) = avoids c r"
| "avoids c (RLazy r) = avoids c r"
| "avoids c (RGroup n r) = avoids c r"

lemma avoids_lang: "avoids c r \<Longrightarrow> t \<in> lang r \<Longrightarrow> c \<notin> set t"
proof (induction r arbitrary: t)
  case (RStar r)
  then show ?case by (fastforce simp: subset_iff)
next
  case (RLazy r)
  then show ?case by (fastforce simp: subset_iff)
qed auto

definition struct_bodies :: "regex list" where
  "struct_bodies =
     [RAlt (lit ''struct'') (lit ''union''),
      plus1 (RAtom False (A_set True [CI_chr (CHR ''{''), CI_chr (CHR ''}''), CI_chr (CHR '';'')])),
      chr (CHR ''{''),
      RStar (RAtom False (A_set True [CI_chr (CHR ''{''), CI_chr (CHR ''}'')])),
      chr (CHR ''}''),
      RStar (RAtom False (A_set True [CI_chr (CHR ''{''), CI_chr (CHR ''}''), CI_chr (CHR '';'')])),
      chr (CHR '';'')]"

lemma struct_members_prog: "struct_members = grp_seq 1 struct_bodies"
  by code_simp

lemma struct_bodies_facts:
  "list_all no_grp struct_bodies" "avoids (CHR ''{'') (struct_bodies ! 0)" "avoids (CHR ''{'') (struct_bodies ! 3)"
  "avoids (CHR ''{'') (struct_bodies ! 5)" "struct_bodies ! 2 = chr (CHR ''{'')"
  by code_simp+

lemma struct_bodies_len: "length struct_bodies = 7"
  by (simp add: struct_bodies_def)

lemma segs_text_occurs: "(pre, t, g) \<in> set segs \<Longrightarrow> \<exists>a b. segs_text segs = a @ t @ b"
proof -
  assume "(pre, t, g) \<in> set segs"
  then obtain xs ys where "segs = xs @ (pre, t, g) # ys" by (auto simp: in_set_conv_decomp)
  then have "segs_text segs = (segs_text xs @ pre) @ t @ segs_text ys" by (simp add: segs_text_def)
  then show ?thesis by blast
qed

lemma findall_tuple:
  assumes "tu \<in> set (re_findall struct_members 7 s)"
  shows "(\<exists>a b. s = a @ concat tu @ b) \<and> CHR ''{'' \<in> set (concat tu) \<and> no_brace (new_member tu)"
proof -
  obtain segs tail where sc: "re_scan struct_members s = (segs, tail)" by (cases "re_scan struct_members s")
  from assms obtain m where m: "m \<in> set (seg_matches 0 segs)" "tu = map (m_str m) [1..<8]"
    by (auto simp: re_findall_def re_finditer_def sc)
  from seg_matches_in [OF m(1)] obtain k pre t g where mm: "m = PyMatch k t g" "(pre, t, g) \<in> set segs" by blast
  from scan_langs [OF sc [unfolded re_scan_def] mm(2)] obtain q u v
    where st: "step_re (grp_seq 1 struct_bodies) (q, t @ u, no_groups) (v, u, g)" by (auto simp: struct_members_prog)
  from step_grp_seq [OF st struct_bodies_facts(1)] obtain ts where "length ts = length struct_bodies"
    "t @ u = concat ts @ u" "\<forall>i < length struct_bodies. g (1 + i) = Some (ts ! i) \<and> ts ! i \<in> lang (struct_bodies ! i)" by blast
  then have ts: "length ts = 7" "t = concat ts"
    "\<And>i. i < 7 \<Longrightarrow> g (1 + i) = Some (ts ! i) \<and> ts ! i \<in> lang (struct_bodies ! i)" by (simp_all add: struct_bodies_len)
  have "tu = ts"
  proof (rule nth_equalityI)
    fix i assume "i < length tu"
    then have i: "i < 7" by (simp add: m(2))
    then show "tu ! i = ts ! i" using ts(3) by (simp add: m(2) mm(1) m_str_def m_group_def)
  qed (simp add: m(2) ts(1))
  moreover have "\<exists>a b. s = a @ t @ b"
    using segs_text_occurs [OF mm(2)] scan_text [OF sc [unfolded re_scan_def]] by (metis append.assoc)
  moreover have "ts ! 2 = ''{''" using ts(3) [of 2] struct_bodies_facts(5) by (simp add: chr_def)
  then have "''{'' \<in> set ts" using nth_mem [of 2 ts] ts(1) by simp
  then have "CHR ''{'' \<in> set (concat ts)" unfolding set_concat by (rule UN_I) simp
  moreover have "no_brace (new_member ts)"
  proof -
    have "no_brace (ts ! 0)" "no_brace (ts ! 3)" "no_brace (ts ! 5)"
      using ts(3) [of 0] ts(3) [of 3] ts(3) [of 5] struct_bodies_facts(2-4) avoids_lang unfolding no_brace_def by simp_all
    moreover have "ts = [ts ! 0, ts ! 1, ts ! 2, ts ! 3, ts ! 4, ts ! 5, ts ! 6]"
      using ts(1) by (intro nth_equalityI) (auto simp: less_Suc_eq numeral_eq_Suc)
    ultimately show ?thesis using new_member_no_brace by metis
  qed
  ultimately show ?thesis using ts(2) by simp
qed

lemma concat_replace_count:
  "\<forall>tu \<in> set tus. concat tu \<noteq> [] \<and> no_brace (new_member tu) \<Longrightarrow>
   count_list (rewrite_round s tus) (CHR ''{'') \<le> count_list s (CHR ''{'')"
proof (induction tus arbitrary: s)
  case Nil
  show ?case by (simp add: rewrite_round_def)
next
  case (Cons tu tus)
  have "count_list (replace s (concat tu) (new_member tu)) (CHR ''{'') \<le> count_list s (CHR ''{'')"
    using Cons.prems by (intro replace_count) (auto simp: no_brace_def)
  with Cons.IH [of "replace s (concat tu) (new_member tu)"] Cons.prems show ?case
    by (simp add: rewrite_round_def)
qed

lemma rewrite_round_less:
  assumes "re_findall struct_members 7 s \<noteq> []"
  shows "count_list (rewrite_round s (re_findall struct_members 7 s)) (CHR ''{'') < count_list s (CHR ''{'')"
proof -
  obtain tu tus where tus: "re_findall struct_members 7 s = tu # tus" using assms by (cases "re_findall struct_members 7 s") auto
  have all: "\<forall>x \<in> set (tu # tus). concat x \<noteq> [] \<and> no_brace (new_member x)"
    using findall_tuple [of _ s] unfolding tus by fastforce
  let ?s = "replace s (concat tu) (new_member tu)"
  from findall_tuple [of tu s] tus obtain a b where ab: "s = a @ concat tu @ b" "CHR ''{'' \<in> set (concat tu)"
    "no_brace (new_member tu)" by auto
  have "count_list ?s (CHR ''{'') < count_list s (CHR ''{'')"
    by (rule replace_less [OF ab(2) _ ab(1)]) (use ab(3) in \<open>simp add: no_brace_def\<close>)
  moreover have "count_list (rewrite_round ?s tus) (CHR ''{'') \<le> count_list ?s (CHR ''{'')"
    using all by (intro concat_replace_count) simp
  ultimately show ?thesis unfolding tus by (simp add: rewrite_round_def)
qed

function rewrite_struct_members :: "string \<Rightarrow> string" where
  "rewrite_struct_members members =
     (let tuples = re_findall struct_members 7 members in
      if tuples = [] then members else rewrite_struct_members (rewrite_round members tuples))"
  by pat_completeness auto
termination
  by (relation "measure (\<lambda>s. count_list s (CHR ''{''))") (simp_all add: rewrite_round_less)

declare rewrite_struct_members.simps [simp del]

section \<open>Formatting a declaration\<close>

definition RE_OPEN_END :: regex where "RE_OPEN_END = re (rx ''([~{;])'')"
definition RE_CLOSE_END :: regex where "RE_CLOSE_END = re (rx ''~}~s+;'')"
definition RE_ENUM_COMMA :: regex where "RE_ENUM_COMMA = re (rx ''(enum~s+~{[^~}]+),([^~n])'')"

text \<open>The commas that are not at the end of a line, given whether a comma precedes the text.\<close>

fun inner_commas :: "bool \<Rightarrow> string \<Rightarrow> nat" where
  "inner_commas b [] = 0"
| "inner_commas b (c # s) = (if b \<and> c \<noteq> NL then 1 else 0) + inner_commas (c = CHR '','') s"

definition after_comma :: "bool \<Rightarrow> string \<Rightarrow> bool" where
  "after_comma b s = (if s = [] then b else last s = CHR '','')"

interpretation commas: ctx_weight inner_commas after_comma
proof
  show "inner_commas c (x @ y) = inner_commas c x + inner_commas (after_comma c x) y" for c x y
    by (induction x arbitrary: c) (auto simp: after_comma_def)
  show "after_comma c (x @ y) = after_comma (after_comma c x) y" for c x y
    by (simp add: after_comma_def)
qed

lemma enum_comma_prog: "\<exists>r. no_grp r \<and> RE_ENUM_COMMA = RSeq (RGroup 1 r)
    (RSeq (RAtom False (A_chr (CHR '',''))) (RGroup 2 (RAtom False (A_set True [CI_chr NL]))))"
proof -
  let ?r = "seqs [chr (CHR ''e''), chr (CHR ''n''), chr (CHR ''u''), chr (CHR ''m''), plus1 (itm [CI_space]), chr (CHR ''{''),
    plus1 (RAtom False (A_set True [CI_chr (CHR ''}'')]))]"
  have "no_grp ?r \<and> RE_ENUM_COMMA = RSeq (RGroup 1 ?r)
      (RSeq (RAtom False (A_chr (CHR '',''))) (RGroup 2 (RAtom False (A_set True [CI_chr NL]))))"
    by code_simp
  then show ?thesis by blast
qed

lemma enum_comma_step:
  assumes "step_re RE_ENUM_COMMA (q, t @ u, no_groups) (v, u, g)"
  shows "\<exists>t1 c. t = t1 @ '','' @ [c] \<and> c \<noteq> NL \<and> g 1 = Some t1 \<and> g 2 = Some [c]"
proof -
  obtain r where ng: "no_grp r" and r: "RE_ENUM_COMMA = RSeq (RGroup 1 r)
    (RSeq (RAtom False (A_chr (CHR '',''))) (RGroup 2 (RAtom False (A_set True [CI_chr NL]))))" using enum_comma_prog by blast
  from assms[unfolded r] obtain d1 d2 where d: "step_re (RGroup 1 r) (q, t @ u, no_groups) d1"
    "step_re (RAtom False (A_chr (CHR '',''))) d1 d2" "step_re (RGroup 2 (RAtom False (A_set True [CI_chr NL]))) d2 (v, u, g)"
    unfolding step_re_simps(6) by blast
  obtain p1 s1 g1 where [simp]: "d1 = (p1, s1, g1)" by (cases d1)
  obtain p2 s2 g2 where [simp]: "d2 = (p2, s2, g2)" by (cases d2)
  from step_group_text1 [OF d(1) [simplified] ng] obtain t1 where t1: "t @ u = t1 @ s1" "g1 = no_groups(1 := Some t1)" by auto
  from d(2) have s1: "s1 = CHR '','' # s2" "g2 = g1" by (auto simp: re_set)
  from step_group_text1 [OF d(3) [simplified]] obtain x where x: "s2 = x @ u" "x \<in> lang (RAtom False (A_set True [CI_chr NL]))"
    "g = g2(2 := Some x)" by auto
  from x(2) obtain c where c: "x = [c]" "c \<noteq> NL" by auto
  have "t = t1 @ '','' @ [c]" using t1(1) s1(1) x(1) c(1) by simp
  then show ?thesis using c x(3) s1(2) t1(2) by auto
qed

lemma enum_comma_less:
  assumes "re_search RE_ENUM_COMMA s \<noteq> None"
  shows "inner_commas b (re_sub RE_ENUM_COMMA (rx ''~1,~n~2'') s) < inner_commas b s"
proof (rule commas.re_sub_less [OF _ assms])
  fix q t u v g b
  assume "step_re RE_ENUM_COMMA (q, t @ u, no_groups) (v, u, g)"
  from enum_comma_step [OF this] obtain t1 c where t: "t = t1 @ '','' @ [c]" "c \<noteq> NL" "g 1 = Some t1" "g 2 = Some [c]" by blast
  have tp: "parse_tpl (rx ''~1,~n~2'') = [T_grp 1, T_chr (CHR '',''), T_chr NL, T_grp 2]" by code_simp
  show "inner_commas b (expand (parse_tpl (rx ''~1,~n~2'')) g) < inner_commas b t \<and>
      after_comma b (expand (parse_tpl (rx ''~1,~n~2'')) g) = after_comma b t"
    unfolding tp using t by (simp add: commas.w_append after_comma_def)
qed

function split_enums :: "string \<Rightarrow> string" where
  "split_enums declaration = (if re_search RE_ENUM_COMMA declaration = None then declaration
     else split_enums (re_sub RE_ENUM_COMMA (rx ''~1,~n~2'') declaration))"
  by pat_completeness auto
termination
  by (relation "measure (inner_commas False)") (simp_all add: enum_comma_less)

declare split_enums.simps [simp del]

text \<open>One clause on a line of its own, indented by the level.\<close>

definition format_clause :: "nat \<times> string \<Rightarrow> string \<Rightarrow> nat \<times> string" where
  "format_clause st clause0 = (case st of (level, out) \<Rightarrow>
     (let clause = re_subn RE_SPACES '' '' 1 (strip clause0) in
      if clause = [] then st
      else (let level1 = (if CHR ''}'' \<in> set clause \<and> 1 < level then level - 1 else level) in
        (if CHR ''{'' \<in> set clause \<and> CHR ''}'' \<notin> set clause then level1 + 1 else level1,
         out @ (if startswith clause ''#'' then [] else replicate level1 TAB) @ [TAB] @ clause @ [NL]))))"

definition format_struct_decl :: "string \<Rightarrow> string" where
  "format_struct_decl declaration =
     snd (foldl format_clause (1, [])
       (split_on NL (split_enums (re_sub RE_CLOSE_END ''};'' (re_sub RE_OPEN_END (rx ''~1~n'') declaration)))))"

section \<open>What the loops leave\<close>


text \<open>
  Putting the values of inline enumerations on lines of their own ends, and no value then
  follows a comma on the same line.
\<close>

theorem split_enums_done: "re_search RE_ENUM_COMMA (split_enums s) = None"
  by (induction s rule: split_enums.induct) (simp add: split_enums.simps)

text \<open>The indentation of a formatted structure never drops below one.\<close>

lemma format_level: "1 \<le> fst st \<Longrightarrow> 1 \<le> fst (foldl format_clause st cs)"
proof (induction cs arbitrary: st)
  case Nil
  then show ?case by simp
next
  case (Cons c cs)
  have "1 \<le> fst (format_clause st c)" using Cons.prems by (cases st) (auto simp: format_clause_def Let_def)
  with Cons.IH show ?case by simp
qed

text \<open>
  The type of a structure member that follows a function-pointer member is lost: with two
  declarators, the second one is emitted with the type of the function pointer instead of
  \<open>struct\<close>.
\<close>

theorem second_declarator_type:
  "new_member [''struct'', '' '', ''{'', ''int (*f)(void);'', ''}'', '' a, b'', '';''] =
     ''struct a; int (*a.f)(void); ; int (* b; int (*b.f)(void); ; ''"
  by code_simp

end
