(* ===== verification/Kdoc_Dump.thy ===== *)
theory Kdoc_Dump
  imports Kdoc_Struct
begin

text \<open>
  The parser object \<^verbatim>\<open>KernelDoc\<close> and the operations that turn a complete prototype into an item:
  \<^verbatim>\<open>output_declaration\<close>, \<^verbatim>\<open>reset_state\<close> and the \<^verbatim>\<open>dump_\<close> family of \<^verbatim>\<open>kdoc_parser.py\<close>. An
  entry is copied into its item where the code shares the objects: nothing changes an entry between
  the output of its item and the reset that replaces it.
\<close>

section \<open>The parser object\<close>

datatype pstate =
    S_NORMAL | S_NAME | S_DECLARATION | S_BODY | S_SPECIAL_SECTION | S_PROTO | S_DOCBLOCK
  | S_INLINE_NAME | S_INLINE_TEXT

record config =
  cf_wreturn :: bool
  cf_wshort_desc :: bool
  cf_verbose :: bool

text \<open>What goes to the log; \<open>Cfg_warning\<close> is a warning that went through \<^verbatim>\<open>config.warning\<close>, which counts it.\<close>

datatype log_msg = Log_warning string | Log_info string | Log_error string | Cfg_warning string

record kdoc =
  k_fname :: string
  k_config :: config
  k_store_src :: bool
  k_state :: pstate
  k_entry :: "entry option"
  k_entries :: "kdoc_item list"
  k_log :: "log_msg list"

definition kdoc_init :: "config \<Rightarrow> string \<Rightarrow> bool \<Rightarrow> kdoc" where
  "kdoc_init cf fname store_src =
     \<lparr>k_fname = fname, k_config = cf, k_store_src = store_src, k_state = S_NORMAL, k_entry = None,
      k_entries = [], k_log = []\<rparr>"

text \<open>Access to \<^verbatim>\<open>self.entry\<close>, which is \<^verbatim>\<open>None\<close> until the first entry.\<close>

definition upd_entry :: "(entry \<Rightarrow> entry) \<Rightarrow> kdoc \<Rightarrow> kdoc res" where
  "upd_entry f k = rbind (attr (k_entry k)) (\<lambda>e. Inr (k\<lparr>k_entry := Some (f e)\<rparr>))"

definition upd_entry_res :: "(entry \<Rightarrow> entry res) \<Rightarrow> kdoc \<Rightarrow> kdoc res" where
  "upd_entry_res f k = rbind (attr (k_entry k)) (\<lambda>e. rbind (f e) (\<lambda>e'. Inr (k\<lparr>k_entry := Some e'\<rparr>)))"

definition get_entry :: "(entry \<Rightarrow> 'a) \<Rightarrow> kdoc \<Rightarrow> 'a res" where
  "get_entry f k = rbind (attr (k_entry k)) (\<lambda>e. Inr (f e))"

definition get_attr :: "(entry \<Rightarrow> 'a option) \<Rightarrow> kdoc \<Rightarrow> 'a res" where
  "get_attr f k = rbind (attr (k_entry k)) (\<lambda>e. attr (f e))"

text \<open>\<^verbatim>\<open>emit_msg\<close>: a warning goes to the entry, if there is one; an information always to the log.\<close>

definition emit_msg :: "nat \<Rightarrow> string \<Rightarrow> kdoc \<Rightarrow> kdoc" where
  "emit_msg ln msg k = (case k_entry k of
      Some e \<Rightarrow> k\<lparr>k_entry := Some (entry_warn ln msg e)\<rparr>
    | None \<Rightarrow> k\<lparr>k_log := k_log k @ [Log_warning (log_line (k_fname k) ln msg)]\<rparr>)"

definition emit_info :: "nat \<Rightarrow> string \<Rightarrow> kdoc \<Rightarrow> kdoc" where
  "emit_info ln msg k = k\<lparr>k_log := k_log k @ [Log_info (log_line
     (case k_entry k of Some e \<Rightarrow> e_fname e | None \<Rightarrow> k_fname k) ln msg)]\<rparr>"

definition kdoc_dump_section :: "kdoc \<Rightarrow> kdoc res" where
  "kdoc_dump_section k = (case k_entry k of
      None \<Rightarrow> Inr k
    | Some e \<Rightarrow> rbind (dump_section True e) (\<lambda>e'. Inr (k\<lparr>k_entry := Some e'\<rparr>)))"

section \<open>Output\<close>

definition drop_empty :: "(string, string) dict \<Rightarrow> string \<Rightarrow> (string, string) dict" where
  "drop_empty sections section = (case dict_get sections section of
      Some text \<Rightarrow> if rstrip text = [] then dict_del sections section else sections
    | None \<Rightarrow> sections)"

definition output_declaration :: "string \<Rightarrow> string \<Rightarrow> (string \<times> pyval) list \<Rightarrow> kdoc \<Rightarrow> kdoc res" where
  "output_declaration dtype name args k = rbind (attr (k_entry k)) (\<lambda>e.
     let item0 = kdoc_item_init name (k_fname k) dtype (int (e_start_line e)) args;
         item1 = item0\<lparr>it_warnings := e_warnings e\<rparr>;
         sections = foldl drop_empty (e_sections e) [''Description'', ''Return''];
         item2 = set_sections item1 sections (e_sections_lines e);
         item3 = set_params item2 (e_parameterlist e) (e_parameterdescs e) (e_parametertypes e) (e_paramdesc_lines e) in
     Inr (k\<lparr>k_entry := Some (e\<lparr>e_sections := sections\<rparr>), k_entries := k_entries k @ [item3]\<rparr>))"

text \<open>
  \<^verbatim>\<open>emit_unused_warnings\<close>. The test \<^verbatim>\<open>self.entry not in self.entries\<close> compares an entry with items,
  so it always holds.
\<close>

definition emit_unused_warnings :: "kdoc \<Rightarrow> kdoc" where
  "emit_unused_warnings k = (case k_entry k of
      None \<Rightarrow> k
    | Some e \<Rightarrow> k\<lparr>k_log := k_log k @ map Cfg_warning (e_warnings e)\<rparr>)"

definition reset_state :: "nat \<Rightarrow> kdoc \<Rightarrow> kdoc" where
  "reset_state ln k = (emit_unused_warnings k)\<lparr>k_entry := Some (entry_init (k_fname k) ln), k_state := S_NORMAL\<rparr>"

section \<open>Structures, enumerations, variables\<close>

definition text_of :: "ctext res \<Rightarrow> string res" where
  "text_of x = rbind x (\<lambda>t. Inr (ctext_str t))"

definition RE_BRACES :: regex where "RE_BRACES = re (rx ''(~{[^~{~}]*~})'')"

definition dump_struct :: "nat \<Rightarrow> string \<Rightarrow> string \<Rightarrow> kdoc \<Rightarrow> kdoc res" where
  "dump_struct ln proto0 source k =
     (let proto = trim_private_members proto0 in
      case split_struct_proto proto of
        None \<Rightarrow> Inr (emit_msg ln (proto @ '' error: Cannot parse struct or union!'') k)
      | Some (decl_type, declaration_name, members0) \<Rightarrow>
        rbind (get_attr e_identifier k) (\<lambda>ident.
        if ident \<noteq> declaration_name then
          Inr (emit_msg ln (''expecting prototype for '' @ decl_type @ '' '' @ ident @ ''. '' @
            ''Prototype was for '' @ decl_type @ '' '' @ declaration_name @ '' instead'' @ [NL]) k)
        else
          rbind (text_of (ctrans_apply ''struct'' (Text members0))) (\<lambda>declaration.
          rbind (upd_entry (\<lambda>e. check_sections ln declaration_name decl_type
            (create_parameter_list ln decl_type (re_sub RE_BRACES [] (rewrite_struct_members declaration)) (CHR '';'')
              declaration_name e)) k) (\<lambda>k1.
          rbind (get_attr e_purpose k1) (\<lambda>purpose.
          output_declaration decl_type declaration_name
            [(''source'', V_str source), (''definition'', V_str (format_struct_decl declaration)), (''purpose'', V_str purpose)] k1)))))"

definition RE_ENUM_CPP :: regex where
  "RE_ENUM_CPP = prog (rx ''#~s*((define|ifdef|if)~s+|endif)[^;]*;'') (no_flags\<lparr>fl_s := True\<rparr>)"
definition RE_ENUM_TYPEDEF :: regex where "RE_ENUM_TYPEDEF = re (rx ''typedef~s+enum~s*~{(.*)~}~s*(~w*)~s*;'')"
definition RE_ENUM_PLAIN :: regex where "RE_ENUM_PLAIN = re (rx ''enum~s+(~w*)~s*~{(.*)~}'')"
definition RE_ENUM_PARENS :: regex where "RE_ENUM_PARENS = re (rx ''~([^;)]*~)'')"
definition RE_ENUM_NAME :: regex where "RE_ENUM_NAME = re (rx ''^~s*(~w+).*'')"

text \<open>The name and the members of an enumeration.\<close>

definition split_enum :: "string \<Rightarrow> (string \<times> string) option" where
  "split_enum proto = (case re_search RE_ENUM_TYPEDEF proto of
      Some m \<Rightarrow> Some (m_str m 2, m_str m 1)
    | None \<Rightarrow>
      (case re_match RE_ENUM_PLAIN proto of
         Some m \<Rightarrow> Some (m_str m 1, m_str m 2)
       | None \<Rightarrow> None))"

definition enum_value :: "nat \<Rightarrow> string \<Rightarrow> entry \<Rightarrow> string \<Rightarrow> entry" where
  "enum_value ln declaration_name e arg =
     (let e1 = e\<lparr>e_parameterlist := e_parameterlist e @ [arg]\<rparr> in
      if dict_has (e_parameterdescs e1) arg then e1
      else entry_warn ln (''Enum value '' @ quoted arg @ '' not described in enum '' @ quoted declaration_name)
             (describe arg undescribed e1))"

definition enum_args :: "string \<Rightarrow> string list" where
  "enum_args members = filter (\<lambda>a. strip a \<noteq> [])
     (map (re_sub RE_ENUM_NAME (rx ''~1'')) (split_on (CHR '','') (re_sub RE_ENUM_PARENS [] members)))"

definition enum_excess :: "nat \<Rightarrow> string \<Rightarrow> string list \<Rightarrow> entry \<Rightarrow> string \<Rightarrow> entry" where
  "enum_excess ln declaration_name member_set e key =
     (if key \<in> set member_set then e
      else entry_warn ln (''Excess enum value '' @ quoted (''@'' @ key) @ '' description in '' @ quoted declaration_name) e)"

definition enum_members :: "nat \<Rightarrow> string \<Rightarrow> string \<Rightarrow> entry \<Rightarrow> entry" where
  "enum_members ln declaration_name members e =
     (let args = enum_args members;
          e1 = foldl (enum_value ln declaration_name) e args in
      foldl (enum_excess ln declaration_name args) e1 (dict_keys (e_parameterdescs e1)))"

definition dump_enum :: "nat \<Rightarrow> string \<Rightarrow> string \<Rightarrow> kdoc \<Rightarrow> kdoc res" where
  "dump_enum ln proto0 source k =
     (let proto = re_sub RE_ENUM_CPP [] (trim_private_members proto0) in
      case split_enum proto of
        None \<Rightarrow> Inr (emit_msg ln (proto @ '': error: Cannot parse enum!'') k)
      | Some (declaration_name0, members) \<Rightarrow>
        rbind (get_attr e_identifier k) (\<lambda>ident.
        if ident \<noteq> declaration_name0 then
          Inr (emit_msg ln
            (if ident = [] then proto @ '': wrong kernel-doc identifier on prototype''
             else ''expecting prototype for enum '' @ ident @ ''. '' @ ''Prototype was for enum '' @ declaration_name0 @ '' instead'') k)
        else (let declaration_name = (if declaration_name0 = [] then ''(anonymous)'' else declaration_name0) in
          rbind (upd_entry (enum_members ln declaration_name members) k) (\<lambda>k1.
          rbind (get_attr e_purpose k1) (\<lambda>purpose.
          output_declaration ''enum'' declaration_name [(''source'', V_str source), (''purpose'', V_str purpose)] k1)))))"

definition RE_VAR_MACRO :: regex where "RE_VAR_MACRO = re (rx ''DEFINE_[~w_]+~s*~(([~w_]+)~)'')"
definition OPTIONAL_VAR_ATTR_s :: string where
  "OPTIONAL_VAR_ATTR_s = rx ''^(?:~b(?:'' @ join ''|'' [''extern'', ''const''] @ rx '')~b~s*)*''"
definition RE_VAR1 :: regex where
  "RE_VAR1 = re (OPTIONAL_VAR_ATTR_s @ rx ''~s*[~w_~s]*~s+(?:~*+)?([~w_]+)~s*[~d~]~[]*~s*(=.*)?'')"
definition RE_VAR2 :: regex where
  "RE_VAR2 = re (OPTIONAL_VAR_ATTR_s @ rx ''(?:[~w_~s]*)?~s+(?:~*+)?(?:[~w_]+)~s*[~d~]~[]*~s*(=.*)?'')"

definition lstrip_char :: "char \<Rightarrow> string \<Rightarrow> string" where
  "lstrip_char x s = lstrip_by (\<lambda>c. c = x) s"

text \<open>The name and the default value of a variable declaration.\<close>

definition split_var :: "string option \<Rightarrow> string \<Rightarrow> string option \<times> string option" where
  "split_var name proto = (case re_match RE_VAR1 proto of
      Some m \<Rightarrow> (if name = None then Some (m_str m 1) else name, m_group m 2)
    | None \<Rightarrow>
      (case re_match RE_VAR2 proto of
         Some m \<Rightarrow> (name, m_group m 1)
       | None \<Rightarrow> (name, None)))"

definition default_val :: "string option \<Rightarrow> pyval" where
  "default_val v = (case v of None \<Rightarrow> V_none | Some t \<Rightarrow> V_str (if t = [] then [] else strip (lstrip_char (CHR ''='') t)))"

definition dump_var :: "nat \<Rightarrow> string \<Rightarrow> string \<Rightarrow> kdoc \<Rightarrow> kdoc res" where
  "dump_var ln proto0 source k =
     (let macro = (case re_search RE_VAR_MACRO proto0 of Some m \<Rightarrow> Some (m_str m 1) | None \<Rightarrow> None) in
      rbind (if macro = None then text_of (ctrans_apply ''var'' (Text proto0)) else Inr proto0) (\<lambda>proto1.
      (case split_var macro (rstrip proto1) of
         (None, _) \<Rightarrow> Inr (emit_msg ln (rstrip proto1 @ '': can'' @ [CHR 0x27] @ ''t parse variable'') k)
       | (Some declaration_name, v) \<Rightarrow>
         rbind (get_attr e_purpose k) (\<lambda>purpose.
         output_declaration ''var'' declaration_name
           [(''source'', V_str source), (''full_proto'', V_str proto0), (''default_val'', default_val v),
            (''purpose'', V_str purpose)] k))))"

section \<open>Functions and typedefs\<close>

definition RE_DEFINE_HEAD :: regex where "RE_DEFINE_HEAD = re (rx ''^#~s*define~s+'')"
definition RE_MACRO_NAME :: regex where "RE_MACRO_NAME = re (rx ''^(~w+)~s+'')"
definition proto_args_s :: string where "proto_args_s = rx ''~(([^~(]*|.*)~)''"

definition func_patterns :: "regex list" where
  "func_patterns =
     [re (rx ''^()(~w+)~s*'' @ proto_args_s),
      re (rx ''^((?:[~w~s]+)?)~s+(~w+)~s*'' @ proto_args_s),
      re (rx ''^((?:[~w~s]+~*+)+)~s*(~w+)~s*'' @ proto_args_s)]"

text \<open>The macro without arguments, and the first pattern that matches: return type, name, arguments.\<close>

definition split_function :: "string \<Rightarrow> (string \<times> string \<times> string) option" where
  "split_function prototype = first_some (\<lambda>r. case re_match r prototype of
      Some m \<Rightarrow> Some (m_str m 1, m_str m 2, m_str m 3) | None \<Rightarrow> None) func_patterns"

definition simple_macro :: "string \<Rightarrow> string option" where
  "simple_macro prototype = (case re_search RE_MACRO_NAME prototype of Some m \<Rightarrow> Some (m_str m 1) | None \<Rightarrow> None)"

text \<open>What is done once the prototype is split.\<close>

definition finish_function :: "nat \<Rightarrow> string \<Rightarrow> string \<Rightarrow> string \<Rightarrow> bool \<Rightarrow> kdoc \<Rightarrow> kdoc res" where
  "finish_function ln source return_type declaration_name func_macro k =
     rbind (get_attr e_identifier k) (\<lambda>ident.
     if ident \<noteq> declaration_name then
       Inr (emit_msg ln (''expecting prototype for '' @ ident @ ''(). '' @ ''Prototype was for '' @ declaration_name @ ''() instead'') k)
     else
       rbind (upd_entry (\<lambda>e. check_return_section (cf_wreturn (k_config k)) ln declaration_name return_type
         (check_sections ln declaration_name ''function'' e)) k) (\<lambda>k1.
       rbind (get_attr e_purpose k1) (\<lambda>purpose.
       output_declaration ''function'' declaration_name
         [(''source'', V_str source), (''typedef'', V_bool (contains return_type ''typedef'')),
          (''functiontype'', V_str return_type), (''purpose'', V_str purpose), (''func_macro'', V_bool func_macro)] k1)))"

definition dump_function_args :: "nat \<Rightarrow> string \<Rightarrow> string \<Rightarrow> kdoc \<Rightarrow> kdoc res" where
  "dump_function_args ln prototype source k = (case split_function prototype of
      None \<Rightarrow> Inr (emit_msg ln (''cannot understand function prototype: '' @ quoted prototype) k)
    | Some (return_type, declaration_name, args) \<Rightarrow>
      rbind (upd_entry (create_parameter_list ln ''function'' args (CHR '','') declaration_name) k)
        (finish_function ln source return_type declaration_name False))"

definition dump_function :: "nat \<Rightarrow> string \<Rightarrow> string \<Rightarrow> kdoc \<Rightarrow> kdoc res" where
  "dump_function ln prototype0 source k =
     (let new_proto = re_sub RE_DEFINE_HEAD [] prototype0 in
      if new_proto \<noteq> prototype0 then
        (case simple_macro new_proto of
           Some declaration_name \<Rightarrow> finish_function ln source [] declaration_name True k
         | None \<Rightarrow> dump_function_args ln new_proto source k)
      else
        rbind (text_of (ctrans_apply ''func'' (Text prototype0))) (\<lambda>prototype.
          dump_function_args ln prototype source k))"

definition typedef_type_s :: string where "typedef_type_s = rx ''typedef((?:~s+[~w*]+~b){0,7}~s+(?:~w+~b|~*+))~s*''"
definition typedef_ident_s :: string where "typedef_ident_s = rx ''~*?~s*(~w~S+)~s*''"
definition typedef_args_s :: string where "typedef_args_s = rx ''~s*~((.*)~);''"

definition typedef_patterns :: "regex list" where
  "typedef_patterns =
     [re (typedef_type_s @ rx ''~('' @ typedef_ident_s @ rx ''~)'' @ typedef_args_s),
      re (typedef_type_s @ typedef_ident_s @ typedef_args_s)]"

definition split_func_typedef :: "string \<Rightarrow> (string \<times> string \<times> string) option" where
  "split_func_typedef proto = first_some (\<lambda>r. case re_match r proto of
      Some m \<Rightarrow> Some (strip (m_str m 1), m_str m 2, m_str m 3) | None \<Rightarrow> None) typedef_patterns"

definition RE_TYPEDEF :: regex where "RE_TYPEDEF = re (rx ''typedef.*~s+(~w+)~s*;'')"

definition typedef_mismatch :: "string \<Rightarrow> string \<Rightarrow> string" where
  "typedef_mismatch ident declaration_name = ''expecting prototype for typedef '' @ ident @
     ''. Prototype was for typedef '' @ declaration_name @ '' instead'' @ [NL]"

definition dump_typedef :: "nat \<Rightarrow> string \<Rightarrow> string \<Rightarrow> kdoc \<Rightarrow> kdoc res" where
  "dump_typedef ln proto source k = (case split_func_typedef proto of
      Some (return_type, declaration_name, args) \<Rightarrow>
        rbind (get_attr e_identifier k) (\<lambda>ident.
        if ident \<noteq> declaration_name then Inr (emit_msg ln (typedef_mismatch ident declaration_name) k)
        else
          rbind (upd_entry (create_parameter_list ln ''function'' args (CHR '','') declaration_name) k) (\<lambda>k1.
          rbind (get_attr e_purpose k1) (\<lambda>purpose.
          output_declaration ''function'' declaration_name
            [(''source'', V_str source), (''typedef'', V_bool True), (''functiontype'', V_str return_type),
             (''purpose'', V_str purpose)] k1)))
    | None \<Rightarrow>
      (case re_match RE_TYPEDEF proto of
         Some m \<Rightarrow>
           rbind (get_attr e_identifier k) (\<lambda>ident.
           if ident \<noteq> m_str m 1 then Inr (emit_msg ln (typedef_mismatch ident (m_str m 1)) k)
           else rbind (get_attr e_purpose k) (\<lambda>purpose.
             output_declaration ''typedef'' (m_str m 1) [(''source'', V_str source), (''purpose'', V_str purpose)] k))
       | None \<Rightarrow> Inr (emit_msg ln ''error: Cannot parse typedef!'' k)))"

text \<open>The last branch of \<^verbatim>\<open>dump_declaration\<close> calls a method that does not exist.\<close>

definition dump_declaration :: "nat \<Rightarrow> string \<Rightarrow> string \<Rightarrow> kdoc \<Rightarrow> kdoc res" where
  "dump_declaration ln prototype source k = rbind (get_attr e_decl_type k) (\<lambda>decl_type.
     if decl_type = ''enum'' then dump_enum ln prototype source k
     else if decl_type = ''typedef'' then dump_typedef ln prototype source k
     else if decl_type = ''union'' \<or> decl_type = ''struct'' then dump_struct ln prototype source k
     else if decl_type = ''var'' then dump_var ln prototype source k
     else Inl AttributeError)"

section \<open>Munging\<close>

text \<open>Every odd comma of a system call prototype becomes a space.\<close>

fun odd_commas :: "nat \<Rightarrow> string \<Rightarrow> string" where
  "odd_commas n [] = []"
| "odd_commas n (c # s) =
     (if c = CHR '','' then (if (n + 1) mod 2 = 1 then CHR '' '' else c) # odd_commas (n + 1) s
      else c # odd_commas n s)"

definition RE_NEWLINES :: regex where "RE_NEWLINES = re (rx ''[~r~n]+'')"
definition RE_SYSCALL :: regex where "RE_SYSCALL = re (rx ''SYSCALL_DEFINE.*~('')"
definition RE_SYS_ARGS :: regex where "RE_SYS_ARGS = re (rx ''long~s+(sys_.*?),'')"

definition syscall_munge :: "string \<Rightarrow> string" where
  "syscall_munge proto0 =
     (let proto1 = re_sub RE_NEWLINES '' '' proto0;
          is_void = contains proto1 ''SYSCALL_DEFINE0'';
          proto2 = re_sub RE_SYSCALL ''long sys_'' proto1;
          proto3 = (if re_search RE_SYS_ARGS proto2 \<noteq> None then re_subn (re '','') ''('' 1 proto2
                    else if is_void then re_subn (re (rx ''~)'')) ''(void)'' 1 proto2
                    else proto2) in
      if is_void then proto3 else odd_commas 0 proto3)"

definition RE_TRACE1 :: regex where "RE_TRACE1 = re (rx ''TRACE_EVENT~((.*?),'')"
definition RE_TRACE2 :: regex where "RE_TRACE2 = re (rx ''DEFINE_SINGLE_EVENT~((.*?),'')"
definition RE_TRACE3 :: regex where "RE_TRACE3 = re (rx ''DEFINE_EVENT~((.*?),(.*?),'')"
definition RE_TP_PROTO :: regex where "RE_TP_PROTO = re (rx ''TP_PROTO~((.*?)~)'')"

definition trace_name :: "string \<Rightarrow> string" where
  "trace_name proto =
     (let n1 = (case re_search RE_TRACE1 proto of Some m \<Rightarrow> m_str m 1 | None \<Rightarrow> []);
          n2 = (case re_search RE_TRACE2 proto of Some m \<Rightarrow> m_str m 1 | None \<Rightarrow> n1);
          n3 = (case re_search RE_TRACE3 proto of Some m \<Rightarrow> m_str m 2 | None \<Rightarrow> n2) in
      lstrip n3)"

definition trace_args :: "string \<Rightarrow> string" where
  "trace_args proto = (case re_search RE_TP_PROTO proto of Some m \<Rightarrow> m_str m 1 | None \<Rightarrow> [])"

text \<open>An absent name and an empty one are both rejected, so both are the empty string here.\<close>

definition tracepoint_munge :: "nat \<Rightarrow> string \<Rightarrow> kdoc \<Rightarrow> (string \<times> kdoc) res" where
  "tracepoint_munge ln proto k =
     (let nm = trace_name proto; args = trace_args proto in
      if nm = [] \<or> args = [] then
        Inr (proto, emit_msg ln (''Unrecognized tracepoint format:'' @ [NL] @ proto @ [NL]) k)
      else
        rbind (get_attr e_identifier k) (\<lambda>ident.
        rbind (upd_entry (\<lambda>e. e\<lparr>e_identifier := Some (''trace_'' @ ident)\<rparr>) k) (\<lambda>k1.
        Inr (''static inline void trace_'' @ nm @ ''('' @ args @ '')'', k1))))"

end
