(* ===== verification/Kdoc_Machine.thy ===== *)
theory Kdoc_Machine
  imports Kdoc_Dump
begin

text \<open>
  The state machine of \<^verbatim>\<open>kdoc_parser.py\<close>: one handler per state, the table that selects it, and
  \<^verbatim>\<open>parse_kdoc\<close> and \<^verbatim>\<open>parse_export\<close>, which run over the lines of a file. The lines of the file are
  an argument; \<open>None\<close> stands for a file that cannot be opened.
\<close>

section \<open>Exports\<close>

definition trim_suffix :: "string \<Rightarrow> string" where
  "trim_suffix symbol = (if endswith symbol ''_noprof'' then take (length symbol - 7) symbol else symbol)"

definition export_of :: "string \<Rightarrow> string option" where
  "export_of line = (case re_search export_symbol line of
      Some m \<Rightarrow> Some (trim_suffix (m_str m 2))
    | None \<Rightarrow>
      (case re_search export_symbol_ns line of
         Some m \<Rightarrow> Some (trim_suffix (m_str m 2))
       | None \<Rightarrow> None))"

definition process_export :: "string list \<Rightarrow> string \<Rightarrow> bool \<times> string list" where
  "process_export function_set line = (case export_of line of
      Some symbol \<Rightarrow> (True, List.insert symbol function_set)
    | None \<Rightarrow> (False, function_set))"

definition parse_export :: "string list option \<Rightarrow> string list option" where
  "parse_export file = (case file of
      None \<Rightarrow> None
    | Some lines \<Rightarrow> Some (foldl (\<lambda>tbl line. snd (process_export tbl line)) [] lines))"

section \<open>Comment lines\<close>

definition process_normal :: "nat \<Rightarrow> string \<Rightarrow> string \<Rightarrow> kdoc \<Rightarrow> kdoc res" where
  "process_normal ln line source k =
     (if re_match doc_start line = None then Inr k else Inr ((reset_state ln k)\<lparr>k_state := S_NAME\<rparr>))"

definition RE_PURPOSE :: regex where "RE_PURPOSE = re ''[-:](.*)''"

text \<open>The declaration line: the kind and the identifier, if it has them.\<close>

definition decl_line :: "string \<Rightarrow> (string \<times> string) option" where
  "decl_line line = (case re_search doc_begin_data line of
      Some m \<Rightarrow> Some (m_str m 1, m_str m 2)
    | None \<Rightarrow>
      (case re_search doc_begin_func line of
         Some m \<Rightarrow> Some (''function'', m_str m 1)
       | None \<Rightarrow> None))"

definition not_kdoc_msg :: "string \<Rightarrow> string" where
  "not_kdoc_msg line = ''This comment starts with '' @ quoted ''/**'' @ '', but isn'' @ [CHR 0x27] @
     ''t a kernel-doc comment. Refer to Documentation/doc-guide/kernel-doc.rst'' @ [NL] @ line"

definition warn_if :: "bool \<Rightarrow> nat \<Rightarrow> string \<Rightarrow> kdoc \<Rightarrow> kdoc" where
  "warn_if b ln msg k = (if b then emit_msg ln msg k else k)"

text \<open>The entry set up from a declaration line.\<close>

definition start_decl :: "nat \<Rightarrow> string \<Rightarrow> string \<Rightarrow> string \<Rightarrow> kdoc \<Rightarrow> kdoc res" where
  "start_decl ln line decl_type ident0 k =
     (let ident = strip_char (CHR '' '') ident0;
          purpose = (case re_search RE_PURPOSE line of Some m \<Rightarrow> Some (trim_whitespace (m_str m 1)) | None \<Rightarrow> None);
          purpose_text = (case purpose of Some p \<Rightarrow> p | None \<Rightarrow> []) in
      rbind (upd_entry (\<lambda>e. e\<lparr>e_identifier := Some ident, e_decl_type := Some decl_type\<rparr>) k) (\<lambda>k1.
      rbind (upd_entry_res (begin_section (ln + 1) SECTION_DEFAULT False) k1) (\<lambda>k2.
      rbind (upd_entry (\<lambda>e. e\<lparr>e_purpose := Some purpose_text\<rparr>) k2) (\<lambda>k3.
      let k4 = k3\<lparr>k_state := (if purpose = None then S_BODY else S_DECLARATION)\<rparr>;
          k5 = warn_if (purpose_text = [] \<and> cf_wshort_desc (k_config k)) ln
                 (''missing initial short description on line:'' @ [NL] @ line) k4;
          k6 = (if ident = [] \<and> decl_type \<noteq> ''enum''
                then (emit_msg ln (''wrong kernel-doc identifier on line:'' @ [NL] @ line) k5)\<lparr>k_state := S_NORMAL\<rparr>
                else k5) in
      Inr (if cf_verbose (k_config k) then emit_info ln (''Scanning doc for '' @ decl_type @ '' '' @ ident) k6 else k6)))))"

definition process_name :: "nat \<Rightarrow> string \<Rightarrow> string \<Rightarrow> kdoc \<Rightarrow> kdoc res" where
  "process_name ln line source k = (case re_search doc_block line of
      Some m \<Rightarrow>
        (let title = (if m_str m 1 = [] then ''Introduction'' else m_str m 1) in
         rbind (upd_entry_res (begin_section ln title False) k) (\<lambda>k1.
         rbind (upd_entry (\<lambda>e. e\<lparr>e_identifier := e_section e\<rparr>) k1) (\<lambda>k2.
         Inr (k2\<lparr>k_state := S_DOCBLOCK\<rparr>))))
    | None \<Rightarrow>
      (case re_search doc_decl line of
         Some m \<Rightarrow>
           rbind (upd_entry (\<lambda>e. e\<lparr>e_identifier := Some (m_str m 1)\<rparr>) k) (\<lambda>k1.
           (case decl_line line of
              Some (decl_type, ident) \<Rightarrow> start_decl ln line decl_type ident k1
            | None \<Rightarrow> Inr ((emit_msg ln (not_kdoc_msg line) k1)\<lparr>k_state := S_NORMAL\<rparr>)))
       | None \<Rightarrow> Inr (emit_msg ln (''Cannot find identifier on line:'' @ [NL] @ line) k)))"

text \<open>The name a section line starts, with the state it leads to.\<close>

definition section_of :: "string \<Rightarrow> (string \<times> pstate) res" where
  "section_of newsection =
     (if lower_str newsection = ''description'' then Inr (''Description'', S_BODY)
      else if lower_str newsection = ''context'' then Inr (''Context'', S_SPECIAL_SECTION)
      else if lower_str newsection \<in> {''@return'', ''@returns'', ''return'', ''returns''} then Inr (''Return'', S_SPECIAL_SECTION)
      else (case newsection of
          [] \<Rightarrow> Inl IndexError
        | c # _ \<Rightarrow> Inr (newsection, if c = CHR ''@'' then S_SPECIAL_SECTION else S_BODY)))"

definition is_new_section :: "nat \<Rightarrow> string \<Rightarrow> kdoc \<Rightarrow> (bool \<times> kdoc) res" where
  "is_new_section ln line k = (case re_search doc_sect line of
      None \<Rightarrow> Inr (False, k)
    | Some m \<Rightarrow>
      rbind (section_of (m_str m 1)) (\<lambda>(newsection, st).
      rbind (kdoc_dump_section (k\<lparr>k_state := st\<rparr>)) (\<lambda>k1.
      rbind (upd_entry_res (begin_section ln newsection False) k1) (\<lambda>k2.
      rbind (upd_entry (\<lambda>e. add_text (lstrip (m_str m 2)) (e\<lparr>e_leading_space := None\<rparr>)) k2) (\<lambda>k3.
      Inr (True, k3))))))"

definition RE_SUSPICIOUS :: regex where "RE_SUSPICIOUS = re (rx ''~s*~*~s*[a-zA-Z_0-9:.]+~*/'')"

definition is_comment_end :: "nat \<Rightarrow> string \<Rightarrow> kdoc \<Rightarrow> (bool \<times> kdoc) res" where
  "is_comment_end ln line k = (if re_search doc_end line = None then Inr (False, k)
     else
       rbind (kdoc_dump_section k) (\<lambda>k1.
       rbind (upd_entry (\<lambda>e. e\<lparr>e_prototype := [], e_new_start_line := Some (ln + 1)\<rparr>)
         (warn_if (re_match RE_SUSPICIOUS line \<noteq> None) ln (''suspicious ending line: '' @ line) k1)) (\<lambda>k2.
       Inr (True, k2\<lparr>k_state := S_PROTO\<rparr>))))"

text \<open>\<^verbatim>\<open>is_new_section(...) or is_comment_end(...)\<close>, and what else to do with the line.\<close>

definition section_or_end :: "nat \<Rightarrow> string \<Rightarrow> (kdoc \<Rightarrow> kdoc res) \<Rightarrow> kdoc \<Rightarrow> kdoc res" where
  "section_or_end ln line f k = rbind (is_new_section ln line k) (\<lambda>(b, k1).
     if b then Inr k1 else rbind (is_comment_end ln line k1) (\<lambda>(b2, k2). if b2 then Inr k2 else f k2))"

definition bad_line :: "nat \<Rightarrow> string \<Rightarrow> kdoc \<Rightarrow> kdoc" where
  "bad_line ln line k = emit_msg ln (''bad line: '' @ line) k"

definition process_decl :: "nat \<Rightarrow> string \<Rightarrow> string \<Rightarrow> kdoc \<Rightarrow> kdoc res" where
  "process_decl ln line source k = section_or_end ln line (\<lambda>k1.
     (case re_search doc_content line of
        Some m \<Rightarrow>
          if m_str m 1 = [] then Inr (k1\<lparr>k_state := S_BODY\<rparr>)
          else rbind (get_attr e_purpose k1) (\<lambda>purpose.
            upd_entry (\<lambda>e. e\<lparr>e_purpose := Some (trim_whitespace (purpose @ '' '' @ m_str m 1))\<rparr>) k1)
      | None \<Rightarrow> Inr (bad_line ln line k1))) k"

text \<open>
  The loop over the leading blanks: the first position that is not a space becomes the new
  indentation; a text that ends before raises.
\<close>

fun lead_check :: "string \<Rightarrow> nat \<Rightarrow> nat \<Rightarrow> nat res" where
  "lead_check cont i 0 = Inr i"
| "lead_check cont i (Suc n) =
     (if length cont \<le> i then Inl IndexError
      else if cont ! i \<noteq> CHR '' '' then Inr i
      else lead_check cont (i + 1) n)"

definition RE_BLANK_COM :: regex where "RE_BLANK_COM = re (rx ''~s*~*~s*$'')"
definition RE_LEADING :: regex where "RE_LEADING = re (rx ''^(~s+)'')"

definition leading_of :: "string \<Rightarrow> nat option \<Rightarrow> nat" where
  "leading_of cont ls = (case ls of
      Some n \<Rightarrow> n
    | None \<Rightarrow> (case re_match RE_LEADING cont of Some m \<Rightarrow> length (m_str m 1) | None \<Rightarrow> 0))"

definition special_text :: "string \<Rightarrow> entry \<Rightarrow> entry res" where
  "special_text cont e = rbind (lead_check cont 0 (leading_of cont (e_leading_space e))) (\<lambda>n.
     Inr (add_text (drop n cont) (e\<lparr>e_leading_space := Some n\<rparr>)))"

definition process_special :: "nat \<Rightarrow> string \<Rightarrow> string \<Rightarrow> kdoc \<Rightarrow> kdoc res" where
  "process_special ln line source k =
     (if re_match RE_BLANK_COM line \<noteq> None then
        rbind (upd_entry_res (begin_section ln SECTION_DEFAULT True) k) (\<lambda>k1. Inr (k1\<lparr>k_state := S_BODY\<rparr>))
      else section_or_end ln line (\<lambda>k1.
        (case re_search doc_content line of
           Some m \<Rightarrow> upd_entry_res (special_text (m_str m 1)) k1
         | None \<Rightarrow> Inr (bad_line ln line k1))) k)"

definition process_body :: "nat \<Rightarrow> string \<Rightarrow> string \<Rightarrow> kdoc \<Rightarrow> kdoc res" where
  "process_body ln line source k = section_or_end ln line (\<lambda>k1.
     (case re_search doc_content line of
        Some m \<Rightarrow> upd_entry (add_text (m_str m 1)) k1
      | None \<Rightarrow> Inr (bad_line ln line k1))) k"

section \<open>Prototypes\<close>

definition RE_C99 :: regex where "RE_C99 = re ''//.*$''"
definition RE_DEFINE :: regex where "RE_DEFINE = re (rx ''~s*#~s*define'')"
definition RE_TO_BRACE :: regex where "RE_TO_BRACE = re (rx ''([^~{]*)'')"
definition RE_COMMENT :: regex where "RE_COMMENT = re (rx ''/~*.*~*/'')"
definition RE_FUNC_POINTER :: regex where "RE_FUNC_POINTER = re (rx ''^(~S+~s+)~(~s*~*(~S+)~)'')"
definition RE_TRACE_ANY :: regex where "RE_TRACE_ANY = re ''TRACE_EVENT|DEFINE_EVENT|DEFINE_SINGLE_EVENT''"

definition soak_proto :: "string \<Rightarrow> string \<Rightarrow> string" where
  "soak_proto line proto =
     (if re_match RE_DEFINE line \<noteq> None then line
      else if startswith line ''#'' then proto
      else (case re_match RE_TO_BRACE line of Some m \<Rightarrow> proto @ m_str m 1 @ '' '' | None \<Rightarrow> proto))"

definition proto_done :: "string \<Rightarrow> bool" where
  "proto_done line \<longleftrightarrow> CHR ''{'' \<in> set line \<or> CHR '';'' \<in> set line \<or> re_match RE_DEFINE line \<noteq> None"

definition clean_proto :: "string \<Rightarrow> string" where
  "clean_proto proto = re_sub RE_FUNC_POINTER (rx ''~1~2'') (strip (re_sub RE_COMMENT [] proto))"

definition munge_proto :: "nat \<Rightarrow> string \<Rightarrow> kdoc \<Rightarrow> (string \<times> kdoc) res" where
  "munge_proto ln proto k =
     (if contains proto ''SYSCALL_DEFINE'' then Inr (syscall_munge proto, k)
      else if re_search RE_TRACE_ANY proto \<noteq> None then tracepoint_munge ln proto k
      else Inr (proto, k))"

definition process_proto_function :: "nat \<Rightarrow> string \<Rightarrow> string \<Rightarrow> kdoc \<Rightarrow> kdoc res" where
  "process_proto_function ln line0 source k =
     (let line = re_sub RE_C99 [] line0 in
      rbind (upd_entry (\<lambda>e. e\<lparr>e_prototype := soak_proto line (e_prototype e)\<rparr>) k) (\<lambda>k1.
      if proto_done line then
        rbind (get_entry (\<lambda>e. clean_proto (e_prototype e)) k1) (\<lambda>proto.
        rbind (munge_proto ln proto k1) (\<lambda>(proto2, k2).
        rbind (upd_entry (\<lambda>e. e\<lparr>e_prototype := proto2\<rparr>) k2) (\<lambda>k3.
        rbind (dump_function ln proto2 source k3) (\<lambda>k4.
        Inr (reset_state ln k4)))))
      else Inr k1))"

definition RE_CHUNK :: regex where "RE_CHUNK = re (rx ''(.*?)([{};])'')"

text \<open>The pieces of a line up to a semicolon outside braces.\<close>

fun chunk_loop :: "nat \<Rightarrow> string \<Rightarrow> kdoc \<Rightarrow> string list \<Rightarrow> kdoc res" where
  "chunk_loop ln source k [] = upd_entry (\<lambda>e. e\<lparr>e_prototype := e_prototype e @ '' ''\<rparr>) k"
| "chunk_loop ln source k (chunk # cs) =
     (if chunk = [] then chunk_loop ln source k cs
      else
        rbind (upd_entry (\<lambda>e. e\<lparr>e_prototype := e_prototype e @ chunk,
            e_brcount := (if chunk = ''{'' then e_brcount e + 1 else if chunk = ''}'' then e_brcount e - 1 else e_brcount e)\<rparr>) k) (\<lambda>k1.
        rbind (get_entry (\<lambda>e. (e_brcount e, e_prototype e)) k1) (\<lambda>(br, proto).
        if chunk = '';'' \<and> br \<le> 0 then
          rbind (dump_declaration ln proto source k1) (\<lambda>k2. Inr (reset_state ln k2))
        else chunk_loop ln source k1 cs)))"

definition process_proto_type :: "nat \<Rightarrow> string \<Rightarrow> string \<Rightarrow> kdoc \<Rightarrow> kdoc res" where
  "process_proto_type ln line0 source k =
     (let line = strip (re_sub RE_C99 [] line0) in
      if line = [] then Inr k
      else chunk_loop ln source k (somes (re_split RE_CHUNK 2 (if startswith line ''#'' then line @ '';'' else line))))"

definition process_inline_name :: "nat \<Rightarrow> string \<Rightarrow> string \<Rightarrow> kdoc \<Rightarrow> kdoc res" where
  "process_inline_name ln line source k = (case re_search doc_inline_sect line of
      Some m \<Rightarrow>
        rbind (upd_entry_res (begin_section ln (m_str m 1) False) k) (\<lambda>k1.
        rbind (upd_entry (add_text (lstrip (m_str m 2))) k1) (\<lambda>k2.
        Inr (k2\<lparr>k_state := S_INLINE_TEXT\<rparr>)))
    | None \<Rightarrow>
      if re_search doc_inline_end line \<noteq> None then
        rbind (kdoc_dump_section k) (\<lambda>k1. Inr (k1\<lparr>k_state := S_PROTO\<rparr>))
      else if re_search doc_content line \<noteq> None then
        process_proto_type ln (''/**'' @ [NL] @ line) source
          ((emit_msg ln (''Incorrect use of kernel-doc format: '' @ line) k)\<lparr>k_state := S_PROTO\<rparr>)
      else Inr k)"

definition process_inline_text :: "nat \<Rightarrow> string \<Rightarrow> string \<Rightarrow> kdoc \<Rightarrow> kdoc res" where
  "process_inline_text ln line source k =
     (if re_search doc_inline_end line \<noteq> None then
        rbind (kdoc_dump_section k) (\<lambda>k1. Inr (k1\<lparr>k_state := S_PROTO\<rparr>))
      else (case re_search doc_content line of
          Some m \<Rightarrow> upd_entry (add_text (m_str m 1)) k
        | None \<Rightarrow> Inr k))"

definition process_proto :: "nat \<Rightarrow> string \<Rightarrow> string \<Rightarrow> kdoc \<Rightarrow> kdoc res" where
  "process_proto ln line source k = (case re_search doc_inline_oneline line of
      Some m \<Rightarrow>
        rbind (upd_entry_res (begin_section ln (m_str m 1) False) k) (\<lambda>k1.
        rbind (upd_entry (add_text (m_str m 2)) k1) kdoc_dump_section)
    | None \<Rightarrow>
      if re_search doc_inline_start line \<noteq> None then Inr (k\<lparr>k_state := S_INLINE_NAME\<rparr>)
      else rbind (get_attr e_decl_type k) (\<lambda>decl_type.
        if decl_type = ''function'' then process_proto_function ln line source k
        else process_proto_type ln line source k))"

definition process_docblock :: "nat \<Rightarrow> string \<Rightarrow> string \<Rightarrow> kdoc \<Rightarrow> kdoc res" where
  "process_docblock ln line source k =
     (if re_search doc_end line \<noteq> None then
        rbind (kdoc_dump_section k) (\<lambda>k1.
        rbind (get_attr e_identifier k1) (\<lambda>ident.
        rbind (output_declaration ''doc'' ident [(''source'', V_str source)] k1) (\<lambda>k2.
        Inr (reset_state ln k2))))
      else (case re_search doc_content line of
          Some m \<Rightarrow> upd_entry (add_text (m_str m 1)) k
        | None \<Rightarrow> Inr k))"

section \<open>The machine\<close>

fun state_actions :: "pstate \<Rightarrow> nat \<Rightarrow> string \<Rightarrow> string \<Rightarrow> kdoc \<Rightarrow> kdoc res" where
  "state_actions S_NORMAL = process_normal"
| "state_actions S_NAME = process_name"
| "state_actions S_BODY = process_body"
| "state_actions S_DECLARATION = process_decl"
| "state_actions S_SPECIAL_SECTION = process_special"
| "state_actions S_INLINE_NAME = process_inline_name"
| "state_actions S_INLINE_TEXT = process_inline_text"
| "state_actions S_PROTO = process_proto"
| "state_actions S_DOCBLOCK = process_docblock"

text \<open>The loop state of \<^verbatim>\<open>parse_kdoc\<close>: the parser, the pending continuation, the source text, the exports.\<close>

record pk_state =
  pk_k :: kdoc
  pk_prev :: string
  pk_prev_ln :: "nat option"
  pk_source :: string
  pk_exports :: "string list"

definition store_source :: "string \<Rightarrow> pk_state \<Rightarrow> pk_state" where
  "store_source line st =
     (if k_store_src (pk_k st) then
        (if pk_source st \<noteq> [] \<and> k_state (pk_k st) = S_NORMAL then st\<lparr>pk_source := []\<rparr>
         else if k_state (pk_k st) \<noteq> S_NORMAL then st\<lparr>pk_source := pk_source st @ line @ [NL]\<rparr>
         else st)
      else st)"

definition run_handler :: "nat \<Rightarrow> string \<Rightarrow> pk_state \<Rightarrow> pk_state res" where
  "run_handler ln line st =
     (let prev_state = k_state (pk_k st) in
      rbind (state_actions prev_state ln line (pk_source st) (pk_k st)) (\<lambda>k.
        Inr (st\<lparr>pk_k := k, pk_source :=
          (if prev_state = S_NORMAL \<and> k_state k \<noteq> S_NORMAL then pk_source st @ line @ [NL] else pk_source st)\<rparr>)))"

text \<open>One line that is not a continuation: exports are looked for in ordinary code only.\<close>

definition handle_line :: "nat \<Rightarrow> string \<Rightarrow> pk_state \<Rightarrow> pk_state res" where
  "handle_line ln line st0 =
     (let st = store_source line st0 in
      if k_state (pk_k st) = S_NORMAL then
        (case process_export (pk_exports st) line of
           (True, ex) \<Rightarrow> Inr (st\<lparr>pk_exports := ex\<rparr>)
         | (False, ex) \<Rightarrow> run_handler ln line st)
      else run_handler ln line st)"

definition falsy_ln :: "nat option \<Rightarrow> bool" where
  "falsy_ln x \<longleftrightarrow> x = None \<or> x = Some 0"

definition rstrip_char :: "char \<Rightarrow> string \<Rightarrow> string" where
  "rstrip_char x s = rstrip_by (\<lambda>c. c = x) s"

definition kdoc_line :: "pk_state \<Rightarrow> nat \<times> string \<Rightarrow> pk_state res" where
  "kdoc_line st nl = (case nl of (ln, raw_line) \<Rightarrow>
     (let line = strip_char NL (expandtabs raw_line) in
      if k_state (pk_k st) = S_PROTO then
        (if endswith line [BSL] then
           Inr (st\<lparr>pk_prev := pk_prev st @ rstrip_char BSL line,
                   pk_prev_ln := (if falsy_ln (pk_prev_ln st) then Some ln else pk_prev_ln st)\<rparr>)
         else if pk_prev st \<noteq> [] then
           handle_line (case pk_prev_ln st of Some l \<Rightarrow> l | None \<Rightarrow> ln) (pk_prev st @ line)
             (st\<lparr>pk_prev := [], pk_prev_ln := None\<rparr>)
         else handle_line ln line st)
      else handle_line ln line st))"

definition pk_init :: "kdoc \<Rightarrow> pk_state" where
  "pk_init k = \<lparr>pk_k = k\<lparr>k_state := S_NORMAL\<rparr>, pk_prev = [], pk_prev_ln = None, pk_source = [], pk_exports = []\<rparr>"

definition parse_kdoc :: "kdoc \<Rightarrow> string list option \<Rightarrow> (string list \<times> kdoc) res" where
  "parse_kdoc k file = (case file of
      None \<Rightarrow> Inr ([], k\<lparr>k_state := S_NORMAL, k_log := k_log k @ [Log_error (''Error: Cannot open file '' @ k_fname k)]\<rparr>)
    | Some lines \<Rightarrow>
      rbind (fold_res kdoc_line (pk_init k) (enumerate 0 lines)) (\<lambda>st.
        Inr (pk_exports st, emit_unused_warnings (pk_k st))))"

end
