(* ===== verification/Kdoc_Safety.thy ===== *)
theory Kdoc_Safety
  imports Kdoc_Machine
begin

text \<open>
  The invariant of the state machine: in each state the entry has the attributes the handler of
  that state reads, and every item output so far is well formed. Each handler keeps it; the
  exceptions that reach the caller are \<open>IndexError\<close>, and \<open>AttributeError\<close> from an inline comment in
  the prototype of a function.
\<close>

section \<open>Items\<close>

definition decl_types :: "string list" where
  "decl_types = [''struct'', ''union'', ''enum'', ''typedef'', ''var'', ''function'']"

definition blank_section :: "(string, string) dict \<Rightarrow> string \<Rightarrow> bool" where
  "blank_section d s \<longleftrightarrow> (\<exists>t. dict_get d s = Some t \<and> rstrip t = [])"

text \<open>
  The optional keys of an item of a given kind: a declaration has a purpose, a structure its
  definition, a variable its prototype and the entry for its default value.
\<close>

definition extras_ok :: "string \<Rightarrow> (string, pyval) dict \<Rightarrow> bool" where
  "extras_ok ty d \<longleftrightarrow>
     (ty \<noteq> ''doc'' \<longrightarrow> (\<exists>t. dict_get d ''purpose'' = Some (V_str t))) \<and>
     (ty \<in> {''struct'', ''union''} \<longrightarrow> (\<exists>t. dict_get d ''definition'' = Some (V_str t))) \<and>
     (ty = ''var'' \<longrightarrow> (\<exists>t. dict_get d ''full_proto'' = Some (V_str t) \<and> t \<noteq> []) \<and> dict_has d ''default_val'')"

text \<open>
  A well-formed item: a known kind, no blank description or return section, for every parameter a
  description and, unless it is the value of an enumeration, a type; and its optional keys.
\<close>

definition kitem_ok :: "kdoc_item \<Rightarrow> bool" where
  "kitem_ok it \<longleftrightarrow> it_type it \<in> set (''doc'' # decl_types) \<and>
     \<not> blank_section (it_sections it) ''Description'' \<and> \<not> blank_section (it_sections it) ''Return'' \<and>
     (\<forall>p \<in> set (it_parameterlist it).
        (dict_has (it_parameterdescs it) p \<or> it_type it \<noteq> ''enum'' \<and> (startswith p ''#'' \<or> endswith p ''...'')) \<and>
        (it_type it \<noteq> ''enum'' \<longrightarrow> dict_has (it_parametertypes it) p)) \<and>
     extras_ok (it_type it) (it_other it)"

section \<open>Entries\<close>

definition sec_ok :: "entry \<Rightarrow> bool" where
  "sec_ok e \<longleftrightarrow> e_section e \<noteq> None \<and> e_new_start_line e \<noteq> None \<and> dict_wf (e_sections e) \<and> e_parameterlist e = []"

definition doc_ready :: "entry \<Rightarrow> bool" where
  "doc_ready e \<longleftrightarrow> sec_ok e \<and> e_identifier e \<noteq> None"

definition entry_ready :: "entry \<Rightarrow> bool" where
  "entry_ready e \<longleftrightarrow> sec_ok e \<and> e_identifier e \<noteq> None \<and> e_purpose e \<noteq> None \<and>
     (\<exists>dt \<in> set decl_types. e_decl_type e = Some dt)"

text \<open>A freshly made entry: nothing recorded yet.\<close>

definition fresh :: "entry \<Rightarrow> bool" where
  "fresh e \<longleftrightarrow> dict_wf (e_sections e) \<and> e_parameterlist e = []"

lemma ready_upd [simp]:
  "sec_ok (entry_warn ln msg e) = sec_ok e" "sec_ok (add_text t e) = sec_ok e"
  "sec_ok (e\<lparr>e_leading_space := ls\<rparr>) = sec_ok e" "sec_ok (e\<lparr>e_prototype := pr\<rparr>) = sec_ok e"
  "sec_ok (e\<lparr>e_brcount := br\<rparr>) = sec_ok e" "sec_ok (e\<lparr>e_identifier := i\<rparr>) = sec_ok e"
  "sec_ok (e\<lparr>e_decl_type := dt\<rparr>) = sec_ok e" "sec_ok (e\<lparr>e_purpose := pu\<rparr>) = sec_ok e"
  "sec_ok e \<Longrightarrow> sec_ok (e\<lparr>e_new_start_line := Some n\<rparr>)"
  by (simp_all add: sec_ok_def entry_warn_def add_text_def)

lemma entry_ready_upd [simp]:
  "entry_ready (entry_warn ln msg e) = entry_ready e" "entry_ready (add_text t e) = entry_ready e"
  "entry_ready (e\<lparr>e_leading_space := ls\<rparr>) = entry_ready e" "entry_ready (e\<lparr>e_prototype := pr\<rparr>) = entry_ready e"
  "entry_ready (e\<lparr>e_brcount := br\<rparr>) = entry_ready e"
  "entry_ready e \<Longrightarrow> entry_ready (e\<lparr>e_identifier := Some i\<rparr>)"
  "entry_ready e \<Longrightarrow> entry_ready (e\<lparr>e_purpose := Some pu\<rparr>)"
  "entry_ready e \<Longrightarrow> entry_ready (e\<lparr>e_new_start_line := Some n\<rparr>)"
  by (auto simp: entry_ready_def) (simp_all add: entry_warn_def add_text_def)

lemma doc_ready_upd [simp]:
  "doc_ready (add_text t e) = doc_ready e"
  by (auto simp: doc_ready_def) (simp_all add: add_text_def)

lemma fresh_upd [simp]:
  "fresh (entry_warn ln msg e) = fresh e" "fresh (e\<lparr>e_identifier := i\<rparr>) = fresh e"
  "fresh (e\<lparr>e_decl_type := dt\<rparr>) = fresh e" "fresh (add_text t e) = fresh e"
  by (simp_all add: fresh_def entry_warn_def add_text_def)

lemma fresh_init: "fresh (entry_init fname ln)"
  by (simp add: fresh_def entry_init_def dict_wf_def)

lemma ready_fresh: "entry_ready e \<Longrightarrow> fresh e" "doc_ready e \<Longrightarrow> fresh e"
  by (simp_all add: entry_ready_def doc_ready_def sec_ok_def fresh_def)

text \<open>Dumping a section needs the section and its start line, and leaves the attributes alone.\<close>

definition same_ids :: "entry \<Rightarrow> entry \<Rightarrow> bool" where
  "same_ids e e' \<longleftrightarrow> e_identifier e' = e_identifier e \<and> e_purpose e' = e_purpose e \<and> e_decl_type e' = e_decl_type e"

lemma dump_section_safe:
  assumes "sec_ok e"
  shows "safe {} (\<lambda>e'. sec_ok e' \<and> same_ids e e') (dump_section start_new e)"
proof -
  from assms obtain name l where a: "e_section e = Some name" "e_new_start_line e = Some l"
    "dict_wf (e_sections e)" "e_parameterlist e = []" by (auto simp: sec_ok_def)
  show ?thesis
    by (auto simp: dump_section_def a Let_def sec_ok_def same_ids_def close_section_def entry_warn_def dict_wf_set
        split: option.splits list.splits)
qed

lemma begin_section_safe:
  assumes "fresh e" and "dump \<Longrightarrow> sec_ok e"
  shows "safe {} (\<lambda>e'. sec_ok e' \<and> same_ids e e') (begin_section line_no title dump e)"
proof (cases dump)
  case True
  from dump_section_safe [OF assms(2) [OF True]] obtain e1 where e1: "dump_section True e = Inr e1" "sec_ok e1" "same_ids e e1"
    by (auto simp: safe_False_iff)
  then show ?thesis using True by (auto simp: begin_section_def sec_ok_def same_ids_def)
next
  case False
  then show ?thesis using assms(1) by (auto simp: begin_section_def sec_ok_def fresh_def same_ids_def)
qed

lemma same_ids_ready: "same_ids e e' \<Longrightarrow> sec_ok e' \<Longrightarrow> entry_ready e \<Longrightarrow> entry_ready e'"
    "same_ids e e' \<Longrightarrow> sec_ok e' \<Longrightarrow> doc_ready e \<Longrightarrow> doc_ready e'"
  by (auto simp: same_ids_def entry_ready_def doc_ready_def)

section \<open>The parser\<close>

definition has :: "(entry \<Rightarrow> bool) \<Rightarrow> kdoc \<Rightarrow> bool" where
  "has P k \<longleftrightarrow> (\<exists>e. k_entry k = Some e \<and> P e) \<and> list_all kitem_ok (k_entries k)"

definition kdoc_inv :: "kdoc \<Rightarrow> bool" where
  "kdoc_inv k \<longleftrightarrow> list_all kitem_ok (k_entries k) \<and>
     (case k_state k of
        S_NORMAL \<Rightarrow> True
      | S_NAME \<Rightarrow> has fresh k
      | S_DOCBLOCK \<Rightarrow> has doc_ready k
      | _ \<Rightarrow> has entry_ready k)"

lemma hasE: "has P k \<Longrightarrow> (\<And>e. k_entry k = Some e \<Longrightarrow> P e \<Longrightarrow> list_all kitem_ok (k_entries k) \<Longrightarrow> thesis) \<Longrightarrow> thesis"
  by (auto simp: has_def)

lemma has_state [simp]: "has P (k\<lparr>k_state := s\<rparr>) = has P k" "has P (k\<lparr>k_log := l\<rparr>) = has P k"
  by (simp_all add: has_def)

lemma has_mono: "has P k \<Longrightarrow> (\<And>e. P e \<Longrightarrow> Q e) \<Longrightarrow> has Q k"
  by (auto simp: has_def)

lemma has_emit: "has P k \<Longrightarrow> (\<And>e. P e \<Longrightarrow> P (entry_warn ln msg e)) \<Longrightarrow> has P (emit_msg ln msg k)"
  by (auto simp: has_def emit_msg_def)

lemma has_emit_info [simp]: "has P (emit_info ln msg k) = has P k"
  by (simp add: has_def emit_info_def)

lemma has_warn_if: "has P k \<Longrightarrow> (\<And>e. P e \<Longrightarrow> P (entry_warn ln msg e)) \<Longrightarrow> has P (warn_if b ln msg k)"
  by (simp add: warn_if_def has_emit)

lemma upd_entry_safe: "has P k \<Longrightarrow> (\<And>e. P e \<Longrightarrow> Q (f e)) \<Longrightarrow> safe b (has Q) (upd_entry f k)"
  by (auto simp: has_def upd_entry_def)

lemma upd_entry_res_safe:
  assumes "has P k" and "\<And>e. P e \<Longrightarrow> safe b Q (f e)"
  shows "safe b (has Q) (upd_entry_res f k)"
proof -
  from assms(1) obtain e where e: "k_entry k = Some e" "P e" "list_all kitem_ok (k_entries k)" by (rule hasE)
  from assms(2) [OF e(2)] show ?thesis by (cases "f e") (auto simp: upd_entry_res_def e has_def)
qed

lemma dump_safe:
  assumes "has P k" and "\<And>e. P e \<Longrightarrow> sec_ok e" and "\<And>e e'. P e \<Longrightarrow> sec_ok e' \<Longrightarrow> same_ids e e' \<Longrightarrow> Q e'"
  shows "safe b (\<lambda>k'. has Q k' \<and> k_state k' = k_state k) (kdoc_dump_section k)"
proof -
  from assms(1) obtain e where e: "k_entry k = Some e" "P e" "list_all kitem_ok (k_entries k)" by (rule hasE)
  from dump_section_safe [OF assms(2) [OF e(2)]] obtain e' where "dump_section True e = Inr e'" "sec_ok e'" "same_ids e e'"
    by (auto simp: safe_False_iff)
  then show ?thesis using assms(3) [OF e(2)] e by (auto simp: kdoc_dump_section_def has_def)
qed

lemma ready_inv: "has entry_ready k \<Longrightarrow> kdoc_inv k"
  by (auto simp: kdoc_inv_def has_def entry_ready_def doc_ready_def sec_ok_def fresh_def split: pstate.splits)

lemma normal_inv: "list_all kitem_ok (k_entries k) \<Longrightarrow> k_state k = S_NORMAL \<Longrightarrow> kdoc_inv k"
  by (simp add: kdoc_inv_def)

lemma inv_ready:
  "kdoc_inv k \<Longrightarrow> k_state k \<in> {S_BODY, S_DECLARATION, S_SPECIAL_SECTION, S_PROTO, S_INLINE_NAME, S_INLINE_TEXT} \<Longrightarrow>
   has entry_ready k"
  by (auto simp: kdoc_inv_def)

lemma inv_items: "kdoc_inv k \<Longrightarrow> list_all kitem_ok (k_entries k)"
  by (simp add: kdoc_inv_def)

lemma has_items: "has P k \<Longrightarrow> list_all kitem_ok (k_entries k)"
  by (simp add: has_def)

section \<open>Comment lines never raise\<close>

lemma lang_lit: "lang (lit cs) = {cs}"
proof -
  have "lang (seqs (map chr cs)) = {cs}"
  proof (induction cs)
    case Nil
    show ?case by simp
  next
    case (Cons c cs)
    then show ?case by (cases cs) (auto simp: chr_def)
  qed
  then show ?thesis by (simp add: lit_def)
qed

lemma doc_begin_data_groups:
  "sure 1 doc_begin_data" "bodies 1 doc_begin_data = [alts (map lit [''struct'', ''union'', ''enum'', ''typedef'', ''var''])]"
  by code_simp+

lemma decl_line_type: "decl_line line = Some (dt, ident) \<Longrightarrow> dt \<in> set decl_types"
proof -
  assume d: "decl_line line = Some (dt, ident)"
  show ?thesis
  proof (cases "re_search doc_begin_data line")
    case None
    with d show ?thesis by (auto simp: decl_line_def decl_types_def split: option.splits)
  next
    case (Some m)
    then obtain t where t: "m_group m 1 = Some t" using re_search_sure [OF Some doc_begin_data_groups(1)] by auto
    have "\<exists>b \<in> set (bodies 1 doc_begin_data). t \<in> lang b" using re_search_group [OF Some _ t] by simp
    then have "t \<in> {''struct'', ''union'', ''enum'', ''typedef'', ''var''}"
      unfolding doc_begin_data_groups(2) by (auto simp: lang_lit)
    with t d Some show ?thesis by (auto simp: decl_line_def m_str_def decl_types_def)
  qed
qed

lemma doc_sect_groups: "sure 1 doc_sect" "list_all (\<lambda>b. 0 < min_len b) (bodies 1 doc_sect)"
  by code_simp+

lemma doc_sect_name: "re_search doc_sect line = Some m \<Longrightarrow> m_str m 1 \<noteq> []"
proof
  assume m: "re_search doc_sect line = Some m" and "m_str m 1 = []"
  then obtain t where t: "m_group m 1 = Some t" "t = []"
    using re_search_sure [OF m doc_sect_groups(1)] by (auto simp: m_str_def)
  from re_search_group [OF m _ t(1)] obtain b where "b \<in> set (bodies 1 doc_sect)" "t \<in> lang b" by auto
  then show False using doc_sect_groups(2) lang_min_len t(2) by (fastforce simp: list_all_iff)
qed

lemma section_of_safe: "s \<noteq> [] \<Longrightarrow> safe {} (\<lambda>_. True) (section_of s)"
  by (cases s) (simp_all add: section_of_def)

lemma is_new_section_safe:
  assumes "has entry_ready k"
  shows "safe {} (\<lambda>(b, k'). has entry_ready k' \<and> (\<not> b \<longrightarrow> k' = k)) (is_new_section ln line k)"
proof (cases "re_search doc_sect line")
  case None
  then show ?thesis using assms by (simp add: is_new_section_def)
next
  case (Some m)
  obtain sec st where sec: "section_of (m_str m 1) = Inr (sec, st)"
    using section_of_safe [OF doc_sect_name [OF Some]] by (auto simp: safe_False_iff)
  have 1: "safe {} (\<lambda>k'. has entry_ready k' \<and> k_state k' = k_state (k\<lparr>k_state := st\<rparr>)) (kdoc_dump_section (k\<lparr>k_state := st\<rparr>))"
    by (rule dump_safe [of entry_ready]) (use assms in \<open>auto simp: entry_ready_def same_ids_def\<close>)
  have 2: "safe {} (has entry_ready) (upd_entry_res (begin_section ln sec False) k1)" if "has entry_ready k1" for k1
    by (rule upd_entry_res_safe [OF that], rule safe_mono, rule begin_section_safe)
      (auto intro: ready_fresh same_ids_ready)
  show ?thesis unfolding is_new_section_def Some option.case sec rbind_simps prod.case
    by (rule safe_rbind [OF 1], rule safe_rbind [OF 2], simp, rule safe_rbind [OF upd_entry_safe [of entry_ready _ entry_ready]])
      simp_all
qed

lemma is_comment_end_safe:
  assumes "has entry_ready k"
  shows "safe {} (\<lambda>(b, k'). has entry_ready k' \<and> (\<not> b \<longrightarrow> k' = k)) (is_comment_end ln line k)"
proof (cases "re_search doc_end line")
  case None
  then show ?thesis using assms by (simp add: is_comment_end_def)
next
  case (Some m)
  have 1: "safe {} (\<lambda>k'. has entry_ready k' \<and> k_state k' = k_state k) (kdoc_dump_section k)"
    by (rule dump_safe [of entry_ready]) (use assms in \<open>auto simp: entry_ready_def same_ids_def\<close>)
  have 2: "has entry_ready k1 \<Longrightarrow> has entry_ready (warn_if b ln msg k1)" for b msg k1
    by (rule has_warn_if) simp_all
  have ne: "re_search doc_end line \<noteq> None" using Some by simp
  show ?thesis unfolding is_comment_end_def if_not_P [OF ne]
    by (rule safe_rbind [OF 1], rule safe_rbind [OF upd_entry_safe [of entry_ready _ entry_ready]]) (simp_all add: 2)
qed

lemma section_or_end_safe:
  assumes "has entry_ready k" and "\<And>k1. has entry_ready k1 \<Longrightarrow> k_state k1 = k_state k \<Longrightarrow> safe b kdoc_inv (f k1)"
  shows "safe b kdoc_inv (section_or_end ln line f k)"
proof -
  have 1: "safe b (\<lambda>(b, k'). has entry_ready k' \<and> (\<not> b \<longrightarrow> k' = k)) (is_new_section ln line k)"
    using is_new_section_safe [OF assms(1)] by (rule safe_weaken)
  have 2: "safe b (\<lambda>(b, k'). has entry_ready k' \<and> (\<not> b \<longrightarrow> k' = k)) (is_comment_end ln line k)"
    using is_comment_end_safe [OF assms(1)] by (rule safe_weaken)
  show ?thesis unfolding section_or_end_def
  proof (rule safe_rbind [OF 1])
    fix v :: "bool \<times> kdoc"
    assume v: "case v of (b1, k') \<Rightarrow> has entry_ready k' \<and> (\<not> b1 \<longrightarrow> k' = k)"
    obtain b1 k1 where [simp]: "v = (b1, k1)" by (cases v)
    have k1: "has entry_ready k1" "\<not> b1 \<longrightarrow> k1 = k" using v by simp_all
    show "safe b kdoc_inv (case v of (b, k1) \<Rightarrow>
        if b then Inr k1 else rbind (is_comment_end ln line k1) (\<lambda>(b2, k2). if b2 then Inr k2 else f k2))"
    proof (cases b1)
      case True
      then show ?thesis using ready_inv [OF k1(1)] by simp
    next
      case False
      then have [simp]: "k1 = k" using k1(2) by simp
      have "safe b kdoc_inv (rbind (is_comment_end ln line k) (\<lambda>(b2, k2). if b2 then Inr k2 else f k2))"
        by (rule safe_rbind [OF 2]) (use assms in \<open>auto simp: ready_inv\<close>)
      then show ?thesis using False by simp
    qed
  qed
qed

lemma bad_line_ready: "has entry_ready k \<Longrightarrow> has entry_ready (bad_line ln line k)"
  unfolding bad_line_def by (rule has_emit) simp_all

lemma ready_safe: "safe b (has entry_ready) r \<Longrightarrow> safe b kdoc_inv r"
  using safe_mono ready_inv by blast

lemma process_body_safe: "has entry_ready k \<Longrightarrow> safe {} kdoc_inv (process_body ln line source k)"
  unfolding process_body_def
  by (rule section_or_end_safe, assumption, rule ready_safe)
    (auto split: option.splits intro: upd_entry_safe bad_line_ready)

lemma process_decl_safe: "has entry_ready k \<Longrightarrow> safe {} kdoc_inv (process_decl ln line source k)"
  unfolding process_decl_def
proof (rule section_or_end_safe, assumption, rule ready_safe)
  fix k1 assume k1: "has entry_ready k1"
  then obtain e pu where e: "k_entry k1 = Some e" "entry_ready e" "e_purpose e = Some pu"
    by (auto simp: has_def entry_ready_def)
  have "has entry_ready (k1\<lparr>k_entry := Some (e\<lparr>e_purpose := Some t\<rparr>)\<rparr>)" for t
    using k1 e by (auto simp: has_def)
  then show "safe {} (has entry_ready) (case re_search doc_content line of
      Some m \<Rightarrow> if m_str m 1 = [] then Inr (k1\<lparr>k_state := S_BODY\<rparr>)
        else rbind (get_attr e_purpose k1) (\<lambda>purpose.
          upd_entry (\<lambda>e. e\<lparr>e_purpose := Some (trim_whitespace (purpose @ '' '' @ m_str m 1))\<rparr>) k1)
    | None \<Rightarrow> Inr (bad_line ln line k1))"
    using k1 e by (auto simp: get_attr_def upd_entry_def bad_line_ready split: option.splits)
qed

lemma lead_check_safe: "safe {IndexError} (\<lambda>_. True) (lead_check cont i n)"
  by (induction cont i n rule: lead_check.induct) auto

lemma process_special_safe: "has entry_ready k \<Longrightarrow> safe {IndexError} kdoc_inv (process_special ln line source k)"
proof (cases "re_match RE_BLANK_COM line = None")
  case False
  assume k: "has entry_ready k"
  have 1: "safe {IndexError} (has entry_ready) (upd_entry_res (begin_section ln SECTION_DEFAULT True) k)"
    by (rule upd_entry_res_safe [OF k], rule safe_weaken, rule safe_mono, rule begin_section_safe)
      (auto intro: ready_fresh simp: entry_ready_def same_ids_def)
  have 2: "safe {IndexError} kdoc_inv (rbind (upd_entry_res (begin_section ln SECTION_DEFAULT True) k) (\<lambda>k1. Inr (k1\<lparr>k_state := S_BODY\<rparr>)))"
    by (rule safe_rbind [OF 1]) (simp add: ready_inv)
  then show ?thesis using False by (simp add: process_special_def)
next
  case True
  assume k: "has entry_ready k"
  have st: "safe {IndexError} (has entry_ready) (upd_entry_res (special_text t) k1)" if "has entry_ready k1" for t k1
    unfolding special_text_def
    by (rule upd_entry_res_safe [OF that], rule safe_rbind [OF lead_check_safe]) simp
  have "safe {IndexError} kdoc_inv (section_or_end ln line (\<lambda>k1. case re_search doc_content line of
      Some m \<Rightarrow> upd_entry_res (special_text (m_str m 1)) k1 | None \<Rightarrow> Inr (bad_line ln line k1)) k)"
    by (rule section_or_end_safe [OF k], rule ready_safe) (auto split: option.splits intro: st bad_line_ready)
  then show ?thesis using True by (simp add: process_special_def)
qed

lemma process_inline_text_safe: "has entry_ready k \<Longrightarrow> safe {} kdoc_inv (process_inline_text ln line source k)"
proof -
  assume k: "has entry_ready k"
  have 1: "safe {} (\<lambda>k'. has entry_ready k' \<and> k_state k' = k_state k) (kdoc_dump_section k)"
    by (rule dump_safe [of entry_ready]) (use k in \<open>auto simp: entry_ready_def same_ids_def\<close>)
  have 2: "safe {} (has entry_ready) (upd_entry (add_text t) k)" for t
    by (rule upd_entry_safe [OF k]) simp
  have 3: "safe {} (has entry_ready) (rbind (kdoc_dump_section k) (\<lambda>k1. Inr (k1\<lparr>k_state := S_PROTO\<rparr>)))"
    by (rule safe_rbind [OF 1]) simp
  show ?thesis unfolding process_inline_text_def
    by (rule ready_safe) (use 2 3 k in \<open>auto split: option.splits\<close>)
qed

lemma reset_items [simp]: "k_entries (reset_state ln k) = k_entries k" "k_state (reset_state ln k) = S_NORMAL"
  by (simp_all add: reset_state_def emit_unused_warnings_def split: option.splits)

lemma reset_fresh: "list_all kitem_ok (k_entries k) \<Longrightarrow> has fresh (reset_state ln k)"
  by (auto simp: reset_state_def has_def fresh_init emit_unused_warnings_def split: option.splits)

lemma reset_inv: "list_all kitem_ok (k_entries k) \<Longrightarrow> kdoc_inv (reset_state ln k)"
  by (simp add: normal_inv)

lemma process_normal_safe: "kdoc_inv k \<Longrightarrow> k_state k = S_NORMAL \<Longrightarrow> safe {} kdoc_inv (process_normal ln line source k)"
  using reset_fresh [of k ln] by (auto simp: process_normal_def kdoc_inv_def)

lemma start_decl_safe:
  assumes "has fresh k" and "dt \<in> set decl_types"
  shows "safe {} kdoc_inv (start_decl ln line dt ident0 k)"
proof -
  from assms(1) obtain e where e: "k_entry k = Some e" "fresh e" "list_all kitem_ok (k_entries k)" by (rule hasE)
  have ready: "has entry_ready (k\<lparr>k_entry := Some (e\<lparr>e_identifier := Some i, e_decl_type := Some dt,
      e_section := Some SECTION_DEFAULT, e_new_start_line := Some n, e_purpose := Some pu\<rparr>), k_state := st\<rparr>)" for i n pu st
    using e assms(2) by (auto simp: has_def entry_ready_def sec_ok_def fresh_def)
  have warn: "has entry_ready k1 \<Longrightarrow> has entry_ready (warn_if b ln msg k1)" for k1 b msg
    by (rule has_warn_if) simp_all
  have emit: "has entry_ready k1 \<Longrightarrow> has entry_ready (emit_msg ln msg k1)" for k1 msg
    by (rule has_emit) simp_all
  show ?thesis
    by (rule ready_safe) (use ready in \<open>auto simp: start_decl_def upd_entry_def upd_entry_res_def begin_section_def e Let_def
      intro!: warn emit\<close>)
qed

lemma process_name_safe: "has fresh k \<Longrightarrow> k_state k = S_NAME \<Longrightarrow> safe {} kdoc_inv (process_name ln line source k)"
proof -
  assume k: "has fresh k" and st: "k_state k = S_NAME"
  then obtain e where e: "k_entry k = Some e" "fresh e" "list_all kitem_ok (k_entries k)" by (auto elim: hasE)
  have emit: "has fresh (emit_msg ln msg k)" "list_all kitem_ok (k_entries (emit_msg ln msg k1)) = list_all kitem_ok (k_entries k1)"
      "k_state (emit_msg ln msg k1) = k_state k1" for msg k1
    by (rule has_emit [OF k], simp) (simp_all add: emit_msg_def split: option.splits)
  have id: "has fresh (k\<lparr>k_entry := Some (e\<lparr>e_identifier := Some i\<rparr>)\<rparr>)" for i using e by (auto simp: has_def)
  have doc: "kdoc_inv (k\<lparr>k_entry := Some (e\<lparr>e_section := Some t, e_new_start_line := Some ln, e_identifier := Some t\<rparr>),
      k_state := S_DOCBLOCK\<rparr>)" for t
    using e by (auto simp: kdoc_inv_def has_def doc_ready_def sec_ok_def fresh_def)
  show ?thesis
  proof (cases "re_search doc_block line")
    case (Some m)
    then show ?thesis using doc
      by (auto simp: process_name_def Let_def upd_entry_def upd_entry_res_def begin_section_def e)
  next
    case None
    show ?thesis
    proof (cases "re_search doc_decl line")
      case None
      then show ?thesis using \<open>re_search doc_block line = None\<close> emit(1) emit(3) [of _ k] st e(3)
        by (simp add: process_name_def kdoc_inv_def emit(2))
    next
      case (Some m)
      let ?k = "k\<lparr>k_entry := Some (e\<lparr>e_identifier := Some (m_str m 1)\<rparr>)\<rparr>"
      have u: "upd_entry (\<lambda>e. e\<lparr>e_identifier := Some (m_str m 1)\<rparr>) k = Inr ?k" by (simp add: upd_entry_def e)
      have "safe {} kdoc_inv (case decl_line line of
          Some (decl_type, ident) \<Rightarrow> start_decl ln line decl_type ident ?k
        | None \<Rightarrow> Inr ((emit_msg ln (not_kdoc_msg line) ?k)\<lparr>k_state := S_NORMAL\<rparr>))"
        using start_decl_safe [OF id] decl_line_type e(3)
        by (auto simp: normal_inv emit(2) split: option.splits)
      then show ?thesis
        unfolding process_name_def \<open>re_search doc_block line = None\<close> Some option.case u rbind_simps .
    qed
  qed
qed

section \<open>Output\<close>

lemma item_init_type [simp]: "it_type (kdoc_item_init name fname ty n args) = ty"
proof -
  have "it_type (foldl item_set it args) = it_type it" for it by (induction args arbitrary: it) simp_all
  then show ?thesis by (simp add: kdoc_item_init_def)
qed

lemma drop_empty_wf: "dict_wf d \<Longrightarrow> dict_wf (drop_empty d s)"
  by (simp add: drop_empty_def dict_wf_del split: option.splits)

lemma drop_empty_blank: "dict_wf d \<Longrightarrow> \<not> blank_section (drop_empty d s) s"
  by (auto simp: drop_empty_def blank_section_def dict_del_get split: option.splits if_splits)

lemma drop_empty_other: "dict_wf d \<Longrightarrow> \<not> blank_section d s \<Longrightarrow> \<not> blank_section (drop_empty d s') s"
  by (auto simp: drop_empty_def blank_section_def dict_del_get split: option.splits if_splits)

text \<open>What an entry must satisfy for its item to be well formed.\<close>

definition out_ok :: "string \<Rightarrow> entry \<Rightarrow> bool" where
  "out_ok ty e \<longleftrightarrow> dict_wf (e_sections e) \<and>
     (\<forall>p \<in> set (e_parameterlist e).
        (dict_has (e_parameterdescs e) p \<or> ty \<noteq> ''enum'' \<and> (startswith p ''#'' \<or> endswith p ''...'')) \<and>
        (ty \<noteq> ''enum'' \<longrightarrow> dict_has (e_parametertypes e) p))"

lemma out_ok_params: "dict_wf (e_sections e) \<Longrightarrow> params_ok e \<Longrightarrow> ty \<noteq> ''enum'' \<Longrightarrow> out_ok ty e"
  by (auto simp: out_ok_def params_ok_def param_ok_def list_all_iff)

text \<open>The optional keys an argument list sets, whatever the rest of the item is.\<close>

definition other_of :: "(string \<times> pyval) list \<Rightarrow> (string, pyval) dict" where
  "other_of args = it_other (kdoc_item_init [] [] [] 0 args)"

lemma item_init_other: "it_other (kdoc_item_init name fname ty n args) = other_of args"
proof -
  have step: "it_other (item_set a kv) = it_other (item_set b kv)" if "it_other a = it_other b" for a b kv
    using that by (cases kv) (simp add: item_set_other)
  have all: "it_other a = it_other b \<Longrightarrow> it_other (foldl item_set a args) = it_other (foldl item_set b args)" for a b
  proof (induction args arbitrary: a b)
    case (Cons kv args)
    from Cons.IH [OF step [OF Cons.prems]] show ?case by simp
  qed simp
  show ?thesis unfolding kdoc_item_init_def other_of_def by (rule all) simp
qed

lemmas other_of_simps = other_of_def kdoc_item_init_def item_set_other known_keys_def extras_ok_def dict_get_def dict_has_def

definition items_ok :: "kdoc \<Rightarrow> bool" where
  "items_ok k \<longleftrightarrow> list_all kitem_ok (k_entries k)"

lemma output_safe:
  assumes "has (out_ok ty) k" and "ty \<in> set (''doc'' # decl_types)" and "extras_ok ty (other_of args)"
  shows "safe b items_ok (output_declaration ty nm args k)"
proof -
  from assms(1) obtain e where e: "k_entry k = Some e" "out_ok ty e" "list_all kitem_ok (k_entries k)" by (rule hasE)
  have wf: "dict_wf (e_sections e)" using e(2) by (simp add: out_ok_def)
  let ?d = "drop_empty (drop_empty (e_sections e) ''Description'') ''Return''"
  have "\<not> blank_section ?d ''Description''" "\<not> blank_section ?d ''Return''"
    using drop_empty_blank drop_empty_other drop_empty_wf wf by blast+
  then show ?thesis using assms(2,3) e(2,3)
    by (simp add: output_declaration_def e(1) items_ok_def kitem_ok_def set_sections_def set_params_def out_ok_def Let_def
        item_init_other)
qed

lemma items_emit [simp]: "items_ok (emit_msg ln msg k) = items_ok k"
  by (simp add: items_ok_def emit_msg_def split: option.splits)

lemma has_items_ok: "has P k \<Longrightarrow> items_ok k"
  by (simp add: has_def items_ok_def)

lemma get_attr_safe: "has P k \<Longrightarrow> (\<And>e. P e \<Longrightarrow> f e \<noteq> None) \<Longrightarrow> safe b (\<lambda>_. True) (get_attr f k)"
proof -
  assume "has P k" and f: "\<And>e. P e \<Longrightarrow> f e \<noteq> None"
  then obtain e where e: "k_entry k = Some e" "P e" by (auto elim: hasE)
  from f [OF e(2)] show ?thesis by (auto simp: get_attr_def e(1))
qed

lemma process_docblock_safe: "has doc_ready k \<Longrightarrow> kdoc_inv k \<Longrightarrow> safe {} kdoc_inv (process_docblock ln line source k)"
proof (cases "re_search doc_end line = None")
  case False
  assume k: "has doc_ready k"
  have 1: "safe {} (\<lambda>k'. has doc_ready k' \<and> k_state k' = k_state k) (kdoc_dump_section k)"
    by (rule dump_safe [of doc_ready]) (use k in \<open>auto simp: doc_ready_def same_ids_def\<close>)
  have 2: "safe {} items_ok (output_declaration ''doc'' nm args k1)" if "has doc_ready k1" for k1 nm args
    by (rule output_safe [OF has_mono [OF that]]) (auto simp: doc_ready_def sec_ok_def out_ok_def extras_ok_def)
  have "safe {} kdoc_inv (rbind (kdoc_dump_section k) (\<lambda>k1. rbind (get_attr e_identifier k1) (\<lambda>ident.
        rbind (output_declaration ''doc'' ident [(''source'', V_str source)] k1) (\<lambda>k2. Inr (reset_state ln k2)))))"
    by (rule safe_rbind [OF 1], rule safe_rbind [OF get_attr_safe [of doc_ready]], simp, simp add: doc_ready_def,
      rule safe_rbind [OF 2], simp, simp add: items_ok_def reset_inv)
  then show ?thesis using False by (simp add: process_docblock_def)
next
  case True
  assume k: "has doc_ready k" and inv: "kdoc_inv k"
  from k obtain e where e: "k_entry k = Some e" "doc_ready e" "list_all kitem_ok (k_entries k)" by (rule hasE)
  have "kdoc_inv (k\<lparr>k_entry := Some (add_text t e)\<rparr>)" for t
    using inv e by (auto simp: kdoc_inv_def has_def split: pstate.splits)
  then show ?thesis using True inv by (auto simp: process_docblock_def upd_entry_def e split: option.splits)
qed

section \<open>Dumping a declaration\<close>

lemma text_of_safe: "safe {IndexError} (\<lambda>_. True) (text_of (ctrans_apply ty source))"
  using ctrans_apply_err [of ty source] by (cases "ctrans_apply ty source") (auto simp: text_of_def)

lemma entry_ready_params: "entry_ready e \<Longrightarrow> params_ok e \<and> dict_wf (e_sections e)"
  by (simp add: entry_ready_def sec_ok_def params_ok_def)

text \<open>An entry after its parameters were recorded.\<close>

definition filled :: "entry \<Rightarrow> bool" where
  "filled e \<longleftrightarrow> params_ok e \<and> dict_wf (e_sections e) \<and> e_purpose e \<noteq> None \<and> e_identifier e \<noteq> None"

lemma ready_filled: "entry_ready e \<Longrightarrow> filled e"
  using entry_ready_params [of e] by (auto simp: filled_def entry_ready_def)

lemma filled_core: "core e' = core e \<Longrightarrow> params_ok e' \<Longrightarrow> filled e \<Longrightarrow> filled e'"
  using core_fields [of e' e] by (simp add: filled_def)

lemma check_sections_params: "params_ok (check_sections ln nm dt e) = params_ok e"
  by (simp add: check_sections_def check_section_fold check_param_fold Let_def params_ok_def param_ok_def [abs_def])

lemma check_return_params: "params_ok (check_return_section w ln nm rt e) = params_ok e"
  by (simp add: check_return_section_def)

lemma filled_create: "filled e \<Longrightarrow> filled (create_parameter_list ln dt args sp nm e)"
  by (rule filled_core [OF core_create]) (simp_all add: filled_def params_ok_create)

lemma filled_check: "filled e \<Longrightarrow> filled (check_sections ln nm dt e)"
  by (rule filled_core [OF core_check_sections]) (simp_all add: filled_def check_sections_params)

lemma filled_check_return: "filled e \<Longrightarrow> filled (check_return_section w ln nm rt e)"
  by (rule filled_core [OF core_check_return]) (simp_all add: filled_def check_return_params)

lemma filled_out: "filled e \<Longrightarrow> ty \<noteq> ''enum'' \<Longrightarrow> out_ok ty e"
  by (simp add: filled_def out_ok_params)

lemma output_filled:
  "has filled k \<Longrightarrow> ty \<in> set (''doc'' # decl_types) \<Longrightarrow> ty \<noteq> ''enum'' \<Longrightarrow> extras_ok ty (other_of args) \<Longrightarrow>
   safe b items_ok (output_declaration ty nm args k)"
  using has_mono [of filled k "out_ok ty"] filled_out output_safe by blast

lemma purpose_then_output:
  assumes "has filled k" and "ty \<in> set (''doc'' # decl_types)" and "ty \<noteq> ''enum''"
    and "\<And>purpose. extras_ok ty (other_of (args purpose))"
  shows "safe b items_ok (rbind (get_attr e_purpose k) (\<lambda>purpose. output_declaration ty nm (args purpose) k))"
  by (rule safe_rbind [OF get_attr_safe [OF assms(1)]]) (auto simp: filled_def intro: output_filled [OF assms])

lemma struct_groups:
  "sure 1 RE_STRUCT" "bodies 1 RE_STRUCT = [alts (map lit [''struct'', ''union''])]"
  "sure 1 RE_STRUCT_TYPEDEF" "bodies 1 RE_STRUCT_TYPEDEF = [alts (map lit [''struct'', ''union''])]"
  by code_simp+

lemma search_alts:
  assumes "re_search r s = Some m" and "sure 1 r" and "bodies 1 r = [alts (map lit [a, b])]"
  shows "m_str m 1 \<in> {a, b}"
proof -
  obtain t where t: "m_group m 1 = Some t" using re_search_sure [OF assms(1,2)] by auto
  have "\<exists>x \<in> set (bodies 1 r). t \<in> lang x" using re_search_group [OF assms(1) _ t] by simp
  then show ?thesis unfolding assms(3) using t by (auto simp: lang_lit m_str_def)
qed

lemma split_struct_type: "split_struct_proto proto = Some (dt, nm, ms) \<Longrightarrow> dt \<in> {''struct'', ''union''}"
  using search_alts [OF _ struct_groups(1,2)] search_alts [OF _ struct_groups(3,4)]
  by (auto simp: split_struct_proto_def split: option.splits)

lemma dump_struct_safe: "has entry_ready k \<Longrightarrow> safe {IndexError} items_ok (dump_struct ln proto source k)"
proof -
  assume k: "has entry_ready k"
  have f: "has filled k" using k by (rule has_mono) (rule ready_filled)
  show ?thesis
  proof (cases "split_struct_proto (trim_private_members proto)")
    case None
    then show ?thesis using has_items_ok [OF k] by (simp add: dump_struct_def)
  next
    case (Some parts)
    obtain dt nm ms where p: "parts = (dt, nm, ms)" by (cases parts)
    have dt: "dt \<in> set (''doc'' # decl_types)" "dt \<noteq> ''enum''" "dt \<noteq> ''var''"
      using split_struct_type Some p by (fastforce simp: decl_types_def)+
    have u: "safe {IndexError} (has filled) (upd_entry (\<lambda>e. check_sections ln nm dt (create_parameter_list ln dt x (CHR '';'') nm e)) k)" for x
      by (rule upd_entry_safe [OF f]) (intro filled_check filled_create)
    have "safe {IndexError} items_ok (rbind (text_of (ctrans_apply ''struct'' (Text ms))) (\<lambda>declaration.
          rbind (upd_entry (\<lambda>e. check_sections ln nm dt
            (create_parameter_list ln dt (re_sub RE_BRACES [] (rewrite_struct_members declaration)) (CHR '';'') nm e)) k) (\<lambda>k1.
          rbind (get_attr e_purpose k1) (\<lambda>purpose.
          output_declaration dt nm
            [(''source'', V_str source), (''definition'', V_str (format_struct_decl declaration)), (''purpose'', V_str purpose)] k1))))"
      by (rule safe_rbind [OF text_of_safe], rule safe_rbind [OF u], rule purpose_then_output [OF _ dt(1,2)])
        (simp_all add: other_of_simps dt(3))
    then show ?thesis
      unfolding dump_struct_def Let_def Some p option.case prod.case
      by (intro safe_rbind [OF get_attr_safe [OF f]]) (use has_items_ok [OF k] in \<open>auto simp: filled_def\<close>)
  qed
qed

lemma finish_function_safe: "has filled k \<Longrightarrow> safe {IndexError} items_ok (finish_function ln source rt nm fm k)"
proof -
  assume f: "has filled k"
  have u: "safe {IndexError} (has filled) (upd_entry (\<lambda>e. check_return_section (cf_wreturn (k_config k)) ln nm rt
      (check_sections ln nm ''function'' e)) k)"
    by (rule upd_entry_safe [OF f]) (intro filled_check filled_check_return)
  have 1: "safe {IndexError} items_ok (rbind (upd_entry (\<lambda>e. check_return_section (cf_wreturn (k_config k)) ln nm rt
         (check_sections ln nm ''function'' e)) k) (\<lambda>k1.
       rbind (get_attr e_purpose k1) (\<lambda>purpose.
       output_declaration ''function'' nm
         [(''source'', V_str source), (''typedef'', V_bool (contains rt ''typedef'')),
          (''functiontype'', V_str rt), (''purpose'', V_str purpose), (''func_macro'', V_bool fm)] k1)))"
    by (rule safe_rbind [OF u], rule purpose_then_output) (simp_all add: decl_types_def other_of_simps)
  then show ?thesis unfolding finish_function_def
    by (intro safe_rbind [OF get_attr_safe [OF f]]) (use has_items_ok [OF f] in \<open>auto simp: filled_def\<close>)
qed

lemma create_filled: "has filled k \<Longrightarrow> safe b (has filled) (upd_entry (create_parameter_list ln dt args sp nm) k)"
  by (rule upd_entry_safe [of filled]) (simp_all add: filled_create)

lemma dump_function_args_safe: "has filled k \<Longrightarrow> safe {IndexError} items_ok (dump_function_args ln proto source k)"
  by (auto simp: dump_function_args_def split: option.splits intro!: has_items_ok safe_rbind [OF create_filled] finish_function_safe)

lemma dump_function_safe: "has filled k \<Longrightarrow> safe {IndexError} items_ok (dump_function ln proto source k)"
  by (auto simp: dump_function_def Let_def split: option.splits
      intro!: finish_function_safe dump_function_args_safe safe_rbind [OF text_of_safe])

lemma dump_typedef_safe: "has filled k \<Longrightarrow> safe {IndexError} items_ok (dump_typedef ln proto source k)"
proof -
  assume f: "has filled k"
  have id: "safe {IndexError} (\<lambda>_. True) (get_attr e_identifier k)"
    by (rule get_attr_safe [OF f]) (simp add: filled_def)
  show ?thesis unfolding dump_typedef_def
    by (auto split: option.splits intro!: safe_rbind [OF id] safe_rbind [OF create_filled [OF f]] purpose_then_output f
        simp: decl_types_def has_items_ok [OF f] other_of_simps)
qed

lemma dump_var_safe: "has filled k \<Longrightarrow> proto \<noteq> [] \<Longrightarrow> safe {IndexError} items_ok (dump_var ln proto source k)"
proof -
  assume f: "has filled k" and pr: "proto \<noteq> []"
  have t: "safe {IndexError} (\<lambda>_. True) (if m = None then text_of (ctrans_apply ''var'' (Text proto)) else Inr proto)" for m :: "string option"
    by (simp add: text_of_safe)
  show ?thesis unfolding dump_var_def Let_def
    by (rule safe_rbind [OF t]) (auto split: option.splits prod.splits intro!: purpose_then_output f
        simp: decl_types_def has_items_ok [OF f] other_of_simps pr)
qed

text \<open>The values of an enumeration are listed and described.\<close>

definition enum_ok :: "entry \<Rightarrow> bool" where
  "enum_ok e \<longleftrightarrow> dict_wf (e_sections e) \<and> e_purpose e \<noteq> None \<and> (\<forall>p \<in> set (e_parameterlist e). dict_has (e_parameterdescs e) p)"

lemma enum_ok_value: "enum_ok e \<Longrightarrow> enum_ok (enum_value ln nm e arg)"
  by (auto simp: enum_ok_def enum_value_def Let_def entry_warn_def describe_def)

lemma enum_ok_excess: "enum_ok e \<Longrightarrow> enum_ok (enum_excess ln nm ms e key)"
  by (simp add: enum_ok_def enum_excess_def entry_warn_def)

lemma enum_ok_foldl: "(\<And>e x. enum_ok e \<Longrightarrow> enum_ok (f e x)) \<Longrightarrow> enum_ok e \<Longrightarrow> enum_ok (foldl f e xs)"
  by (induction xs arbitrary: e) simp_all

lemma enum_ok_members: "enum_ok e \<Longrightarrow> enum_ok (enum_members ln nm ms e)"
  by (simp add: enum_members_def Let_def enum_ok_foldl enum_ok_value enum_ok_excess)

lemma dump_enum_safe: "has entry_ready k \<Longrightarrow> safe {IndexError} items_ok (dump_enum ln proto source k)"
proof -
  assume k: "has entry_ready k"
  have e: "has enum_ok k" using k by (rule has_mono) (auto simp: enum_ok_def entry_ready_def sec_ok_def)
  have id: "safe {IndexError} (\<lambda>_. True) (get_attr e_identifier k)"
    by (rule get_attr_safe [OF k]) (simp add: entry_ready_def)
  have u: "safe {IndexError} (has enum_ok) (upd_entry (enum_members ln nm ms) k)" for nm ms
    by (rule upd_entry_safe [OF e]) (rule enum_ok_members)
  have o: "safe {IndexError} items_ok (rbind (get_attr e_purpose k1) (\<lambda>purpose. output_declaration ''enum'' nm (args purpose) k1))"
    if "has enum_ok k1" "\<And>purpose. extras_ok ''enum'' (other_of (args purpose))" for k1 nm args
    by (rule safe_rbind [OF get_attr_safe [OF that(1)]], simp add: enum_ok_def, rule output_safe [OF has_mono [OF that(1)]])
      (auto simp: enum_ok_def out_ok_def decl_types_def that(2))
  show ?thesis unfolding dump_enum_def Let_def
    by (auto split: option.splits intro!: safe_rbind [OF id] safe_rbind [OF u] o simp: has_items_ok [OF k] other_of_simps)
qed

lemma dump_declaration_safe:
  assumes "has entry_ready k" and "k_entry k = Some e" and "e_decl_type e \<noteq> Some ''function''" and "proto \<noteq> []"
  shows "safe {IndexError} items_ok (dump_declaration ln proto source k)"
proof -
  have f: "has filled k" using assms(1) by (rule has_mono) (rule ready_filled)
  obtain dt where dt: "e_decl_type e = Some dt" "dt \<in> set decl_types"
    using assms(1,2) by (auto simp: has_def entry_ready_def)
  with assms(3) have "dt \<in> {''struct'', ''union'', ''enum'', ''typedef'', ''var''}" by (auto simp: decl_types_def)
  moreover have "get_attr e_decl_type k = Inr dt" by (simp add: get_attr_def assms(2) dt)
  ultimately show ?thesis
    using dump_enum_safe [OF assms(1)] dump_typedef_safe [OF f] dump_struct_safe [OF assms(1)] dump_var_safe [OF f assms(4)]
    by (auto simp: dump_declaration_def)
qed

section \<open>Prototype lines\<close>

lemma munge_safe: "has entry_ready k \<Longrightarrow> safe {IndexError} (\<lambda>(p, k'). has entry_ready k') (munge_proto ln proto k)"
proof -
  assume k: "has entry_ready k"
  then obtain e i where e: "k_entry k = Some e" "entry_ready e" "e_identifier e = Some i" "list_all kitem_ok (k_entries k)"
    by (auto simp: has_def entry_ready_def)
  have "has entry_ready (k\<lparr>k_entry := Some (e\<lparr>e_identifier := Some j\<rparr>)\<rparr>)" for j using e by (auto simp: has_def)
  moreover have "has entry_ready (emit_msg ln msg k)" for msg by (rule has_emit [OF k]) simp
  ultimately show ?thesis using k
    by (auto simp: munge_proto_def tracepoint_munge_def Let_def get_attr_def upd_entry_def e)
qed

lemma process_proto_function_safe: "has entry_ready k \<Longrightarrow> safe {IndexError} kdoc_inv (process_proto_function ln line source k)"
proof -
  assume k: "has entry_ready k"
  let ?line = "re_sub RE_C99 [] line"
  have p: "safe {IndexError} (has entry_ready) (upd_entry (\<lambda>e. e\<lparr>e_prototype := f e\<rparr>) k1)" if "has entry_ready k1" for k1 f
    by (rule upd_entry_safe [OF that]) simp
  have g: "safe {IndexError} (\<lambda>_. True) (get_entry f k1)" if "has entry_ready k1" for k1 and f :: "entry \<Rightarrow> string"
    using that by (auto simp: has_def get_entry_def)
  have d: "safe {IndexError} items_ok (dump_function ln pr source k1)" if "has entry_ready k1" for k1 pr
    by (rule dump_function_safe [OF has_mono [OF that]]) (rule ready_filled)
  have fin: "safe {IndexError} kdoc_inv (rbind (get_entry (\<lambda>e. clean_proto (e_prototype e)) k1) (\<lambda>proto.
        rbind (munge_proto ln proto k1) (\<lambda>(proto2, k2).
        rbind (upd_entry (\<lambda>e. e\<lparr>e_prototype := proto2\<rparr>) k2) (\<lambda>k3.
        rbind (dump_function ln proto2 source k3) (\<lambda>k4. Inr (reset_state ln k4))))))"
    if k1: "has entry_ready k1" for k1
  proof (rule safe_rbind [OF g [OF k1]], rule safe_rbind [OF munge_safe [OF k1]], clarify)
    fix proto2 k2 assume k2: "has entry_ready k2"
    show "safe {IndexError} kdoc_inv (rbind (upd_entry (\<lambda>e. e\<lparr>e_prototype := proto2\<rparr>) k2) (\<lambda>k3.
        rbind (dump_function ln proto2 source k3) (\<lambda>k4. Inr (reset_state ln k4))))"
      by (rule safe_rbind [OF p [OF k2]], rule safe_rbind [OF d]) (simp_all add: items_ok_def reset_inv)
  qed
  show ?thesis unfolding process_proto_function_def Let_def
    by (rule safe_rbind [OF p [OF k]]) (auto intro: fin ready_inv)
qed

text \<open>
  A declaration that is not a function ends in \<^verbatim>\<open>dump_declaration\<close>. An inline comment of a function
  prototype leads there as well, and then to the method that does not exist.
\<close>

definition decl_errs :: "kdoc \<Rightarrow> py_err set" where
  "decl_errs k = {IndexError} \<union>
     (if (\<exists>e. k_entry k = Some e \<and> e_decl_type e = Some ''function'') then {AttributeError} else {})"

lemma decl_errs_index: "{IndexError} \<subseteq> decl_errs k"
  by (simp add: decl_errs_def)

lemma dump_declaration_errs:
  assumes "has entry_ready k" and "proto \<noteq> []"
  shows "safe (decl_errs k) items_ok (dump_declaration ln proto source k)"
proof -
  from assms(1) obtain e where e: "k_entry k = Some e" "entry_ready e" "list_all kitem_ok (k_entries k)" by (rule hasE)
  show ?thesis
  proof (cases "e_decl_type e = Some ''function''")
    case True
    then show ?thesis using e by (simp add: dump_declaration_def get_attr_def decl_errs_def)
  next
    case False
    show ?thesis using dump_declaration_safe [OF assms(1) e(1) False assms(2)] decl_errs_index by (rule safe_errs)
  qed
qed

lemma chunk_loop_safe: "has entry_ready k \<Longrightarrow> safe (decl_errs k) kdoc_inv (chunk_loop ln source k cs)"
proof (induction cs arbitrary: k)
  case Nil
  then show ?case by (auto simp: has_def upd_entry_def intro!: ready_inv)
next
  case (Cons c cs)
  from Cons.prems obtain e where e: "k_entry k = Some e" "entry_ready e" "list_all kitem_ok (k_entries k)" by (rule hasE)
  define e1 where "e1 = e\<lparr>e_prototype := e_prototype e @ c,
    e_brcount := (if c = ''{'' then e_brcount e + 1 else if c = ''}'' then e_brcount e - 1 else e_brcount e)\<rparr>"
  define k1 where "k1 = k\<lparr>k_entry := Some e1\<rparr>"
  have k1: "has entry_ready k1" "decl_errs k1 = decl_errs k"
    using e by (simp_all add: has_def k1_def e1_def decl_errs_def)
  have u: "chunk_loop ln source k (c # cs) = (if c = [] then chunk_loop ln source k cs
      else if c = '';'' \<and> e_brcount e1 \<le> 0 then
        rbind (dump_declaration ln (e_prototype e1) source k1) (\<lambda>k2. Inr (reset_state ln k2))
      else chunk_loop ln source k1 cs)"
    by (simp add: upd_entry_def get_entry_def e(1) k1_def e1_def)
  have d: "safe (decl_errs k) kdoc_inv (rbind (dump_declaration ln (e_prototype e1) source k1) (\<lambda>k2. Inr (reset_state ln k2)))"
    if "c \<noteq> []"
  proof -
    have "e_prototype e1 \<noteq> []" using that by (simp add: e1_def)
    from dump_declaration_errs [OF k1(1) this] show ?thesis
      unfolding k1(2) by (rule safe_rbind) (simp add: items_ok_def reset_inv)
  qed
  show ?case unfolding u using Cons.IH [OF Cons.prems] Cons.IH [OF k1(1)] d by (simp add: k1(2))
qed

lemma process_proto_type_safe: "has entry_ready k \<Longrightarrow> safe (decl_errs k) kdoc_inv (process_proto_type ln line source k)"
  by (simp add: process_proto_type_def Let_def chunk_loop_safe ready_inv)

lemma process_inline_name_safe:
  assumes k: "has entry_ready k"
  shows "safe (decl_errs k) kdoc_inv (process_inline_name ln line source k)"
proof -
  let ?k = "(emit_msg ln (''Incorrect use of kernel-doc format: '' @ line) k)\<lparr>k_state := S_PROTO\<rparr>"
  have k2: "has entry_ready ?k" by (simp add: has_emit [OF k])
  have err: "decl_errs ?k = decl_errs k"
    by (auto simp: decl_errs_def emit_msg_def entry_warn_def split: option.splits)
  have 1: "safe (decl_errs k) (\<lambda>k'. has entry_ready k' \<and> k_state k' = k_state k) (kdoc_dump_section k)"
    by (rule dump_safe [of entry_ready]) (use k in \<open>auto simp: entry_ready_def same_ids_def\<close>)
  have 2: "safe (decl_errs k) (has entry_ready) (upd_entry_res (begin_section ln nm False) k)" for nm
    by (rule upd_entry_res_safe [OF k], rule safe_weaken, rule safe_mono, rule begin_section_safe)
      (auto intro: ready_fresh same_ids_ready)
  have 3: "safe (decl_errs k) (has entry_ready) (upd_entry (add_text t) k1)" if "has entry_ready k1" for t k1
    by (rule upd_entry_safe [OF that]) simp
  have 4: "safe (decl_errs k) kdoc_inv (rbind (upd_entry_res (begin_section ln nm False) k) (\<lambda>k1.
      rbind (upd_entry (add_text t) k1) (\<lambda>k2. Inr (k2\<lparr>k_state := S_INLINE_TEXT\<rparr>))))" for nm t
    by (rule safe_rbind [OF 2], rule safe_rbind [OF 3]) (simp_all add: ready_inv)
  have 5: "safe (decl_errs k) kdoc_inv (rbind (kdoc_dump_section k) (\<lambda>k1. Inr (k1\<lparr>k_state := S_PROTO\<rparr>)))"
    by (rule safe_rbind [OF 1]) (simp add: ready_inv)
  have 6: "safe (decl_errs k) kdoc_inv (process_proto_type n l source ?k)" for n l
    using process_proto_type_safe [OF k2] unfolding err .
  show ?thesis unfolding process_inline_name_def
    using 4 5 6 ready_inv [OF k] by (simp split: option.splits)
qed

lemma process_proto_safe:
  assumes k: "has entry_ready k"
  shows "safe {IndexError} kdoc_inv (process_proto ln line source k)"
proof -
  from k obtain e dt where e: "k_entry k = Some e" "e_decl_type e = Some dt" by (auto simp: has_def entry_ready_def)
  have 1: "safe {IndexError} (has entry_ready) (upd_entry_res (begin_section ln nm False) k)" for nm
    by (rule upd_entry_res_safe [OF k], rule safe_weaken, rule safe_mono, rule begin_section_safe)
      (auto intro: ready_fresh same_ids_ready)
  have 2: "safe {IndexError} (has entry_ready) (upd_entry (add_text t) k1)" if "has entry_ready k1" for t k1
    by (rule upd_entry_safe [OF that]) simp
  have 3: "safe {IndexError} kdoc_inv (kdoc_dump_section k1)" if "has entry_ready k1" for k1
    by (rule safe_mono [OF dump_safe [OF that, of entry_ready]]) (auto simp: entry_ready_def same_ids_def ready_inv)
  have 4: "safe {IndexError} kdoc_inv (rbind (upd_entry_res (begin_section ln nm False) k) (\<lambda>k1.
      rbind (upd_entry (add_text t) k1) kdoc_dump_section))" for nm t
    by (rule safe_rbind [OF 1], rule safe_rbind [OF 2]) (simp_all add: 3)
  have 5: "safe {IndexError} kdoc_inv (process_proto_type ln line source k)" if "dt \<noteq> ''function''"
    using process_proto_type_safe [OF k] that by (simp add: decl_errs_def e)
  show ?thesis using 4 5 process_proto_function_safe [OF k] ready_inv [of "k\<lparr>k_state := S_INLINE_NAME\<rparr>"] k
    by (simp add: process_proto_def get_attr_def e split: option.splits)
qed

section \<open>The machine\<close>

lemma state_actions_safe:
  assumes "kdoc_inv k"
  shows "safe {IndexError, AttributeError} kdoc_inv (state_actions (k_state k) ln line source k)"
proof -
  have sub: "{} \<subseteq> {IndexError, AttributeError}" "{IndexError} \<subseteq> {IndexError, AttributeError}"
    "decl_errs k \<subseteq> {IndexError, AttributeError}" by (auto simp: decl_errs_def)
  note r = inv_ready [OF assms]
  show ?thesis
  proof (cases "k_state k")
    case S_NORMAL
    then show ?thesis using safe_errs [OF process_normal_safe [OF assms S_NORMAL] sub(1)] by simp
  next
    case S_NAME
    then have "has fresh k" using assms by (simp add: kdoc_inv_def)
    then show ?thesis using safe_errs [OF process_name_safe [OF _ S_NAME] sub(1)] S_NAME by simp
  next
    case S_DOCBLOCK
    then have "has doc_ready k" using assms by (simp add: kdoc_inv_def)
    then show ?thesis using safe_errs [OF process_docblock_safe [OF _ assms] sub(1)] S_DOCBLOCK by simp
  next
    case S_BODY
    then show ?thesis using safe_errs [OF process_body_safe sub(1)] r by simp
  next
    case S_DECLARATION
    then show ?thesis using safe_errs [OF process_decl_safe sub(1)] r by simp
  next
    case S_SPECIAL_SECTION
    then show ?thesis using safe_errs [OF process_special_safe sub(2)] r by simp
  next
    case S_INLINE_NAME
    then show ?thesis using safe_errs [OF process_inline_name_safe sub(3)] r by simp
  next
    case S_INLINE_TEXT
    then show ?thesis using safe_errs [OF process_inline_text_safe sub(1)] r by simp
  next
    case S_PROTO
    then show ?thesis using safe_errs [OF process_proto_safe sub(2)] r by simp
  qed
qed

definition pk_inv :: "pk_state \<Rightarrow> bool" where
  "pk_inv st \<longleftrightarrow> kdoc_inv (pk_k st)"

lemma store_source_k [simp]: "pk_k (store_source line st) = pk_k st"
  by (simp add: store_source_def)

lemma run_handler_safe: "pk_inv st \<Longrightarrow> safe {IndexError, AttributeError} pk_inv (run_handler ln line st)"
  unfolding run_handler_def Let_def
  by (rule safe_rbind [OF state_actions_safe]) (simp_all add: pk_inv_def)

lemma handle_line_safe: "pk_inv st \<Longrightarrow> safe {IndexError, AttributeError} pk_inv (handle_line ln line st)"
  using run_handler_safe [of "store_source line st"]
  by (auto simp: handle_line_def Let_def pk_inv_def split: prod.splits bool.splits)

lemma kdoc_line_safe: "pk_inv st \<Longrightarrow> safe {IndexError, AttributeError} pk_inv (kdoc_line st nl)"
  using handle_line_safe [of st] handle_line_safe [of "st\<lparr>pk_prev := [], pk_prev_ln := None\<rparr>"]
  by (auto simp: kdoc_line_def Let_def pk_inv_def split: prod.splits)

interpretation machine: safe_step kdoc_line pk_inv "\<lambda>e. e \<in> {IndexError, AttributeError}"
proof unfold_locales
  show "pk_inv s'" if "pk_inv s" "kdoc_line s x = Inr s'" for s x s'
    using kdoc_line_safe [OF that(1), of x] that(2) by simp
  show "e \<in> {IndexError, AttributeError}" if "pk_inv s" "kdoc_line s x = Inl e" for s x e
    using kdoc_line_safe [OF that(1), of x] that(2) by simp
qed

lemma pk_init_inv: "items_ok k \<Longrightarrow> pk_inv (pk_init k)"
  by (simp add: pk_inv_def pk_init_def items_ok_def normal_inv)

lemma unused_entries [simp]: "k_entries (emit_unused_warnings k) = k_entries k"
  by (simp add: emit_unused_warnings_def split: option.splits)



end
