(* ===== verification/Kdoc_Trace.thy ===== *)
theory Kdoc_Trace
  imports Kdoc_Safety
begin

text \<open>
  What a run of the state machine does to the parser's state and to its list of items: the
  transitions between states form a fixed automaton, which every handler refines; an item is
  appended only when a handler returns to the normal state, at most one per line, and under the
  identifier the comment announced.
\<close>

section \<open>The automaton\<close>

text \<open>The abstract machine: which state may follow which.\<close>

inductive edge :: "pstate \<Rightarrow> pstate \<Rightarrow> bool" where
  stay: "edge s s"
| start: "edge S_NORMAL S_NAME"
| not_kdoc: "edge S_NAME S_NORMAL"
| doc_block: "edge S_NAME S_DOCBLOCK"
| purpose: "edge S_NAME S_DECLARATION"
| no_purpose: "edge S_NAME S_BODY"
| doc_end: "edge S_DOCBLOCK S_NORMAL"
| to_body: "s \<in> {S_DECLARATION, S_SPECIAL_SECTION} \<Longrightarrow> edge s S_BODY"
| special: "s \<in> {S_DECLARATION, S_BODY} \<Longrightarrow> edge s S_SPECIAL_SECTION"
| comment_end: "s \<in> {S_DECLARATION, S_BODY, S_SPECIAL_SECTION} \<Longrightarrow> edge s S_PROTO"
| inline_start: "edge S_PROTO S_INLINE_NAME"
| inline_name: "edge S_INLINE_NAME S_INLINE_TEXT"
| inline_end: "s \<in> {S_INLINE_NAME, S_INLINE_TEXT} \<Longrightarrow> edge s S_PROTO"
| proto_end: "s \<in> {S_PROTO, S_INLINE_NAME} \<Longrightarrow> edge s S_NORMAL"

inductive_simps edge_from:
  "edge S_NORMAL t" "edge S_NAME t" "edge S_DOCBLOCK t" "edge S_DECLARATION t" "edge S_BODY t"
  "edge S_SPECIAL_SECTION t" "edge S_PROTO t" "edge S_INLINE_NAME t" "edge S_INLINE_TEXT t"

inductive_cases edge_into_name: "edge s S_NAME"

section \<open>Frames\<close>

text \<open>A result that, if it is a value, satisfies a predicate, whatever exceptions there are.\<close>

abbreviation outcome :: "('a \<Rightarrow> bool) \<Rightarrow> 'a res \<Rightarrow> bool" where
  "outcome \<equiv> safe UNIV"

lemma outcome_iff: "outcome P r \<longleftrightarrow> (\<forall>v. r = Inr v \<longrightarrow> P v)"
  by (cases r) auto

text \<open>The same items and state; the same state and at most one more item, of which \<open>P\<close> holds.\<close>

definition keeps :: "kdoc \<Rightarrow> kdoc \<Rightarrow> bool" where
  "keeps k k' \<longleftrightarrow> k_entries k' = k_entries k \<and> k_state k' = k_state k"

definition adds :: "(kdoc_item \<Rightarrow> bool) \<Rightarrow> kdoc \<Rightarrow> kdoc \<Rightarrow> bool" where
  "adds P k k' \<longleftrightarrow> k_entries k' = k_entries k \<or> (\<exists>it. P it \<and> k_entries k' = k_entries k @ [it])"

lemma keeps_refl [simp]: "keeps k k"
  by (simp add: keeps_def)

lemma keeps_trans: "keeps k k1 \<Longrightarrow> keeps k1 k2 \<Longrightarrow> keeps k k2"
  by (simp add: keeps_def)

lemma keeps_adds: "keeps k k1 \<Longrightarrow> adds P k1 k2 \<Longrightarrow> adds P k k2"
  by (simp add: keeps_def adds_def)

lemma adds_refl [simp]: "adds P k k"
  by (simp add: adds_def)

lemma adds_mono: "adds P k k' \<Longrightarrow> (\<And>it. P it \<Longrightarrow> Q it) \<Longrightarrow> adds Q k k'"
  by (auto simp: adds_def)

lemma keeps_emit [simp]: "keeps k (emit_msg ln msg k)" "keeps k (emit_info ln msg k)" "keeps k (warn_if b ln msg k)"
  by (simp_all add: keeps_def emit_msg_def emit_info_def warn_if_def split: option.splits)

lemma adds_emit [simp]: "adds P k (emit_msg ln msg k)"
  using keeps_emit(1) [of k ln msg] by (simp add: keeps_def adds_def)

lemma adds_reset [simp]: "adds P k (reset_state ln k') = adds P k k'"
  by (simp add: adds_def)

lemma upd_entry_keeps: "outcome (keeps k) (upd_entry f k)"
  by (cases "k_entry k") (simp_all add: upd_entry_def keeps_def)

lemma upd_entry_res_keeps: "outcome (keeps k) (upd_entry_res f k)"
  by (cases "k_entry k") (auto simp: upd_entry_res_def outcome_iff rbind_Inr_iff keeps_def)

lemma dump_section_keeps: "outcome (keeps k) (kdoc_dump_section k)"
  by (auto simp: kdoc_dump_section_def outcome_iff rbind_Inr_iff keeps_def split: option.splits)

lemma keeps_upd: "upd_entry f k = Inr k1 \<Longrightarrow> keeps k k1" "upd_entry_res g k = Inr k1 \<Longrightarrow> keeps k k1"
    "kdoc_dump_section k = Inr k1 \<Longrightarrow> keeps k k1"
  using upd_entry_keeps [of k f] upd_entry_res_keeps [of k g] dump_section_keeps [of k] by simp_all

lemma outcome_rbind: "(\<And>v. x = Inr v \<Longrightarrow> outcome Q (f v)) \<Longrightarrow> outcome Q (rbind x f)"
  by (cases x) auto

section \<open>Items are appended one at a time\<close>

lemma item_init_name [simp]: "it_name (kdoc_item_init name fname ty n args) = name"
proof -
  have "it_name (foldl item_set it args) = it_name it" for it by (induction args arbitrary: it) simp_all
  then show ?thesis by (simp add: kdoc_item_init_def)
qed

text \<open>The item of a declaration: its name and kind.\<close>

definition item_is :: "string \<Rightarrow> string \<Rightarrow> kdoc_item \<Rightarrow> bool" where
  "item_is ty nm it \<longleftrightarrow> it_name it = nm \<and> it_type it = ty"

lemma output_adds: "outcome (adds (item_is ty nm) k) (output_declaration ty nm args k)"
  by (cases "k_entry k")
    (simp_all add: output_declaration_def Let_def adds_def item_is_def set_sections_def set_params_def)

lemma purpose_output_adds:
  "keeps k0 k \<Longrightarrow>
   outcome (adds (item_is ty nm) k0) (rbind (get_attr e_purpose k) (\<lambda>purpose. output_declaration ty nm (args purpose) k))"
  by (rule outcome_rbind, rule safe_mono [OF output_adds]) (auto intro: keeps_adds)

text \<open>The item a declaration with an announced identifier may become.\<close>

definition announced :: "string \<Rightarrow> kdoc_item \<Rightarrow> bool" where
  "announced ident it \<longleftrightarrow> it_name it = (if it_type it = ''enum'' \<and> ident = [] then ''(anonymous)'' else ident)"

lemma announced_is: "item_is ty nm it \<Longrightarrow> nm = (if ty = ''enum'' \<and> ident = [] then ''(anonymous)'' else ident) \<Longrightarrow> announced ident it"
  by (auto simp: item_is_def announced_def)

lemma named_output:
  assumes "keeps k0 k" and "nm = (if ty = ''enum'' \<and> ident = [] then ''(anonymous)'' else ident)"
  shows "outcome (adds (announced ident) k0) (output_declaration ty nm args k)"
proof (rule safe_mono [OF output_adds])
  fix k' assume "adds (item_is ty nm) k k'"
  then have "adds (announced ident) k k'" by (rule adds_mono) (rule announced_is [OF _ assms(2)])
  then show "adds (announced ident) k0 k'" by (rule keeps_adds [OF assms(1)])
qed

lemma split_struct_not_enum: "split_struct_proto proto = Some (dt, nm, ms) \<Longrightarrow> dt \<noteq> ''enum''"
  using split_struct_type by fastforce

lemma dump_struct_named:
  assumes "get_attr e_identifier k = Inr ident"
  shows "outcome (adds (announced ident) k) (dump_struct ln proto source k)"
proof (cases "split_struct_proto (trim_private_members proto)")
  case None
  then show ?thesis by (simp add: dump_struct_def)
next
  case (Some parts)
  obtain dt nm ms where p: "parts = (dt, nm, ms)" by (cases parts)
  have dt: "dt \<noteq> ''enum''" using Some p split_struct_not_enum by blast
  show ?thesis unfolding dump_struct_def Let_def Some p option.case prod.case assms rbind_simps
    by (auto intro!: outcome_rbind named_output dest!: keeps_upd simp: dt)
qed

lemma dump_enum_named:
  assumes "get_attr e_identifier k = Inr ident"
  shows "outcome (adds (announced ident) k) (dump_enum ln proto source k)"
  unfolding dump_enum_def Let_def assms
  by (auto split: option.splits intro!: outcome_rbind named_output dest!: keeps_upd)

lemma dump_typedef_named:
  assumes "get_attr e_identifier k = Inr ident"
  shows "outcome (adds (announced ident) k) (dump_typedef ln proto source k)"
  unfolding dump_typedef_def assms
  by (auto split: option.splits intro!: outcome_rbind named_output dest!: keeps_upd)

lemma finish_function_named:
  assumes "get_attr e_identifier k = Inr ident"
  shows "outcome (adds (announced ident) k) (finish_function ln source rt nm fm k)"
  unfolding finish_function_def assms
  by (auto intro!: outcome_rbind named_output dest!: keeps_upd)

lemma dump_var_adds: "outcome (adds (\<lambda>it. it_type it = ''var'') k) (dump_var ln proto source k)"
proof -
  have "outcome (adds (\<lambda>it. it_type it = ''var'') k)
      (rbind (get_attr e_purpose k) (\<lambda>purpose. output_declaration ''var'' nm (args purpose) k))" for nm args
    by (rule safe_mono [OF purpose_output_adds [OF keeps_refl]]) (auto intro: adds_mono simp: item_is_def)
  then show ?thesis unfolding dump_var_def Let_def
    by (auto split: option.splits prod.splits intro!: outcome_rbind)
qed

lemma identifier_create:
  assumes "get_attr e_identifier k = Inr ident" and "upd_entry (create_parameter_list ln dt args sp nm) k = Inr k1"
  shows "get_attr e_identifier k1 = Inr ident"
proof -
  from assms obtain e where e: "k_entry k = Some e" "e_identifier e = Some ident"
    by (cases "k_entry k") (auto simp: get_attr_def)
  have "e_identifier (create_parameter_list ln dt args sp nm e) = Some ident"
    using core_fields(1) [OF core_create] e(2) by simp
  then show ?thesis using assms(2) e(1) by (auto simp: get_attr_def upd_entry_def)
qed

lemma dump_function_args_named:
  assumes "get_attr e_identifier k = Inr ident"
  shows "outcome (adds (announced ident) k) (dump_function_args ln proto source k)"
proof (cases "split_function proto")
  case None
  then show ?thesis by (simp add: dump_function_args_def)
next
  case (Some parts)
  obtain rt nm args where p: "parts = (rt, nm, args)" by (cases parts)
  show ?thesis unfolding dump_function_args_def Some p option.case prod.case
  proof (rule outcome_rbind)
    fix k1 assume u: "upd_entry (create_parameter_list ln ''function'' args (CHR '','') nm) k = Inr k1"
    have "keeps k k1" using u by (rule keeps_upd)
    then show "outcome (adds (announced ident) k) (finish_function ln source rt nm False k1)"
      using finish_function_named [OF identifier_create [OF assms u]] by (auto simp: outcome_iff intro: keeps_adds)
  qed
qed

lemma dump_function_named:
  assumes "get_attr e_identifier k = Inr ident"
  shows "outcome (adds (announced ident) k) (dump_function ln proto source k)"
  using finish_function_named [OF assms] dump_function_args_named [OF assms]
  by (auto simp: dump_function_def Let_def split: option.splits intro!: outcome_rbind)

lemma dump_declaration_named:
  assumes "get_attr e_identifier k = Inr ident" and "get_attr e_decl_type k \<noteq> Inr ''var''"
  shows "outcome (adds (announced ident) k) (dump_declaration ln proto source k)"
  unfolding dump_declaration_def
  using dump_enum_named [OF assms(1)] dump_typedef_named [OF assms(1)] dump_struct_named [OF assms(1)] assms(2)
  by (auto intro!: outcome_rbind)

text \<open>Whatever the identifier, a declaration adds at most one item and keeps the state.\<close>

abbreviation grows :: "kdoc \<Rightarrow> kdoc \<Rightarrow> bool" where
  "grows \<equiv> adds (\<lambda>_. True)"

lemma named_grows:
  assumes "\<And>ident. get_attr e_identifier k = Inr ident \<Longrightarrow> outcome (adds (announced ident) k) r"
    and "\<And>e. get_attr e_identifier k = Inl e \<Longrightarrow> outcome (grows k) r"
  shows "outcome (grows k) r"
  using assms by (cases "get_attr e_identifier k") (auto simp: outcome_iff intro: adds_mono)

lemma dump_struct_grows: "outcome (grows k) (dump_struct ln proto source k)"
  by (rule named_grows, erule dump_struct_named) (auto simp: dump_struct_def Let_def split: option.splits)

lemma dump_enum_grows: "outcome (grows k) (dump_enum ln proto source k)"
  by (rule named_grows, erule dump_enum_named) (auto simp: dump_enum_def Let_def split: option.splits)

lemma dump_typedef_grows: "outcome (grows k) (dump_typedef ln proto source k)"
  by (rule named_grows, erule dump_typedef_named) (auto simp: dump_typedef_def split: option.splits)

lemma finish_function_grows: "outcome (grows k) (finish_function ln source rt nm fm k)"
  by (rule named_grows, erule finish_function_named) (simp add: finish_function_def)

lemma dump_var_grows: "outcome (grows k) (dump_var ln proto source k)"
  by (rule safe_mono [OF dump_var_adds]) (erule adds_mono, simp)

lemma dump_function_args_grows: "outcome (grows k) (dump_function_args ln proto source k)"
proof -
  have "outcome (grows k) (finish_function ln source rt nm fm k1)" if "keeps k k1" for rt nm fm k1
    using finish_function_grows [of k1] that by (auto simp: outcome_iff intro: keeps_adds)
  then show ?thesis
    by (auto simp: dump_function_args_def split: option.splits intro!: outcome_rbind dest!: keeps_upd)
qed

lemma dump_function_grows: "outcome (grows k) (dump_function ln proto source k)"
  using finish_function_grows [of k] dump_function_args_grows [of k]
  by (auto simp: dump_function_def Let_def split: option.splits intro!: outcome_rbind)

lemma dump_declaration_grows: "outcome (grows k) (dump_declaration ln proto source k)"
  unfolding dump_declaration_def
  using dump_struct_grows [of k] dump_enum_grows [of k] dump_typedef_grows [of k] dump_var_grows [of k]
  by (auto intro!: outcome_rbind)

section \<open>Every handler refines the automaton\<close>

text \<open>
  One step: an edge of the automaton; the items are the same, or the step ends a documentation
  comment in the normal state and adds one.
\<close>

definition refines :: "kdoc \<Rightarrow> kdoc \<Rightarrow> bool" where
  "refines k k' \<longleftrightarrow> edge (k_state k) (k_state k') \<and>
     (k_entries k' = k_entries k \<or>
      (k_state k \<in> {S_PROTO, S_INLINE_NAME, S_DOCBLOCK} \<and> k_state k' = S_NORMAL \<and>
       (\<exists>it. k_entries k' = k_entries k @ [it])))"

lemma refines_keep: "k_entries k' = k_entries k \<Longrightarrow> edge (k_state k) (k_state k') \<Longrightarrow> refines k k'"
  by (simp add: refines_def)

lemma keeps_refines: "keeps k k' \<Longrightarrow> refines k k'"
  by (simp add: keeps_def refines_def edge.stay)

lemma reset_refines: "grows k k' \<Longrightarrow> k_state k \<in> {S_PROTO, S_INLINE_NAME, S_DOCBLOCK} \<Longrightarrow> refines k (reset_state ln k')"
  by (auto simp: adds_def refines_def edge_from)

lemma is_new_section_moves:
  "is_new_section ln line k = Inr (b, k') \<Longrightarrow>
   k_entries k' = k_entries k \<and> (if b then k_state k' \<in> {S_BODY, S_SPECIAL_SECTION} else k' = k)"
  by (auto simp: is_new_section_def section_of_def rbind_Inr_iff keeps_def split: option.splits if_splits list.splits
      dest!: keeps_upd)

lemma is_comment_end_moves:
  "is_comment_end ln line k = Inr (b, k') \<Longrightarrow> k_entries k' = k_entries k \<and> (if b then k_state k' = S_PROTO else k' = k)"
  using keeps_emit(3)
  by (fastforce simp: is_comment_end_def rbind_Inr_iff keeps_def split: if_splits dest!: keeps_upd)

lemma section_or_end_refines:
  assumes s: "k_state k \<in> {S_DECLARATION, S_BODY, S_SPECIAL_SECTION}" and f: "outcome (refines k) (f k)"
  shows "outcome (refines k) (section_or_end ln line f k)"
proof -
  have new: "refines k k1" if "is_new_section ln line k = Inr (b, k1)" b for b k1
    using is_new_section_moves [OF that(1)] that(2) s by (auto simp: refines_def edge_from)
  have fin: "refines k k1" if "is_comment_end ln line k = Inr (b, k1)" b for b k1
    using is_comment_end_moves [OF that(1)] that(2) s by (auto simp: refines_def edge_from)
  have none: "outcome (refines k) (rbind (is_comment_end ln line k) (\<lambda>(b2, k2). if b2 then Inr k2 else f k2))"
    using f fin is_comment_end_moves [of ln line k False] by (cases "is_comment_end ln line k") auto
  show ?thesis unfolding section_or_end_def
    using none new is_new_section_moves [of ln line k False] by (cases "is_new_section ln line k") auto
qed

lemma bad_line_keeps [simp]: "keeps k (bad_line ln line k)"
  by (simp add: bad_line_def)

lemma upd_refines: "outcome (refines k) (upd_entry f k)" "outcome (refines k) (upd_entry_res g k)"
    "outcome (refines k) (kdoc_dump_section k)"
  by (rule safe_mono, rule upd_entry_keeps upd_entry_res_keeps dump_section_keeps, erule keeps_refines)+

lemma process_body_refines: "k_state k = S_BODY \<Longrightarrow> outcome (refines k) (process_body ln line source k)"
  unfolding process_body_def by (rule section_or_end_refines) (auto split: option.splits simp: upd_refines keeps_refines)

lemma process_decl_refines: "k_state k = S_DECLARATION \<Longrightarrow> outcome (refines k) (process_decl ln line source k)"
  unfolding process_decl_def
  by (rule section_or_end_refines)
    (auto split: option.splits simp: upd_refines keeps_refines edge_from intro!: outcome_rbind refines_keep)

lemma process_special_refines: "k_state k = S_SPECIAL_SECTION \<Longrightarrow> outcome (refines k) (process_special ln line source k)"
proof -
  assume s: "k_state k = S_SPECIAL_SECTION"
  have "outcome (refines k) (section_or_end ln line (\<lambda>k1. case re_search doc_content line of
      Some m \<Rightarrow> upd_entry_res (special_text (m_str m 1)) k1 | None \<Rightarrow> Inr (bad_line ln line k1)) k)"
    by (rule section_or_end_refines) (auto split: option.splits simp: upd_refines keeps_refines s)
  then show ?thesis unfolding process_special_def using s
    by (auto simp: edge_from keeps_def intro!: outcome_rbind refines_keep dest!: keeps_upd)
qed

lemma process_normal_refines: "k_state k = S_NORMAL \<Longrightarrow> outcome (refines k) (process_normal ln line source k)"
  by (auto simp: process_normal_def edge_from intro!: refines_keep)

lemma start_decl_moves:
  "start_decl ln line dt ident k = Inr k' \<Longrightarrow>
   k_entries k' = k_entries k \<and> k_state k' \<in> {S_BODY, S_DECLARATION, S_NORMAL}"
  using keeps_emit by (auto simp: start_decl_def Let_def rbind_Inr_iff keeps_def split: if_splits option.splits dest!: keeps_upd)

lemma process_name_refines: "k_state k = S_NAME \<Longrightarrow> outcome (refines k) (process_name ln line source k)"
proof -
  assume s: "k_state k = S_NAME"
  have start: "refines k k2" if "keeps k k1" "start_decl ln line dt ident k1 = Inr k2" for k1 k2 dt ident
    using start_decl_moves [OF that(2)] that(1) s by (auto simp: refines_def keeps_def edge_from)
  have not: "refines k ((emit_msg ln msg k1)\<lparr>k_state := S_NORMAL\<rparr>)" if "keeps k k1" for k1 msg
    using that s keeps_emit(1) [of k1 ln msg] by (auto simp: refines_def keeps_def edge_from)
  have blk: "refines k (k2\<lparr>k_state := S_DOCBLOCK\<rparr>)" if "keeps k k1" "keeps k1 k2" for k1 k2
    using that s by (auto simp: refines_def keeps_def edge_from)
  have emit: "refines k (emit_msg ln msg k)" for msg by (rule keeps_refines) simp
  show ?thesis unfolding process_name_def
    by (auto split: option.splits simp: Let_def outcome_iff rbind_Inr_iff emit not dest!: keeps_upd intro: start blk)
qed

lemma process_proto_function_refines:
  assumes s: "k_state k = S_PROTO"
  shows "outcome (refines k) (process_proto_function ln line source k)"
proof -
  have munge: "keeps k1 k2" if "munge_proto ln proto k1 = Inr (p, k2)" for proto k1 p k2
    using that by (auto simp: munge_proto_def tracepoint_munge_def Let_def rbind_Inr_iff split: if_splits dest!: keeps_upd)
  have fin: "refines k (reset_state ln k4)" if "keeps k k1" "keeps k1 k2" "keeps k2 k3" "dump_function ln p source k3 = Inr k4"
    for k1 k2 k3 k4 p
  proof (rule reset_refines)
    have "grows k3 k4" using dump_function_grows [of k3 ln p source] that(4) by simp
    then show "grows k k4" using that(1-3) keeps_adds keeps_trans by blast
  qed (simp add: s)
  show ?thesis unfolding process_proto_function_def Let_def
    by (auto simp: outcome_iff rbind_Inr_iff dest!: keeps_upd munge intro: fin keeps_refines split: if_splits)
qed

lemma chunk_loop_refines:
  "k_state k \<in> {S_PROTO, S_INLINE_NAME} \<Longrightarrow> outcome (refines k) (chunk_loop ln source k cs)"
proof (induction cs arbitrary: k)
  case Nil
  show ?case by (simp add: upd_refines)
next
  case (Cons c cs)
  have fin: "refines k (reset_state ln k2)" if "keeps k k1" "dump_declaration ln p source k1 = Inr k2" for k1 k2 p
    using dump_declaration_grows [of k1 ln p source] that Cons.prems by (auto intro!: reset_refines intro: keeps_adds)
  have next_chunk: "refines k k2" if "keeps k k1" "chunk_loop ln source k1 cs = Inr k2" for k1 k2
    using Cons.IH [of k1] that Cons.prems by (auto simp: refines_def keeps_def outcome_iff)
  show ?case using Cons.IH [OF Cons.prems]
    by (auto simp: outcome_iff rbind_Inr_iff dest!: keeps_upd intro: fin next_chunk split: if_splits)
qed

lemma process_proto_type_refines:
  "k_state k \<in> {S_PROTO, S_INLINE_NAME} \<Longrightarrow> outcome (refines k) (process_proto_type ln line source k)"
  by (simp add: process_proto_type_def Let_def chunk_loop_refines keeps_refines)

lemma process_inline_name_refines:
  assumes s: "k_state k = S_INLINE_NAME"
  shows "outcome (refines k) (process_inline_name ln line source k)"
proof -
  let ?k = "\<lambda>msg. (emit_msg ln msg k)\<lparr>k_state := S_PROTO\<rparr>"
  have ent: "k_entries (?k msg) = k_entries k" for msg using keeps_emit(1) [of k ln msg] by (simp add: keeps_def)
  have ptype: "outcome (refines k) (process_proto_type ln l source (?k msg))" for l msg
    using process_proto_type_refines [of "?k msg" ln l source] ent [of msg] s
    by (auto simp: outcome_iff refines_def edge_from)
  have move: "refines k (k2\<lparr>k_state := t\<rparr>)" if "keeps k k1" "keeps k1 k2" "t \<in> {S_INLINE_TEXT, S_PROTO}" for k1 k2 t
    using that s by (auto simp: refines_def keeps_def edge_from)
  show ?thesis unfolding process_inline_name_def
    using ptype by (auto simp: outcome_iff rbind_Inr_iff dest!: keeps_upd intro: move keeps_refl keeps_refines
        split: option.splits if_splits)
qed

lemma process_inline_text_refines:
  "k_state k = S_INLINE_TEXT \<Longrightarrow> outcome (refines k) (process_inline_text ln line source k)"
  by (auto simp: process_inline_text_def upd_refines keeps_refines keeps_def edge_from split: option.splits
      intro!: outcome_rbind refines_keep dest!: keeps_upd)

lemma process_proto_refines: "k_state k = S_PROTO \<Longrightarrow> outcome (refines k) (process_proto ln line source k)"
proof -
  assume s: "k_state k = S_PROTO"
  have three: "refines k k3" if "keeps k k1" "keeps k1 k2" "keeps k2 k3" for k1 k2 k3
    using that by (auto intro!: keeps_refines simp: keeps_def)
  have "refines k (k\<lparr>k_state := S_INLINE_NAME\<rparr>)" using s by (simp add: refines_def edge_from)
  then show ?thesis unfolding process_proto_def
    using process_proto_function_refines [OF s] process_proto_type_refines [of k] s
    by (auto simp: outcome_iff rbind_Inr_iff dest!: keeps_upd intro: three split: option.splits if_splits)
qed

lemma process_docblock_refines: "k_state k = S_DOCBLOCK \<Longrightarrow> outcome (refines k) (process_docblock ln line source k)"
proof -
  assume s: "k_state k = S_DOCBLOCK"
  have "refines k (reset_state ln k2)" if "keeps k k1" "output_declaration ty nm args k1 = Inr k2" for k1 k2 ty nm args
    using output_adds [of ty nm k1 args] that s by (auto intro!: reset_refines intro: keeps_adds adds_mono)
  then show ?thesis unfolding process_docblock_def
    using upd_refines by (auto simp: outcome_iff rbind_Inr_iff dest!: keeps_upd intro: keeps_refines split: option.splits if_splits)
qed

lemma state_actions_refines: "outcome (refines k) (state_actions (k_state k) ln line source k)"
  by (cases "k_state k")
    (simp_all add: process_normal_refines process_name_refines process_body_refines process_decl_refines
      process_special_refines process_inline_name_refines process_inline_text_refines process_proto_refines
      process_docblock_refines)

text \<open>
  C5. Every handler refines the automaton: from any state of the parser, whatever the line, the
  handler of that state moves along an edge of the automaton; it leaves the list of items alone, or
  it returns to the normal state from a prototype or a documentation block and appends one item.
\<close>

theorem handlers_refine_automaton:
  "case state_actions (k_state k) ln line source k of
     Inl e \<Rightarrow> True
   | Inr k' \<Rightarrow>
       edge (k_state k) (k_state k') \<and>
       (k_entries k' = k_entries k \<or>
        (k_state k \<in> {S_PROTO, S_INLINE_NAME, S_DOCBLOCK} \<and> k_state k' = S_NORMAL \<and>
         (\<exists>it. k_entries k' = k_entries k @ [it])))"
  using state_actions_refines [of k ln line source]
  by (cases "state_actions (k_state k) ln line source k") (simp_all add: refines_def)

section \<open>Runs\<close>

lemma run_handler_adds: "run_handler ln line st = Inr st' \<Longrightarrow> refines (pk_k st) (pk_k st')"
  using state_actions_refines [of "pk_k st" ln line "pk_source st"]
  by (auto simp: run_handler_def Let_def rbind_Inr_iff)

lemma handle_line_refines: "handle_line ln line st = Inr st' \<Longrightarrow> refines (pk_k st) (pk_k st')"
  using run_handler_adds [of ln line "store_source line st" st']
  by (auto simp: handle_line_def Let_def intro: keeps_refines split: if_splits prod.splits bool.splits)

lemma kdoc_line_refines: "kdoc_line st nl = Inr st' \<Longrightarrow> refines (pk_k st) (pk_k st')"
  using handle_line_refines [of _ _ st st'] handle_line_refines [of _ _ "st\<lparr>pk_prev := [], pk_prev_ln := None\<rparr>" st']
  by (auto simp: kdoc_line_def Let_def intro: keeps_refines split: if_splits prod.splits)

text \<open>The states a run goes through, and the items it adds.\<close>

lemma run_refines:
  "fold_res kdoc_line st nls = Inr st' \<Longrightarrow>
   edge\<^sup>*\<^sup>* (k_state (pk_k st)) (k_state (pk_k st')) \<and>
   (\<exists>its. k_entries (pk_k st') = k_entries (pk_k st) @ its \<and> length its \<le> length nls)"
proof (induction nls arbitrary: st)
  case Nil
  then show ?case by simp
next
  case (Cons nl nls)
  then obtain st1 where st1: "kdoc_line st nl = Inr st1" and r: "fold_res kdoc_line st1 nls = Inr st'"
    by (auto simp: rbind_Inr_iff)
  from kdoc_line_refines [OF st1] obtain its1 where e: "edge (k_state (pk_k st)) (k_state (pk_k st1))"
      and i1: "k_entries (pk_k st1) = k_entries (pk_k st) @ its1" "length its1 \<le> 1"
    by (auto simp: refines_def)
  from Cons.IH [OF r] obtain its2 where "edge\<^sup>*\<^sup>* (k_state (pk_k st1)) (k_state (pk_k st'))"
      and "k_entries (pk_k st') = k_entries (pk_k st1) @ its2" "length its2 \<le> length nls" by auto
  with e i1 show ?case by (auto intro: converse_rtranclp_into_rtranclp)
qed

text \<open>
  C6. Items are never lost or reordered: parsing a file keeps the items the parser already holds and
  appends at most one for each line of the file.
\<close>

theorem parse_kdoc_appends:
  "case parse_kdoc k file of
     Inl e \<Rightarrow> True
   | Inr (exports, k') \<Rightarrow>
       (\<exists>its. k_entries k' = k_entries k @ its \<and> length its \<le> (case file of None \<Rightarrow> 0 | Some lines \<Rightarrow> length lines))"
proof (cases "file")
  case None
  then show ?thesis by (simp add: parse_kdoc_def)
next
  case (Some lines)
  show ?thesis
  proof (cases "fold_res kdoc_line (pk_init k) (enumerate 0 lines)")
    case (Inr st)
    from run_refines [OF Inr] show ?thesis by (simp add: parse_kdoc_def Some Inr) (simp add: pk_init_def)
  qed (simp add: parse_kdoc_def Some)
qed


text \<open>A configuration and an entry to evaluate the machine on.\<close>

definition quiet :: config where
  "quiet = \<lparr>cf_wreturn = False, cf_wshort_desc = False, cf_verbose = False\<rparr>"

definition announced_entry :: "string \<Rightarrow> string \<Rightarrow> entry" where
  "announced_entry ty ident = (entry_init ''f.h'' 0)
     \<lparr>e_identifier := Some ident, e_decl_type := Some ty, e_purpose := Some ''p'', e_section := Some SECTION_DEFAULT\<rparr>"

definition parser_at :: "pstate \<Rightarrow> entry \<Rightarrow> kdoc" where
  "parser_at s e = (kdoc_init quiet ''f.h'' False)\<lparr>k_state := s, k_entry := Some e\<rparr>"


end
