(* ===== verification/Kdoc_Props.thy ===== *)
theory Kdoc_Props
  imports Kdoc_Trace
begin

text \<open>
  Functional behaviour of single operations of the parser: exports, the indentation of special
  sections, documentation blocks, system call prototypes; and the two exceptions a file can raise.
\<close>

section \<open>Exports\<close>

lemma process_export_set:
  "set (snd (process_export tbl line)) = set tbl \<union> set (List.map_filter export_of [line])"
  "distinct tbl \<Longrightarrow> distinct (snd (process_export tbl line))"
  by (auto simp: process_export_def List.map_filter_def split: option.splits)

lemma export_fold:
  "set (foldl (\<lambda>tbl line. snd (process_export tbl line)) tbl lines) = set tbl \<union> set (List.map_filter export_of lines)"
  "distinct tbl \<Longrightarrow> distinct (foldl (\<lambda>tbl line. snd (process_export tbl line)) tbl lines)"
proof (induction lines arbitrary: tbl)
  case (Cons l ls)
  { case 1 show ?case using Cons(1) by (auto simp: process_export_set List.map_filter_def) }
  { case 2 then show ?case using Cons(2) by (simp add: process_export_set(2)) }
qed (simp_all add: List.map_filter_def)

text \<open>
  The export table of a file that can be read is a set: it holds the symbol of every line that
  exports one, each once, and nothing else.
\<close>

theorem parse_export_exact:
  "\<exists>t. parse_export (Some lines) = Some t \<and> distinct t \<and> set t = set (List.map_filter export_of lines)"
  using export_fold(1) [of "[]" lines] export_fold(2) [of "[]" lines] by (simp add: parse_export_def)

text \<open>The exports \<^verbatim>\<open>parse_kdoc\<close> collects come from lines of ordinary code only.\<close>

definition plain_line :: "string \<Rightarrow> string" where
  "plain_line raw_line = strip_char NL (expandtabs raw_line)"

lemma handle_line_exports:
  assumes "handle_line ln line st = Inr st'"
  shows "set (pk_exports st') \<subseteq> set (pk_exports st) \<union>
    (if k_state (pk_k st) = S_NORMAL then set (List.map_filter export_of [line]) else {})"
proof -
  have st: "pk_exports (store_source line st) = pk_exports st" by (simp add: store_source_def)
  have run: "run_handler ln line st1 = Inr st2 \<Longrightarrow> pk_exports st2 = pk_exports st1" for st1 st2
    by (auto simp: run_handler_def Let_def rbind_Inr_iff)
  show ?thesis using assms process_export_set(1) [of "pk_exports st" line] run [of "store_source line st" st']
    by (auto simp: handle_line_def Let_def st split: if_splits prod.splits bool.splits)
qed

lemma kdoc_line_exports:
  assumes "kdoc_line st (ln, rl) = Inr st'"
  shows "set (pk_exports st') \<subseteq> set (pk_exports st) \<union> set (List.map_filter export_of [plain_line rl])"
  using assms handle_line_exports [of _ _ st st'] handle_line_exports [of _ _ "st\<lparr>pk_prev := [], pk_prev_ln := None\<rparr>" st']
  by (fastforce simp: kdoc_line_def Let_def plain_line_def split: if_splits)

lemma run_exports:
  "fold_res kdoc_line st (enumerate n lines) = Inr st' \<Longrightarrow>
   set (pk_exports st') \<subseteq> set (pk_exports st) \<union> set (List.map_filter export_of (map plain_line lines))"
proof (induction lines arbitrary: st n)
  case Nil
  then show ?case by simp
next
  case (Cons l ls)
  then obtain st1 where "kdoc_line st (n, l) = Inr st1" "fold_res kdoc_line st1 (enumerate (Suc n) ls) = Inr st'"
    by (auto simp: rbind_Inr_iff)
  with Cons.IH [of st1 "Suc n"] kdoc_line_exports [of st n l st1] show ?case
    by (auto simp: List.map_filter_def split: option.splits)
qed

text \<open>
  C32. Parsing the documentation of a file exports nothing that is not there: every symbol it returns
  is exported by some line of the file, with tabs expanded and without its newline.
\<close>

theorem parse_kdoc_exports:
  "case parse_kdoc k (Some lines) of
     Inl e \<Rightarrow> True
   | Inr (exports, k') \<Rightarrow> set exports \<subseteq> set (List.map_filter export_of (map plain_line lines))"
proof (cases "fold_res kdoc_line (pk_init k) (enumerate 0 lines)")
  case (Inr st)
  from run_exports [OF Inr] show ?thesis by (simp add: parse_kdoc_def Inr) (simp add: pk_init_def)
qed (simp add: parse_kdoc_def)

section \<open>The indentation of special sections\<close>

abbreviation blanks :: "string \<Rightarrow> nat" where
  "blanks s \<equiv> length (takeWhile (\<lambda>c. c = CHR '' '') s)"

lemma lead_check_spec:
  "i \<le> length cont \<Longrightarrow> lead_check cont i n =
     (if blanks (drop i cont) < n then (if i + blanks (drop i cont) = length cont then Inl IndexError else Inr (i + blanks (drop i cont)))
      else Inr (i + n))"
proof (induction n arbitrary: i)
  case 0
  show ?case by simp
next
  case (Suc n)
  show ?case
  proof (cases "i = length cont")
    case True
    then show ?thesis by simp
  next
    case False
    then have i: "i < length cont" using Suc.prems by simp
    then have d: "drop i cont = cont ! i # drop (Suc i) cont" by (rule Cons_nth_drop_Suc [symmetric])
    show ?thesis using Suc.IH [of "Suc i"] i unfolding d by simp
  qed
qed

text \<open>
  C31. Text of a special section loses its indentation: with an indentation of \<open>n\<close> blanks, a line loses
  \<open>n\<close> blanks, or all it has when it has fewer, which is the indentation from then on; a line of
  fewer than \<open>n\<close> blanks and nothing else raises \<open>IndexError\<close>.
\<close>

theorem special_text_exact:
  "special_text cont e =
     (let n = leading_of cont (e_leading_space e); b = blanks cont in
      if b < n \<and> b = length cont then Inl IndexError
      else Inr (add_text (drop (min n b) cont) (e\<lparr>e_leading_space := Some (min n b)\<rparr>)))"
  by (auto simp: special_text_def lead_check_spec Let_def)

section \<open>The exceptions of a file\<close>

text \<open>
  A comment line without a leading star that ends in one raises \<open>IndexError\<close>: after an indented
  line of a parameter description, such a line ends the parse of the whole file.
\<close>

theorem star_line_raises:
  "parse_kdoc (kdoc_init quiet ''f.h'' False)
     (Some [''/**'' @ [NL], '' * f() - g'' @ [NL], '' * @a: b'' @ [NL], '' *   c'' @ [NL], ''d *'' @ [NL]]) = Inl IndexError"
  by code_simp

text \<open>
  A comment inside the prototype of a function that is not a parameter description and holds a
  semicolon raises \<open>AttributeError\<close>: the line is handled as part of a type declaration, whose last
  branch calls a method that does not exist.
\<close>

theorem inline_comment_raises:
  "parse_kdoc (kdoc_init quiet ''f.h'' False)
     (Some [''/**'' @ [NL], '' * f() - g'' @ [NL], '' */'' @ [NL], ''/**'' @ [NL], '' * x;'' @ [NL]]) = Inl AttributeError"
  by code_simp

section \<open>Documentation blocks\<close>

text \<open>A line of a documentation block with its text: not the last one, and with a star before the text.\<close>

definition block_line :: "string \<Rightarrow> string \<Rightarrow> bool" where
  "block_line line t \<longleftrightarrow> re_search doc_end line = None \<and>
     (case re_search doc_content line of None \<Rightarrow> False | Some m \<Rightarrow> m_str m 1 = t)"

lemma docblock_text:
  "block_line line t \<Longrightarrow> k_entry k = Some e \<Longrightarrow>
   process_docblock ln line source k = Inr (k\<lparr>k_entry := Some (add_text t e)\<rparr>)"
  by (auto simp: block_line_def process_docblock_def upd_entry_def split: option.splits)

lemma docblock_texts:
  assumes "list_all2 block_line lines ts" and "k_entry k = Some e"
  shows "fold_res (\<lambda>k (ln, line). process_docblock ln line source k) k (enumerate n lines) =
    Inr (k\<lparr>k_entry := Some (e\<lparr>e_contents := e_contents e @ ts\<rparr>)\<rparr>)"
  using assms
proof (induction lines ts arbitrary: k e n rule: list_all2_induct)
  case Nil
  then show ?case by (cases k) simp
next
  case (Cons line lines t ts)
  have "process_docblock n line source k = Inr (k\<lparr>k_entry := Some (add_text t e)\<rparr>)"
    using docblock_text Cons by blast
  then show ?case using Cons.IH [of "k\<lparr>k_entry := Some (add_text t e)\<rparr>" "add_text t e" "Suc n"]
    by (simp add: add_text_def)
qed

text \<open>
  C13. A documentation block becomes one item with its text: after the title, any number of text
  lines and the closing line append one item of kind \<^verbatim>\<open>doc\<close>, named after the title, whose only section
  is the title with the texts of the lines in order, one per line; the parser is back in the normal
  state.
\<close>

theorem docblock_item:
  assumes "k_entry k = Some e" and "e_identifier e = Some title" and "e_section e = Some title"
    and "e_new_start_line e = Some l" and "e_contents e = []" and "e_sections e = []"
    and "title \<notin> {''Description'', ''Return''}" and "re_match type_param title = None"
    and "list_all2 block_line lines ts" and "re_search doc_end last_line \<noteq> None"
  shows "\<exists>k' it. rbind (fold_res (\<lambda>k (ln, line). process_docblock ln line source k) k (enumerate n lines))
      (process_docblock ln last_line source) = Inr k' \<and>
    k_entries k' = k_entries k @ [it] \<and> k_state k' = S_NORMAL \<and> it_type it = ''doc'' \<and> it_name it = title \<and>
    it_sections it = [(title, join [NL] ts @ [NL])]"
proof -
  let ?e = "e\<lparr>e_contents := ts\<rparr>"
  let ?k = "k\<lparr>k_entry := Some ?e\<rparr>"
  have run: "fold_res (\<lambda>k (ln, line). process_docblock ln line source k) k (enumerate n lines) = Inr ?k"
    using docblock_texts [OF assms(9,1), of source n] assms(5) by simp
  have dump: "dump_section True ?e = Inr (close_section True
      (?e\<lparr>e_sections := [(title, join [NL] ts @ [NL])], e_sections_lines := dict_set (e_sections_lines e) title (int l),
         e_new_start_line := Some 0\<rparr>))"
    using assms(3-8) by (simp add: dump_section_def Let_def entry_contents_def dict_get_def SECTION_DEFAULT_def)
  show ?thesis unfolding run rbind_simps
    using assms(2,3,7,10) dump
    by (auto simp: process_docblock_def kdoc_dump_section_def close_section_def get_attr_def output_declaration_def Let_def
        drop_empty_def dict_get_def set_sections_def set_params_def)
qed

theorem docblock_item_witness:
  "\<exists>k' it. rbind (fold_res (\<lambda>k (ln, line). process_docblock ln line [] k)
        (parser_at S_DOCBLOCK ((entry_init ''f.h'' 0)\<lparr>e_identifier := Some ''Theory'', e_section := Some ''Theory'', e_new_start_line := Some 1\<rparr>))
        (enumerate 2 ['' * one'', '' *  two'']))
      (process_docblock 4 '' */'' []) = Inr k' \<and>
    k_entries k' = [it] \<and> k_state k' = S_NORMAL \<and> it_type it = ''doc'' \<and> it_name it = ''Theory'' \<and>
    it_sections it = [(''Theory'', ''one'' @ [NL] @ '' two'' @ [NL])]"
proof -
  let ?e = "(entry_init ''f.h'' 0)\<lparr>e_identifier := Some ''Theory'', e_section := Some ''Theory'', e_new_start_line := Some 1\<rparr>"
  have 1: "list_all2 block_line ['' * one'', '' *  two''] [''one'', '' two'']" by code_simp
  have 2: "re_match type_param ''Theory'' = None" "re_search doc_end '' */'' \<noteq> None" by code_simp+
  have 3: "k_entry (parser_at S_DOCBLOCK ?e) = Some ?e" "k_entries (parser_at S_DOCBLOCK ?e) = []"
    by (simp_all add: parser_at_def kdoc_init_def)
  show ?thesis
    using docblock_item [OF 3(1) _ _ _ _ _ _ 2(1) 1 2(2), of 1 "[]" 2 4] 3(2) by (simp add: entry_init_def)
qed

section \<open>System calls\<close>

text \<open>The macro lists types and names separately; the prototype needs them in pairs.\<close>

fun pair_args :: "string list \<Rightarrow> string list" where
  "pair_args (t # n # as) = (t @ '' '' @ n) # pair_args as"
| "pair_args as = as"

lemma odd_commas_skip: "CHR '','' \<notin> set w \<Longrightarrow> odd_commas n (w @ s) = w @ odd_commas n s"
  by (induction w) auto

lemma odd_commas_even: "odd_commas (Suc (Suc n)) s = odd_commas n s"
  by (induction n s rule: odd_commas.induct) simp_all

lemma odd_commas_end: "CHR '','' \<notin> set w \<Longrightarrow> odd_commas n w = w"
  using odd_commas_skip [of w n "[]"] by simp

lemma join_Cons: "ws \<noteq> [] \<Longrightarrow> join sep (w # ws) = w @ sep @ join sep ws"
  by (cases ws) simp_all

lemma odd_commas_pairs: "\<forall>w \<in> set ws. CHR '','' \<notin> set w \<Longrightarrow> odd_commas 0 (join '','' ws) = join '','' (pair_args ws)"
proof (induction ws rule: pair_args.induct)
  case (1 t n ws)
  have 2: "odd_commas 0 (t @ '','' @ n @ rest) = t @ '' '' @ n @ odd_commas 1 rest" for rest
    using 1(2) by (simp add: odd_commas_skip)
  show ?case
  proof (cases ws)
    case Nil
    then show ?thesis using 2 [of "[]"] by simp
  next
    case (Cons w ws')
    have "pair_args ws \<noteq> []" using Cons by (cases ws') simp_all
    then show ?thesis using 1 2 [of "'','' @ join '','' ws"] Cons
      by (simp add: join_Cons odd_commas_even [of 0, simplified])
  qed
qed (simp_all add: odd_commas_end)

text \<open>
  Deleting the odd commas pairs types with names: in a list of arguments given as type, name,
  type, name and so on, each type is joined with its name by a blank and the pairs stay separated by
  commas.
\<close>

theorem syscall_arguments_pair:
  "list_all (\<lambda>w. CHR '','' \<notin> set w) args \<Longrightarrow> odd_commas 0 (join '','' args) = join '','' (pair_args args)"
  using odd_commas_pairs [of args] by (simp add: list_all_iff)

theorem syscall_arguments_pair_witness:
  "odd_commas 0 ''int, fd,char *,buf,size_t,n'' = ''int  fd,char * buf,size_t n''"
  using syscall_arguments_pair [of "[''int'', '' fd'', ''char *'', ''buf'', ''size_t'', ''n'']"] by simp

end
