(* ===== verification/Data_Structs.thy ===== *)
theory Data_Structs
  imports Py_Scan "HOL-Library.Char_ord" "HOL-Library.List_Lexorder"
begin

text \<open>
  \<^verbatim>\<open>parse_data_structs.py\<close>: the symbols a C header defines, the rules that ignore or replace them, and
  the header as a literal block with a cross-reference at every use of a symbol, or a table of
  contents. The files are lists of lines; debug messages are left out.
\<close>

section \<open>Tables\<close>

definition RE_ENUMS :: "regex list" where
  "RE_ENUMS = [re (rx ''^~s*enum~s+([~w_]+)~s*~{''), re (rx ''^~s*enum~s+([~w_]+)~s*$''),
     re (rx ''^~s*typedef~s*enum~s+([~w_]+)~s*~{''), re (rx ''^~s*typedef~s*enum~s+([~w_]+)~s*$'')]"

definition RE_STRUCTS :: "regex list" where
  "RE_STRUCTS = [re (rx ''^~s*struct~s+([_~w][~w~d_]+)~s*~{''), re (rx ''^~s*struct~s+([_~w][~w~d_]+)$''),
     re (rx ''^~s*typedef~s*struct~s+([_~w][~w~d_]+)~s*~{''), re (rx ''^~s*typedef~s*struct~s+([_~w][~w~d_]+)$'')]"

record symbol_def =
  sd_prefix :: string
  sd_suffix :: string
  sd_ref_type :: string
  sd_description :: string

definition symbol_def_of :: "string \<Rightarrow> string \<Rightarrow> symbol_def" where
  "symbol_def_of ref_type description =
     \<lparr>sd_prefix = [BSL, CHR '' ''], sd_suffix = [BSL, CHR '' ''], sd_ref_type = ref_type, sd_description = description\<rparr>"

definition DEF_SYMBOL_TYPES :: "(string, symbol_def) dict" where
  "DEF_SYMBOL_TYPES =
     [(''ioctl'', symbol_def_of '':ref'' ''IOCTL Commands''),
      (''define'', symbol_def_of '':ref'' ''Macros and Definitions''),
      (''symbol'', symbol_def_of '':ref'' ''Enumeration values''),
      (''typedef'', symbol_def_of '':c:type'' ''Type Definitions''),
      (''enum'', symbol_def_of '':c:type'' ''Enumerations''),
      (''struct'', symbol_def_of '':c:type'' ''Structures'')]"

section \<open>State\<close>

record ds =
  ds_data :: string
  ds_symbols :: "(string, (string, string \<times> nat) dict) dict"
  ds_namespace :: "string option"
  ds_ignore :: "(nat \<times> string \<times> string) list"
  ds_replace :: "(nat \<times> string \<times> string \<times> string) list"

definition ds_init :: ds where
  "ds_init = \<lparr>ds_data = [], ds_symbols = map (\<lambda>(ty, _). (ty, [])) DEF_SYMBOL_TYPES, ds_namespace = None,
     ds_ignore = [], ds_replace = []\<rparr>"

definition key_at :: "('k, 'v) dict \<Rightarrow> 'k \<Rightarrow> 'v res" where
  "key_at d k = (case dict_get d k of Some v \<Rightarrow> Inr v | None \<Rightarrow> Inl KeyError)"

section \<open>Rules\<close>

definition RE_IGNORE :: regex where "RE_IGNORE = re (rx ''^ignore~s+(~w+)~s+(~S+)'')"
definition RE_REPLACE :: regex where "RE_REPLACE = re (rx ''^replace~s+(~S+)~s+(~S+)~s+(~S+)'')"
definition RE_NAMESPACE :: regex where "RE_NAMESPACE = re (rx ''^namespace~s+(~S+)'')"

text \<open>One line of the file of rules; a line that is no rule ends the program.\<close>

definition read_rule :: "ds \<Rightarrow> nat \<times> string \<Rightarrow> ds res" where
  "read_rule d nl = (case nl of (n, line0) \<Rightarrow>
     (let ln = n + 1; line = strip line0 in
      if line = [] \<or> startswith line ''#'' then Inr d
      else (case re_match RE_IGNORE line of
          Some m \<Rightarrow> Inr (d\<lparr>ds_ignore := ds_ignore d @ [(ln, m_str m 1, m_str m 2)]\<rparr>)
        | None \<Rightarrow> (case re_match RE_REPLACE line of
            Some m \<Rightarrow> Inr (d\<lparr>ds_replace := ds_replace d @ [(ln, m_str m 1, m_str m 2, m_str m 3)]\<rparr>)
          | None \<Rightarrow> (case re_match RE_NAMESPACE line of
              Some m \<Rightarrow> Inr (d\<lparr>ds_namespace := Some (m_str m 1)\<rparr>)
            | None \<Rightarrow> Inl SystemExit)))))"

definition read_exceptions :: "string list option \<Rightarrow> ds \<Rightarrow> ds res" where
  "read_exceptions rules d = (case rules of None \<Rightarrow> Inr d | Some lines \<Rightarrow> fold_res read_rule d (enumerate 0 lines))"

definition set_symbol_dict :: "string \<Rightarrow> (string, string \<times> nat) dict \<Rightarrow> ds \<Rightarrow> ds" where
  "set_symbol_dict ty refs d = d\<lparr>ds_symbols := dict_set (ds_symbols d) ty refs\<rparr>"

text \<open>
  A rule with an unknown type: the message names the file of rules by a variable of another
  method, so that a \<open>NameError\<close> is raised instead of the exit the code asks for. The same holds for
  the warning about an unknown symbol.
\<close>

definition apply_ignore :: "ds \<Rightarrow> nat \<times> string \<times> string \<Rightarrow> ds res" where
  "apply_ignore d rule = (case rule of (ln, c_type, symbol) \<Rightarrow>
     if \<not> dict_has DEF_SYMBOL_TYPES c_type then Inl NameError
     else rbind (key_at (ds_symbols d) c_type) (\<lambda>refs.
       Inr (if dict_has refs symbol then set_symbol_dict c_type (dict_del refs symbol) d else d)))"

definition RE_C_REF :: regex where "RE_C_REF = re (rx ''^~:c~:(~w+)~:~`(.+)~`'')"
definition RE_REF :: regex where "RE_REF = re (rx ''(~:ref)~:~`(.+)~`'')"

text \<open>The type of the reference and the name a replacement gives.\<close>

definition replacement_ref :: "string \<Rightarrow> string \<times> string \<Rightarrow> string" where
  "replacement_ref old rn = (case rn of (reftype, new) \<Rightarrow> reftype @ '':`'' @ old @ '' <'' @ new @ ''>`'')"

definition reference_of :: "symbol_def \<Rightarrow> string \<Rightarrow> string \<times> string" where
  "reference_of defs new = (case re_match RE_C_REF new of
      Some m \<Rightarrow> ('':c:'' @ m_str m 1, m_str m 2)
    | None \<Rightarrow> (case re_search RE_REF new of
        Some m \<Rightarrow> (m_str m 1, m_str m 2)
      | None \<Rightarrow> (sd_ref_type defs, new)))"

definition apply_replace :: "ds \<Rightarrow> nat \<times> string \<times> string \<times> string \<Rightarrow> ds res" where
  "apply_replace d rule = (case rule of (ln, c_type, old, new) \<Rightarrow>
     (case dict_get DEF_SYMBOL_TYPES c_type of
        None \<Rightarrow> Inl NameError
      | Some defs \<Rightarrow>
        rbind (key_at (ds_symbols d) c_type) (\<lambda>refs.
          (case dict_get refs old of
             Some (_, ln1) \<Rightarrow>
               Inr (set_symbol_dict c_type (dict_set refs old (replacement_ref old (reference_of defs new), ln1)) d)
           | None \<Rightarrow> Inl NameError))))"

definition apply_exceptions :: "ds \<Rightarrow> ds res" where
  "apply_exceptions d =
     rbind (fold_res apply_ignore d (ds_ignore d)) (\<lambda>d1. fold_res apply_replace d1 (ds_replace d1))"

section \<open>Symbols\<close>

definition ref_link_of :: "string option \<Rightarrow> symbol_def \<Rightarrow> string \<Rightarrow> string option \<Rightarrow> bool \<Rightarrow> string" where
  "ref_link_of namespace defs symbol ref_name replace_underscores =
     (let ref_type = sd_ref_type defs in
      if ref_type \<noteq> [] \<or> namespace \<noteq> None then
        (let name1 = (case ref_name of Some (c # t) \<Rightarrow> c # t | _ \<Rightarrow> lower_str symbol);
             name2 = (if ref_type = '':ref'' \<and> replace_underscores then replace name1 ''_'' ''-'' else name1);
             name3 = (if startswith ref_type '':c:'' then
                        (case namespace of Some n \<Rightarrow> n @ ''.'' @ name2 | None \<Rightarrow> name2)
                      else name2) in
         if ref_type \<noteq> [] then ref_type @ '':`'' @ symbol @ '' <'' @ name3 @ ''>`''
         else ''`'' @ symbol @ '' <'' @ name3 @ ''>`'')
      else symbol)"

definition store_type :: "nat \<Rightarrow> string \<Rightarrow> string \<Rightarrow> string option \<Rightarrow> bool \<Rightarrow> ds \<Rightarrow> ds res" where
  "store_type ln symbol_type symbol ref_name replace_underscores d =
     rbind (key_at DEF_SYMBOL_TYPES symbol_type) (\<lambda>defs.
     rbind (key_at (ds_symbols d) symbol_type) (\<lambda>refs.
       Inr (set_symbol_dict symbol_type
         (dict_set refs symbol
           (sd_prefix defs @ ref_link_of (ds_namespace d) defs symbol ref_name replace_underscores @ sd_suffix defs, ln)) d)))"

definition store_line :: "string \<Rightarrow> ds \<Rightarrow> ds" where
  "store_line line d = d\<lparr>ds_data := ds_data d @ rstrip_by (\<lambda>c. c = CHR '' '') (''    '' @ expandtabs line)\<rparr>"

section \<open>Lines\<close>

definition RE_HDR_COMMENT_START :: regex where "RE_HDR_COMMENT_START = re (rx ''/~*.*'')"
definition RE_COMMENT_LINE :: regex where "RE_COMMENT_LINE = re ''(//.*)''"
definition RE_COMMENT_STOP :: regex where "RE_COMMENT_STOP = re (rx ''.*~*/'')"
definition RE_HDR_COMMENT :: regex where "RE_HDR_COMMENT = re (rx ''(/~*.*~*/)'')"
definition RE_ENUM_VALUE :: regex where "RE_ENUM_VALUE = re (rx ''^~s*([_~w][~w~d_]+)~s*[~,=]?'')"
definition RE_IOCTL :: regex where "RE_IOCTL = re (rx ''^~s*#~s*define~s+([~w_]+)~s+_IO'')"
definition RE_HDR_DEFINE :: regex where "RE_HDR_DEFINE = re (rx ''^~s*#~s*define~s+([~w_]+)(~s+|$)'')"
definition RE_TYPEDEF_LINE :: regex where
  "RE_TYPEDEF_LINE = re (rx ''^~s*typedef~s+([_~w][~w~d_]+)~s+(.*)~s+([_~w][~w~d_]+);'')"

text \<open>
  Continuation lines and comments: the statement to look at, if there is one, and whether a comment
  is open and which text is kept for the next line. A line is continued when it ends in two
  backslashes, and only its last character is kept.
\<close>

definition uncomment :: "bool \<times> string \<Rightarrow> string \<Rightarrow> string option \<times> bool \<times> string" where
  "uncomment cm line0 = (case cm of (is_comment, multiline) \<Rightarrow>
     if endswith line0 [BSL, BSL] then (None, is_comment, multiline @ [last line0])
     else
       (let line1 = multiline @ line0;
            opens = (is_comment \<or> re_search RE_HDR_COMMENT_START line1 \<noteq> None);
            line2 = (if opens then line1 else re_sub RE_COMMENT_LINE [] line1) in
        if opens \<and> re_search RE_COMMENT_STOP line2 = None then (None, True, line2)
        else
          (let line3 = re_sub RE_HDR_COMMENT [] line2 in
           (if strip line3 = [] then None else Some line3, False, []))))"

definition store_first :: "nat \<Rightarrow> string \<Rightarrow> regex list \<Rightarrow> string \<Rightarrow> ds \<Rightarrow> (bool \<times> ds) res" where
  "store_first ln ty rs line d = (case first_some (\<lambda>r. re_match r line) rs of
      None \<Rightarrow> Inr (False, d)
    | Some m \<Rightarrow> rbind (store_type ln ty (m_str m 1) None True d) (\<lambda>d1. Inr (True, d1)))"

text \<open>A statement: whether it is, or opens, an enumeration, and the symbols.\<close>

definition scan_statement :: "nat \<Rightarrow> string \<Rightarrow> bool \<times> ds \<Rightarrow> (bool \<times> ds) res" where
  "scan_statement ln line ed = (case ed of (is_enum, d) \<Rightarrow>
     if is_enum then
       rbind (case re_match RE_ENUM_VALUE line of
           Some m \<Rightarrow> store_type ln ''symbol'' (m_str m 1) None True d
         | None \<Rightarrow> Inr d) (\<lambda>d1.
       Inr (CHR ''}'' \<notin> set line, d1))
     else (case re_match RE_IOCTL line of
         Some m \<Rightarrow> rbind (store_type ln ''ioctl'' (m_str m 1) None False d) (\<lambda>d1. Inr (False, d1))
       | None \<Rightarrow> (case re_match RE_HDR_DEFINE line of
           Some m \<Rightarrow> rbind (store_type ln ''define'' (m_str m 1) None True d) (\<lambda>d1. Inr (False, d1))
         | None \<Rightarrow> (case re_match RE_TYPEDEF_LINE line of
             Some m \<Rightarrow>
               rbind (store_type ln ''typedef'' (m_str m 3) (Some (strip (m_str m 2))) True d) (\<lambda>d1. Inr (False, d1))
           | None \<Rightarrow>
             rbind (store_first ln ''enum'' RE_ENUMS line d) (\<lambda>(e, d1).
             rbind (store_first ln ''struct'' RE_STRUCTS line d1) (\<lambda>(_, d2).
             Inr (e, d2)))))))"

record ds_loop =
  dl_ds :: ds
  dl_enum :: bool
  dl_comment :: bool
  dl_multiline :: string

definition header_line :: "ds_loop \<Rightarrow> nat \<times> string \<Rightarrow> ds_loop res" where
  "header_line st nl = (case nl of (line_no, line) \<Rightarrow>
     (let d = store_line line (dl_ds st) in
      case uncomment (dl_comment st, dl_multiline st) (strip_char NL line) of (stmt, cm, ml) \<Rightarrow>
        rbind (case stmt of None \<Rightarrow> Inr (dl_enum st, d) | Some s \<Rightarrow> scan_statement line_no s (dl_enum st, d)) (\<lambda>(e, d1).
        Inr \<lparr>dl_ds = d1, dl_enum = e, dl_comment = cm, dl_multiline = ml\<rparr>)))"

definition parse_header :: "string list \<Rightarrow> string list option \<Rightarrow> ds \<Rightarrow> ds res" where
  "parse_header lines rules d0 =
     rbind (read_exceptions rules (d0\<lparr>ds_data := []\<rparr>)) (\<lambda>d1.
     rbind (fold_res header_line \<lparr>dl_ds = d1, dl_enum = False, dl_comment = False, dl_multiline = []\<rparr> (enumerate 0 lines))
       (\<lambda>st. apply_exceptions (dl_ds st)))"

section \<open>Substitution with a text from the input\<close>

text \<open>
  A replacement that comes from the input is a template all the same. Its escapes: \<^verbatim>\<open>\g<...>\<close>, octal
  numbers, groups, the control characters; a backslash before another letter, a group the pattern
  does not have and a backslash at the end are errors of \<^verbatim>\<open>re\<close>. A group by name is an \<open>IndexError\<close> when
  the pattern has no names.
\<close>

definition is_octal :: "char \<Rightarrow> bool" where
  "is_octal c = (let n = code_of c in 48 \<le> n \<and> n \<le> 55)"

definition is_letter :: "char \<Rightarrow> bool" where
  "is_letter c = (let n = code_of c in (97 \<le> n \<and> n \<le> 122) \<or> (65 \<le> n \<and> n \<le> 90))"

definition octal_val :: "string \<Rightarrow> nat" where
  "octal_val s = foldl (\<lambda>a c. 8 * a + digit_val c) 0 s"

definition group_ref :: "nat \<Rightarrow> nat \<Rightarrow> tpl res" where
  "group_ref groups n = (if n \<le> groups then Inr (T_grp n) else Inl ReError)"

definition named_ref :: "nat \<Rightarrow> string \<Rightarrow> tpl res" where
  "named_ref groups name =
     (if name = [] then Inl ReError
      else if list_all is_digit name then group_ref groups (digits_val 0 name)
      else if list_all is_word name \<and> \<not> is_digit (hd name) then Inl IndexError
      else Inl ReError)"

definition control_escape :: "char \<Rightarrow> char option" where
  "control_escape c =
     (if c = CHR ''a'' then Some (CHR 0x07) else if c = CHR ''b'' then Some (CHR 0x08)
      else if c = CHR ''f'' then Some (CHR 0x0C) else if c = CHR ''n'' then Some NL
      else if c = CHR ''r'' then Some (CHR 0x0D) else if c = CHR ''t'' then Some TAB
      else if c = CHR ''v'' then Some (CHR 0x0B) else if c = BSL then Some BSL else None)"

text \<open>One escape after its backslash: the item and the number of characters it takes.\<close>

definition escape_item :: "nat \<Rightarrow> char \<Rightarrow> string \<Rightarrow> (tpl list \<times> nat) res" where
  "escape_item groups d s =
     (if d = CHR ''g'' then
        (let name = takeWhile (\<lambda>c. c \<noteq> CHR ''>'') (tl s) in
         if s = [] \<or> hd s \<noteq> CHR ''<'' \<or> CHR ''>'' \<notin> set (tl s) then Inl ReError
         else rbind (named_ref groups name) (\<lambda>t. Inr ([t], length name + 3)))
      else if d = CHR ''0'' then
        (let ds = takeWhile is_octal (take 2 s) in Inr ([T_chr (chr_of (octal_val ds))], length ds + 1))
      else if is_digit d then
        (if s \<noteq> [] \<and> is_digit (hd s) then
           (if is_octal d \<and> is_octal (hd s) \<and> tl s \<noteq> [] \<and> is_octal (hd (tl s)) then
              (let v = octal_val (d # take 2 s) in
               if 255 < v then Inl ReError else Inr ([T_chr (chr_of v)], 3))
            else rbind (group_ref groups (10 * digit_val d + digit_val (hd s))) (\<lambda>t. Inr ([t], 2)))
         else rbind (group_ref groups (digit_val d)) (\<lambda>t. Inr ([t], 1)))
      else (case control_escape d of
          Some c \<Rightarrow> Inr ([T_chr c], 1)
        | None \<Rightarrow> if is_letter d then Inl ReError else Inr ([T_chr BSL, T_chr d], 1)))"

fun template :: "nat \<Rightarrow> nat \<Rightarrow> string \<Rightarrow> tpl list res" where
  "template groups (Suc skip) (c # s) = template groups skip s"
| "template groups skip [] = Inr []"
| "template groups 0 (c # s) =
     (if c \<noteq> BSL then rbind (template groups 0 s) (\<lambda>ts. Inr (T_chr c # ts))
      else (case s of
          [] \<Rightarrow> Inl ReError
        | d # s1 \<Rightarrow> rbind (escape_item groups d s1) (\<lambda>(t, n).
            rbind (template groups n s) (\<lambda>ts. Inr (t @ ts)))))"

definition re_sub_input :: "string \<Rightarrow> string \<Rightarrow> string \<Rightarrow> string res" where
  "re_sub_input pattern repl s = (case re_compile pattern no_flags of
      None \<Rightarrow> Inl ReError
    | Some c \<Rightarrow> rbind (template (c_ngroups c) 0 repl) (\<lambda>ts.
        (case re_scan (c_prog c) s of (segs, tail) \<Rightarrow>
          Inr (sub_segs (\<lambda>(pre, t, g). expand ts g) segs @ tail))))"

text \<open>\<^verbatim>\<open>re.escape\<close>.\<close>

definition re_escape :: "string \<Rightarrow> string" where
  "re_escape s = concat (map (\<lambda>c.
     if c \<in> set (rx ''()[]{}?*+-|^$~.&# '' @ [CHR ''~'', TAB, NL, CHR 0x0D, CHR 0x0B, CHR 0x0C]) then [BSL, c] else [c]) s)"

section \<open>Output\<close>

definition RE_TRAILING :: regex where "RE_TRAILING = re (rx ''~s+$'')"
definition RE_BLANK_LINES :: regex where "RE_BLANK_LINES = re (rx ''~n~s+~n'')"
definition RE_SPECIAL :: regex where
  "RE_SPECIAL = re (raw (CHR ''!'') ''([!_!`!*!<!>!&!!!!:!/!|!%!$!#!{!}!~!^])'')"
definition RE_SYMBOL_SPECIAL :: regex where
  "RE_SYMBOL_SPECIAL = re (raw (CHR ''!'') ''([!_!`!*!<!>!&!!!!:!/])'')"
definition RE_DEPRECATED :: regex where "RE_DEPRECATED = re ''DEPRECATED''"
definition RE_ESC_SPACE :: regex where "RE_ESC_SPACE = re (rx ''~~ ([~n ])'')"
definition RE_SPACE_ESC :: regex where "RE_SPACE_ESC = re (rx '' ~~ '')"

definition start_delim :: string where "start_delim = rx ''([ ~n~t~(=~*~@])''"
definition end_delim :: string where "end_delim = rx ''(~s|,|~~=|~~:|~;|~)|~}|~{)''"

definition escape_special :: "regex \<Rightarrow> string \<Rightarrow> string" where
  "escape_special r s = re_sub r (rx ''~~~1'') s"

definition add_reference :: "string \<Rightarrow> string \<times> string \<times> nat \<Rightarrow> string res" where
  "add_reference t ref = (case ref of (symbol, replacement, _) \<Rightarrow>
     re_sub_input (start_delim @ re_escape (escape_special RE_SYMBOL_SPECIAL symbol) @ end_delim)
       (rx ''~1'' @ replacement @ rx ''~2'') t)"

definition literal_block :: "string \<Rightarrow> string" where
  "literal_block t =
     re_sub RE_DEPRECATED ''**DEPRECATED**'' (escape_special RE_SPECIAL
       (re_sub RE_BLANK_LINES (rx ''~n~n'') (re_sub RE_TRAILING [] t @ [NL])))"

definition gen_output :: "ds \<Rightarrow> string res" where
  "gen_output d =
     rbind (fold_res add_reference (literal_block (ds_data d)) (concat (map snd (ds_symbols d)))) (\<lambda>t.
     Inr (re_sub RE_SPACE_ESC '' '' (re_sub RE_ESC_SPACE (rx ''~1'') t)))"

definition symbol_descriptions :: "(string \<times> string) list" where
  "symbol_descriptions = sort_key fst (map (\<lambda>(ty, defs). (sd_description defs, ty)) DEF_SYMBOL_TYPES)"

definition toc_entry :: "string \<times> string \<times> nat \<Rightarrow> string" where
  "toc_entry sr = (case sr of (symbol, ref, ln) \<Rightarrow> ''- LINENO_'' @ str_nat ln @ '': '' @ ref)"

definition toc_category :: "ds \<Rightarrow> string \<times> string \<Rightarrow> string list res" where
  "toc_category d dt = (case dt of (description, c_type) \<Rightarrow>
     rbind (key_at (ds_symbols d) c_type) (\<lambda>refs.
       Inr (if refs = [] then []
            else [description, replicate (length description) (CHR ''-''), []] @
              map toc_entry (sort_key fst refs) @ [[]])))"

definition toc_lines :: "ds \<Rightarrow> string list res" where
  "toc_lines d = fold_res (\<lambda>acc dt. rbind (toc_category d dt) (\<lambda>ls. Inr (acc @ ls))) [] symbol_descriptions"

definition gen_toc :: "ds \<Rightarrow> string res" where
  "gen_toc d = rbind (toc_lines d) (\<lambda>ls. Inr (join [NL] ls))"

definition basename :: "string \<Rightarrow> string" where
  "basename p = rev (takeWhile (\<lambda>c. c \<noteq> CHR ''/'') (rev p))"

definition write_output :: "string \<Rightarrow> bool \<Rightarrow> ds \<Rightarrow> string res" where
  "write_output file_in toc d =
     (let title = basename file_in in
      rbind (if toc then gen_toc d else gen_output d) (\<lambda>t.
      Inr (''.. -*- coding: utf-8; mode: rst -*-'' @ [NL, NL] @ title @ [NL] @ replicate (length title) (CHR ''='') @ [NL, NL] @
        (if toc then [] else ''.. parsed-literal::'' @ [NL, NL]) @ t)))"

text \<open>\<^verbatim>\<open>main\<close> of \<^verbatim>\<open>parse-headers.py\<close>: the file written.\<close>

definition parse_headers :: "string \<Rightarrow> string list \<Rightarrow> string list option \<Rightarrow> bool \<Rightarrow> string res" where
  "parse_headers file_in lines rules toc = rbind (parse_header lines rules ds_init) (write_output file_in toc)"

end
