(* ===== verification/Data_Props.thy ===== *)
theory Data_Props
  imports Data_Structs "HOL-Library.Multiset"
begin

text \<open>
  Properties of the cross-referenced headers: what parsing a header can raise, the effect of the
  rules, the entries of the table of contents, and the escaping of the text.
\<close>

section \<open>The table of symbols\<close>

text \<open>Every kind of symbol has its dictionary, and no symbol is in one twice.\<close>

definition ds_inv :: "ds \<Rightarrow> bool" where
  "ds_inv d \<longleftrightarrow> dict_keys (ds_symbols d) = dict_keys DEF_SYMBOL_TYPES \<and> (\<forall>(ty, refs) \<in> set (ds_symbols d). dict_wf refs)"

definition refs_of :: "ds \<Rightarrow> string \<Rightarrow> (string, string \<times> nat) dict" where
  "refs_of d ty = (case dict_get (ds_symbols d) ty of Some refs \<Rightarrow> refs | None \<Rightarrow> [])"

lemma types_distinct [simp]: "distinct (dict_keys DEF_SYMBOL_TYPES)"
  by code_simp

lemma known_type: "dict_has DEF_SYMBOL_TYPES ty \<longleftrightarrow> ty \<in> {''ioctl'', ''define'', ''symbol'', ''typedef'', ''enum'', ''struct''}"
  by (simp add: dict_has_keys DEF_SYMBOL_TYPES_def)

lemma ds_inv_init [simp]: "ds_inv ds_init"
  by (simp add: ds_inv_def ds_init_def DEF_SYMBOL_TYPES_def dict_wf_def)

lemma ds_init_rules [simp]: "ds_ignore ds_init = []" "ds_replace ds_init = []"
  by (simp_all add: ds_init_def)

lemma dict_set_keys: "k \<in> set (dict_keys d) \<Longrightarrow> dict_keys (dict_set d k v) = dict_keys d"
  by (induction d k v rule: dict_set.induct) auto

lemma dict_set_elem: "x \<in> set (dict_set d k v) \<Longrightarrow> x \<in> set d \<or> x = (k, v)"
  by (induction d k v rule: dict_set.induct) (auto split: if_splits)

lemma ds_inv_get:
  assumes "ds_inv d" and "dict_has DEF_SYMBOL_TYPES ty"
  shows "key_at (ds_symbols d) ty = Inr (refs_of d ty) \<and> dict_wf (refs_of d ty)"
proof -
  have "dict_has (ds_symbols d) ty" using assms by (simp add: dict_has_keys ds_inv_def)
  then obtain refs where r: "dict_get (ds_symbols d) ty = Some refs" by (auto simp: dict_has_def)
  then have "(ty, refs) \<in> set (ds_symbols d)" by (auto simp: dict_get_def dest: map_of_SomeD)
  then show ?thesis using assms(1) r by (auto simp: ds_inv_def key_at_def refs_of_def)
qed

lemma ds_inv_set: "ds_inv d \<Longrightarrow> dict_has DEF_SYMBOL_TYPES ty \<Longrightarrow> dict_wf refs \<Longrightarrow> ds_inv (set_symbol_dict ty refs d)"
  by (auto simp: ds_inv_def set_symbol_dict_def dict_has_keys dict_set_keys dest!: dict_set_elem)

lemma refs_of_set: "refs_of (set_symbol_dict ty refs d) ty' = (if ty' = ty then refs else refs_of d ty')"
  by (simp add: refs_of_def set_symbol_dict_def dict_set_get)

lemma ds_inv_fields [simp]:
  "ds_inv (d\<lparr>ds_data := x\<rparr>) = ds_inv d" "ds_inv (d\<lparr>ds_namespace := n\<rparr>) = ds_inv d"
  "ds_inv (d\<lparr>ds_ignore := i\<rparr>) = ds_inv d" "ds_inv (d\<lparr>ds_replace := r\<rparr>) = ds_inv d"
  "ds_inv (store_line line d) = ds_inv d"
  by (simp_all add: ds_inv_def store_line_def)

text \<open>Parsing the lines changes neither list of rules.\<close>

definition ds_ok :: "(nat \<times> string \<times> string) list \<Rightarrow> (nat \<times> string \<times> string \<times> string) list \<Rightarrow> ds \<Rightarrow> bool" where
  "ds_ok I R d \<longleftrightarrow> ds_inv d \<and> ds_ignore d = I \<and> ds_replace d = R"

lemma ds_ok_line [simp]: "ds_ok I R (store_line line d) = ds_ok I R d"
  by (simp add: ds_ok_def) (simp add: store_line_def)

lemma set_symbol_rules [simp]: "ds_ignore (set_symbol_dict ty refs d) = ds_ignore d" "ds_replace (set_symbol_dict ty refs d) = ds_replace d"
  by (simp_all add: set_symbol_dict_def)

lemma store_type_safe:
  assumes "ds_ok I R d" and "dict_has DEF_SYMBOL_TYPES ty"
  shows "safe {} (ds_ok I R) (store_type ln ty symbol ref u d)"
proof -
  obtain defs where "key_at DEF_SYMBOL_TYPES ty = Inr defs" using assms(2) by (auto simp: key_at_def dict_has_def)
  then show ?thesis using assms ds_inv_get [of d ty] ds_inv_set [of d ty] by (simp add: ds_ok_def store_type_def dict_wf_set)
qed

lemma store_first_safe:
  "ds_ok I R d \<Longrightarrow> dict_has DEF_SYMBOL_TYPES ty \<Longrightarrow> safe {} (\<lambda>(e, d'). ds_ok I R d') (store_first ln ty rs line d)"
  unfolding store_first_def by (auto split: option.split intro!: safe_rbind [OF store_type_safe])

lemma scan_statement_safe:
  assumes "ds_ok I R d"
  shows "safe {} (\<lambda>(e, d'). ds_ok I R d') (scan_statement ln line (en, d))"
proof -
  have known: "dict_has DEF_SYMBOL_TYPES ''symbol''" "dict_has DEF_SYMBOL_TYPES ''ioctl''" "dict_has DEF_SYMBOL_TYPES ''define''"
    "dict_has DEF_SYMBOL_TYPES ''typedef''" "dict_has DEF_SYMBOL_TYPES ''enum''" "dict_has DEF_SYMBOL_TYPES ''struct''"
    by (simp_all add: known_type)
  note st = store_type_safe [OF assms known(1)] store_type_safe [OF assms known(2)]
    store_type_safe [OF assms known(3)] store_type_safe [OF assms known(4)]
  have "safe {} (\<lambda>(e, d'). ds_ok I R d')
      (rbind (store_first ln ''enum'' RE_ENUMS line d) (\<lambda>(e, d1).
       rbind (store_first ln ''struct'' RE_STRUCTS line d1) (\<lambda>(_, d2). Inr (e, d2))))"
    by (rule safe_rbind [OF store_first_safe [OF assms known(5)]]) (auto intro!: safe_rbind [OF store_first_safe [OF _ known(6)]])
  moreover have "safe {} (ds_ok I R) (case re_match RE_ENUM_VALUE line of
      Some m \<Rightarrow> store_type ln ''symbol'' (m_str m 1) None True d | None \<Rightarrow> Inr d)"
    using st(1) assms by (simp split: option.split)
  ultimately show ?thesis unfolding scan_statement_def prod.case
    by (auto simp: st split: option.split intro!: safe_rbind [of "{}" "ds_ok I R"])
qed

interpretation header: safe_step header_line "\<lambda>st. ds_ok I R (dl_ds st)" "\<lambda>e. False" for I R
proof -
  have "safe {} (\<lambda>st'. ds_ok I R (dl_ds st')) (header_line st nl)" if inv: "ds_ok I R (dl_ds st)" for st nl
  proof -
    obtain n line where nl: "nl = (n, line)" by (cases nl)
    obtain stmt cm ml where u: "uncomment (dl_comment st, dl_multiline st) (strip_char NL line) = (stmt, cm, ml)"
      using prod_cases3 by blast
    have "safe {} (\<lambda>(e, d'). ds_ok I R d') (case stmt of None \<Rightarrow> Inr (dl_enum st, store_line line (dl_ds st))
        | Some s \<Rightarrow> scan_statement n s (dl_enum st, store_line line (dl_ds st)))"
      using inv by (auto split: option.split intro!: scan_statement_safe)
    then show ?thesis by (auto simp: header_line_def nl u Let_def intro!: safe_rbind)
  qed
  then show "safe_step header_line (\<lambda>st. ds_ok I R (dl_ds st)) (\<lambda>e. False)"
    by unfold_locales (metis safe_simps(1), metis safe_simps(2) empty_iff)
qed

section \<open>Rules\<close>

lemma read_rule_safe: "ds_inv d \<Longrightarrow> safe {SystemExit} ds_inv (read_rule d nl)"
  by (cases nl) (auto simp: read_rule_def Let_def split: option.split)

lemma dict_del_keys: "dict_wf d \<Longrightarrow> dict_keys (dict_del d k) = filter (\<lambda>x. x \<noteq> k) (dict_keys d)"
proof (induction d)
  case (Cons x d)
  have "filter (\<lambda>x. x \<noteq> k) (dict_keys d) = dict_keys d" if "k \<notin> set (dict_keys d)"
    using that by (auto simp: filter_id_conv)
  then show ?case using Cons by (cases x) (auto simp: dict_wf_def)
qed simp

text \<open>A rule to ignore removes its symbol, and nothing else; a replacement keeps all symbols.\<close>

definition without :: "(nat \<times> string \<times> string) list \<Rightarrow> string \<Rightarrow> string list \<Rightarrow> string list" where
  "without rules ty keys = filter (\<lambda>k. \<forall>(ln, t, sym) \<in> set rules. t = ty \<longrightarrow> sym \<noteq> k) keys"

lemma without_one: "without [(ln, t, x)] ty ks = (if ty = t then filter (\<lambda>k. k \<noteq> x) ks else ks)"
  by (auto simp: without_def intro: filter_cong)

lemma apply_ignore_safe:
  assumes "ds_inv d"
  shows "safe {NameError} (\<lambda>d'. ds_inv d' \<and> (\<forall>ty. dict_keys (refs_of d' ty) = without [rule] ty (dict_keys (refs_of d ty)))
    \<and> ds_replace d' = ds_replace d) (apply_ignore d rule)"
proof -
  obtain ln c_type sym where r: "rule = (ln, c_type, sym)" by (cases rule)
  show ?thesis
  proof (cases "dict_has DEF_SYMBOL_TYPES c_type")
    case True
    note g = ds_inv_get [OF assms True]
    have "filter (\<lambda>x. x \<noteq> sym) (dict_keys (refs_of d c_type)) = dict_keys (refs_of d c_type)"
      if "\<not> dict_has (refs_of d c_type) sym" using that by (auto simp: dict_has_keys filter_id_conv)
    then show ?thesis using g ds_inv_set [OF assms True] assms
      by (auto simp: r apply_ignore_def True without_one refs_of_set dict_del_keys dict_wf_del)
  qed (simp add: r apply_ignore_def)
qed

lemma apply_replace_safe:
  assumes "ds_inv d"
  shows "safe {NameError} (\<lambda>d'. ds_inv d' \<and> (\<forall>ty. dict_keys (refs_of d' ty) = dict_keys (refs_of d ty))) (apply_replace d rule)"
proof -
  obtain ln c_type old new where r: "rule = (ln, c_type, old, new)" by (cases rule)
  show ?thesis
  proof (cases "dict_get DEF_SYMBOL_TYPES c_type")
    case (Some defs)
    then have "dict_has DEF_SYMBOL_TYPES c_type" by (simp add: dict_has_def)
    note g = ds_inv_get [OF assms this] and set = ds_inv_set [OF assms this]
    have "dict_keys (dict_set (refs_of d c_type) old v) = dict_keys (refs_of d c_type)"
      if "dict_get (refs_of d c_type) old = Some w" for v w
      by (rule dict_set_keys) (simp add: dict_has_keys [symmetric] dict_has_def that)
    then show ?thesis using g set
      by (auto simp: r apply_replace_def Some refs_of_set dict_wf_set split: option.split)
  qed (simp add: r apply_replace_def)
qed

lemma fold_ignore:
  "ds_inv d \<Longrightarrow> safe {NameError} (\<lambda>d'. ds_inv d' \<and> (\<forall>ty. dict_keys (refs_of d' ty) = without rules ty (dict_keys (refs_of d ty)))
    \<and> ds_replace d' = ds_replace d) (fold_res apply_ignore d rules)"
proof (induction rules arbitrary: d)
  case Nil
  then show ?case by (simp add: without_def)
next
  case (Cons r rules)
  have comp: "without rules ty (without [r] ty ks) = without (r # rules) ty ks" for ty ks
    by (auto simp: without_def intro: filter_cong)
  show ?case unfolding fold_res.simps
    by (rule safe_rbind [OF apply_ignore_safe [OF Cons.prems]]) (rule safe_mono [OF Cons.IH], auto simp: comp)
qed

lemma apply_exceptions_safe:
  assumes "ds_inv d"
  shows "safe {NameError} (\<lambda>d'. ds_inv d' \<and> (\<forall>ty. dict_keys (refs_of d' ty) = without (ds_ignore d) ty (dict_keys (refs_of d ty))))
    (apply_exceptions d)"
  unfolding apply_exceptions_def
proof (rule safe_rbind [OF fold_ignore [OF assms]])
  fix d1
  assume d1: "ds_inv d1 \<and> (\<forall>ty. dict_keys (refs_of d1 ty) = without (ds_ignore d) ty (dict_keys (refs_of d ty))) \<and> ds_replace d1 = ds_replace d"
  show "safe {NameError} (\<lambda>d'. ds_inv d' \<and> (\<forall>ty. dict_keys (refs_of d' ty) = without (ds_ignore d) ty (dict_keys (refs_of d ty))))
      (fold_res apply_replace d1 (ds_replace d1))"
    by (rule safe_fold_res) (use d1 in \<open>auto intro!: safe_mono [OF apply_replace_safe]\<close>)
qed

text \<open>
  The rules of the exceptions file: afterwards a kind of symbol has exactly the symbols it had,
  in their order, without those that are ignored; replacements change no name. The only exception
  is \<open>NameError\<close>.
\<close>

theorem apply_exceptions_exact:
  assumes "ds_inv d"
  shows "case apply_exceptions d of
     Inl e \<Rightarrow> e = NameError
   | Inr d' \<Rightarrow> ds_inv d' \<and> (\<forall>ty. dict_keys (refs_of d' ty) = without (ds_ignore d) ty (dict_keys (refs_of d ty)))"
  using apply_exceptions_safe [OF assms] by (auto simp: safe_def split: sum.splits)

definition sample_ds :: ds where
  "sample_ds = ds_init
     \<lparr>ds_symbols := dict_set (ds_symbols ds_init) ''define'' [(''A'', ''a'', 0), (''B'', ''b'', 1), (''C'', ''c'', 2)],
      ds_ignore := [(1, ''define'', ''B'')], ds_replace := [(2, ''define'', ''C'', ''d'')]\<rparr>"

lemma sample_ds_inv: "ds_inv sample_ds"
  by (simp add: ds_inv_def sample_ds_def ds_init_def DEF_SYMBOL_TYPES_def dict_wf_def)

theorem apply_exceptions_exact_witness:
  "case apply_exceptions sample_ds of
     Inl e \<Rightarrow> False
   | Inr d' \<Rightarrow> dict_keys (refs_of d' ''define'') = [''A'', ''C'']"
proof -
  have ok: "case apply_exceptions sample_ds of Inl e \<Rightarrow> False | Inr d' \<Rightarrow> True" by code_simp
  have "without (ds_ignore sample_ds) ''define'' (dict_keys (refs_of sample_ds ''define'')) = [''A'', ''C'']" by code_simp
  then show ?thesis using apply_exceptions_exact [OF sample_ds_inv] ok by (auto split: sum.splits)
qed

text \<open>
  C36. Parsing a header never fails by itself: without an exceptions file there is no exception, and
  with one only \<open>SystemExit\<close> (a line that is no rule) and \<open>NameError\<close> are raised; otherwise every kind of
  symbol has a dictionary, with each symbol at most once.
\<close>

theorem parse_header_safe:
  "case parse_header lines rules ds_init of
     Inl e \<Rightarrow> rules \<noteq> None \<and> (e = SystemExit \<or> e = NameError)
   | Inr d \<Rightarrow> ds_inv d"
proof -
  have read: "safe {SystemExit} ds_inv (read_exceptions rules (ds_init\<lparr>ds_data := []\<rparr>))"
    by (auto simp: read_exceptions_def split: option.split intro!: safe_fold_res read_rule_safe)
  have run: "safe {} (\<lambda>st. ds_ok (ds_ignore d) (ds_replace d) (dl_ds st)) (fold_res header_line \<lparr>dl_ds = d, dl_enum = False, dl_comment = False, dl_multiline = []\<rparr> ls)"
    if "ds_inv d" for d ls
    using header.run_safe [of "ds_ignore d" "ds_replace d" "\<lparr>dl_ds = d, dl_enum = False, dl_comment = False, dl_multiline = []\<rparr>" ls] that
    by (auto simp: ds_ok_def)
  have "safe {SystemExit, NameError} ds_inv (parse_header lines rules ds_init)" unfolding parse_header_def
    by (rule safe_rbind [OF safe_errs [OF read]], simp, rule safe_rbind [OF safe_errs [OF run]])
      (auto simp: ds_ok_def intro: safe_errs [OF safe_mono [OF apply_exceptions_safe]])
  moreover have "\<exists>d. parse_header lines None ds_init = Inr d"
  proof -
    obtain st where st: "fold_res header_line \<lparr>dl_ds = ds_init\<lparr>ds_data := []\<rparr>, dl_enum = False, dl_comment = False, dl_multiline = []\<rparr>
        (enumerate 0 lines) = Inr st"
        and ok: "ds_ok [] [] (dl_ds st)"
      using run [of "ds_init\<lparr>ds_data := []\<rparr>" "enumerate 0 lines"] by (auto simp: safe_False_iff)
    then show ?thesis by (simp add: parse_header_def read_exceptions_def apply_exceptions_def ds_ok_def)
  qed
  ultimately show ?thesis by (cases rules) (auto simp: safe_def split: sum.splits)
qed

section \<open>The table of contents\<close>

lemma descriptions_eq:
  "symbol_descriptions = [(''Enumeration values'', ''symbol''), (''Enumerations'', ''enum''), (''IOCTL Commands'', ''ioctl''),
     (''Macros and Definitions'', ''define''), (''Structures'', ''struct''), (''Type Definitions'', ''typedef'')]"
  by code_simp

lemma ds_inv_cases:
  assumes "ds_inv d"
  obtains a b c e f g where "ds_symbols d = [(''ioctl'', a), (''define'', b), (''symbol'', c), (''typedef'', e), (''enum'', f), (''struct'', g)]"
proof -
  have "map fst (ds_symbols d) = [''ioctl'', ''define'', ''symbol'', ''typedef'', ''enum'', ''struct'']"
    using assms by (simp add: ds_inv_def dict_keys_def DEF_SYMBOL_TYPES_def)
  then show ?thesis using that by (auto simp: map_eq_Cons_conv)
qed

abbreviation is_entry :: "string \<Rightarrow> bool" where
  "is_entry l \<equiv> startswith l ''- LINENO_''"

lemma toc_entry_is_entry: "is_entry (toc_entry x)"
  by (cases x) (simp add: toc_entry_def startswith_append)

text \<open>The lines of one category; of these, the entries are those of its symbols.\<close>

definition category_lines :: "string \<Rightarrow> (string, string \<times> nat) dict \<Rightarrow> string list" where
  "category_lines description refs =
     (if refs = [] then []
      else [description, replicate (length description) (CHR ''-''), []] @ map toc_entry (sort_key fst refs) @ [[]])"

lemma dashes_not_entry: "\<not> is_entry (replicate n (CHR ''-''))"
proof
  assume "is_entry (replicate n (CHR ''-''))"
  then obtain t where "replicate n (CHR ''-'') = ''- LINENO_'' @ t" unfolding startswith_append by blast
  then have "CHR '' '' \<in> set (replicate n (CHR ''-''))" by simp
  then show False by (simp add: set_replicate_conv_if split: if_splits)
qed

lemma category_entries:
  assumes "\<not> is_entry description"
  shows "filter_mset is_entry (mset (category_lines description refs)) = image_mset toc_entry (mset refs)"
proof -
  have "filter_mset is_entry (image_mset toc_entry M) = image_mset toc_entry M" for M
    by (auto simp: filter_mset_eq_conv toc_entry_is_entry)
  moreover have "\<not> is_entry []" by code_simp
  ultimately show ?thesis using assms by (auto simp: category_lines_def dashes_not_entry)
qed

text \<open>
  C37. The table of contents lists every symbol exactly once: its entries are, up to their order, one
  for each symbol of each kind.
\<close>

theorem toc_complete:
  assumes "ds_inv d"
  shows "\<exists>ls. toc_lines d = Inr ls \<and> mset (filter is_entry ls) = mset (map toc_entry (concat (map snd (ds_symbols d))))"
proof -
  from ds_inv_cases [OF assms] obtain a b c e f g
    where d: "ds_symbols d = [(''ioctl'', a), (''define'', b), (''symbol'', c), (''typedef'', e), (''enum'', f), (''struct'', g)]" .
  let ?ls = "category_lines ''Enumeration values'' c @ category_lines ''Enumerations'' f @ category_lines ''IOCTL Commands'' a @
    category_lines ''Macros and Definitions'' b @ category_lines ''Structures'' g @ category_lines ''Type Definitions'' e"
  have "toc_lines d = Inr ?ls"
    by (simp add: toc_lines_def descriptions_eq toc_category_def key_at_def d dict_get_def category_lines_def)
  moreover have "\<not> is_entry ''Enumeration values''" "\<not> is_entry ''Enumerations''" "\<not> is_entry ''IOCTL Commands''"
    "\<not> is_entry ''Macros and Definitions''" "\<not> is_entry ''Structures''" "\<not> is_entry ''Type Definitions''"
    by code_simp+
  then have "mset (filter is_entry ?ls) = mset (map toc_entry (concat (map snd (ds_symbols d))))"
    by (simp add: category_entries d)
  ultimately show ?thesis by blast
qed

theorem toc_complete_witness:
  "\<exists>ls. toc_lines sample_ds = Inr ls \<and> size (filter is_entry ls) = 3"
proof -
  from toc_complete [OF sample_ds_inv] obtain ls where "toc_lines sample_ds = Inr ls"
      "mset (filter is_entry ls) = mset (map toc_entry (concat (map snd (ds_symbols sample_ds))))" by blast
  moreover from this(2) have "length (filter is_entry ls) = length (concat (map snd (ds_symbols sample_ds)))"
    by (metis length_map size_mset)
  moreover have "length (concat (map snd (ds_symbols sample_ds))) = 3" by code_simp
  ultimately show ?thesis by simp
qed

section \<open>Escaping\<close>

text \<open>Substituting single characters of a set.\<close>

lemma scan_char_step:
  fixes a :: catom
  defines "r \<equiv> RGroup 1 (RAtom False a)"
  shows "scan r False p (c # s) = (case scan r False (Some c) s of (segs, tail) \<Rightarrow>
     if atom_ok False a c then (([], [c], no_groups(1 := Some [c])) # segs, tail)
     else (case segs of [] \<Rightarrow> ([], c # tail) | (pre, t, g) # segs' \<Rightarrow> ((c # pre, t, g) # segs', tail)))"
proof (cases "atom_ok False a c")
  case True
  then have "search1 r False p (c # s) = Some ([], [c], no_groups(1 := Some [c]), Some c, s)"
    by (simp add: first_match_def r_def)
  then show ?thesis using True by (simp only: scan.simps [of r False p "c # s"]) simp
next
  case False
  then have none: "search1 r False p (c # s) = (case search1 r False (Some c) s of
      None \<Rightarrow> None | Some (pre, t, g, p', s') \<Rightarrow> Some (c # pre, t, g, p', s'))"
    by (simp add: first_match_def r_def)
  show ?thesis using False
    unfolding scan.simps [of r False p "c # s"] scan.simps [of r False "Some c" s] none
    by (auto split: option.splits prod.splits)
qed

lemma sub_chars:
  fixes a :: catom
  assumes "\<And>c. k (no_groups(1 := Some [c])) = h c"
  shows "(case scan (RGroup 1 (RAtom False a)) False p s of (segs, tail) \<Rightarrow> sub_segs (\<lambda>(pre, t, g). k g) segs @ tail) =
    concat (map (\<lambda>c. if atom_ok False a c then h c else [c]) s)"
proof (induction s arbitrary: p)
  case Nil
  show ?case by (simp add: scan.simps first_match_def sub_segs_def)
next
  case (Cons c s)
  obtain segs tail where sc: "scan (RGroup 1 (RAtom False a)) False (Some c) s = (segs, tail)" by fastforce
  have "sub_segs (\<lambda>(pre, t, g). k g) segs @ tail = concat (map (\<lambda>c. if atom_ok False a c then h c else [c]) s)"
    using Cons [of "Some c"] unfolding sc by simp
  then show ?case unfolding scan_char_step [of a p c s] sc using assms
    by (auto simp: sub_segs_def split: list.split)
qed

definition special_chars :: "char list" where
  "special_chars = raw (CHR ''!'') ''_`*<>&!:/|%$#{}~^''"

lemma special_prog: "\<exists>cs. RE_SPECIAL = RGroup 1 (RAtom False (A_set False (map CI_chr cs))) \<and> set cs = set special_chars"
proof -
  have "RE_SPECIAL = RGroup 1 (RAtom False (A_set False (map CI_chr (raw (CHR ''!'') ''_`*<>&!!:/|%$#{}~^''))))" by code_simp
  moreover have "set (raw (CHR ''!'') ''_`*<>&!!:/|%$#{}~^'') = set special_chars" by (simp add: special_chars_def raw_def insert_commute)
  ultimately show ?thesis by blast
qed

lemma escape_special_chars:
  "escape_special RE_SPECIAL s = concat (map (\<lambda>c. if c \<in> set special_chars then [BSL, c] else [c]) s)"
proof -
  obtain cs where cs: "RE_SPECIAL = RGroup 1 (RAtom False (A_set False (map CI_chr cs)))" "set cs = set special_chars"
    using special_prog by blast
  have tpl: "parse_tpl (rx ''~~~1'') = [T_chr BSL, T_grp 1]" by code_simp
  have ok: "atom_ok False (A_set False (map CI_chr cs)) c \<longleftrightarrow> c \<in> set special_chars" for c
    by (auto simp: list_ex_iff cs(2))
  have "escape_special RE_SPECIAL s = (case scan RE_SPECIAL False None s of (segs, tail) \<Rightarrow>
      sub_segs (\<lambda>(pre, t, g). expand [T_chr BSL, T_grp 1] g) segs @ tail)"
    by (cases "re_scan RE_SPECIAL s") (simp add: escape_special_def re_sub_alt tpl re_scan_def [symmetric])
  also have "\<dots> = concat (map (\<lambda>c. if c \<in> set special_chars then [BSL, c] else [c]) s)"
    unfolding cs(1) by (subst sub_chars [where h = "\<lambda>c. [BSL, c]"]) (simp_all only: ok, simp)
  finally show ?thesis .
qed

text \<open>Taking the backslashes out again.\<close>

fun unescape :: "string \<Rightarrow> string" where
  "unescape (c # d # s) = (if c = BSL then d # unescape s else c # unescape (d # s))"
| "unescape s = s"

lemma unescape_chars: "unescape (concat (map (\<lambda>c. if c \<in> set special_chars then [BSL, c] else [c]) s)) = s"
proof (induction s)
  case (Cons c s)
  have "BSL \<in> set special_chars" by code_simp
  then have "c \<noteq> BSL" if "c \<notin> set special_chars" using that by blast
  moreover have "unescape (c # t) = c # unescape t" if "c \<noteq> BSL" for t using that by (cases t) simp_all
  ultimately show ?case using Cons by simp
qed simp

text \<open>
  Escaping a text for reStructuredText puts a backslash before every special character, the
  backslash included, and changes nothing else; reading every backslash as protecting the next
  character gives the text back.
\<close>

theorem escape_roundtrip:
  "escape_special RE_SPECIAL s = concat (map (\<lambda>c. if c \<in> set special_chars then [BSL, c] else [c]) s) \<and>
   unescape (escape_special RE_SPECIAL s) = s"
  by (simp add: escape_special_chars unescape_chars)

section \<open>Enumerations and continuation lines\<close>

text \<open>
  An enumeration on one line is taken to go on: the name of the structure after it is stored as an
  enumeration value called \<^verbatim>\<open>struct\<close>, and not as a structure.
\<close>

theorem one_line_enum:
  "(case parse_header [''enum e1 { A };'' @ [NL], ''struct s1 {'' @ [NL]] None ds_init of
     Inl e \<Rightarrow> False
   | Inr d \<Rightarrow> dict_keys (refs_of d ''symbol'') = [''struct''] \<and> refs_of d ''struct'' = [])"
  by code_simp

text \<open>
  Continuation lines are not joined: a definition whose value is on the next line is followed by
  that line as a statement of its own, and after two backslashes the line is lost but for its last
  character.
\<close>

theorem continuation_lost:
  "(case parse_header [''#define AB '' @ [BSL, NL], ''typedef int x cd;'' @ [NL], ''#define EF '' @ [BSL, BSL, NL], ''1'' @ [NL]] None ds_init of
     Inl e \<Rightarrow> False
   | Inr d \<Rightarrow> dict_keys (refs_of d ''define'') = [''AB''] \<and> dict_keys (refs_of d ''typedef'') = [''cd''])"
  by code_simp

end
