(* ===== verification/Kdoc_Output.thy ===== *)
theory Kdoc_Output
  imports Kdoc_Safety
begin

text \<open>
  The base class of the output formats, \<^verbatim>\<open>OutputFormat\<close> of \<^verbatim>\<open>kdoc_output.py\<close>: the filter that decides which
  items are shown, the dispatch on the kind of an item, and the text collected so far. The format
  state is an extensible record, so that the formats add their own fields; the virtual methods are
  a record of functions.
\<close>

section \<open>Patterns\<close>

definition function_pointer :: regex where "function_pointer = re (rx ''([^~(]*~(~*)~s*~)~s*~(([^~)]*)~)'')"
definition type_constant :: regex where "type_constant = re (rx ''~b``([^~`]+)``~b'')"
definition type_constant2 :: regex where "type_constant2 = re (rx ''~%([-_*~w]+)'')"
definition type_func :: regex where "type_func = re (rx ''(~w+)~(~)'')"
definition type_param_ref :: regex where
  "type_param_ref = re (rx ''([~!'' @ ''~'' @ rx ''~*]?)~@(~w*((~.~w+)|(->~w+))*(~.~.~.)?)'')"
definition type_fp_param :: regex where "type_fp_param = re (rx ''~@(~w+)~(~)'')"
definition type_fp_param2 :: regex where "type_fp_param2 = re (rx ''~@(~w+->~S+)~(~)'')"
definition type_enum :: regex where "type_enum = re (rx ''~&(enum~s*([_~w]+))'')"
definition type_struct :: regex where "type_struct = re (rx ''~&(struct~s*([_~w]+))'')"
definition type_typedef :: regex where "type_typedef = re (rx ''~&(typedef~s*([_~w]+))'')"
definition type_union :: regex where "type_union = re (rx ''~&(union~s*([_~w]+))'')"
definition type_member_s :: string where "type_member_s = rx ''~&([_~w]+)(~.|->)([_~w]+)''"
definition type_member :: regex where "type_member = re type_member_s"
definition type_fallback :: regex where "type_fallback = re (rx ''~&([_~w]+)'')"
definition type_member_func :: regex where "type_member_func = re (type_member_s @ rx ''~(~)'')"

section \<open>The format state\<close>

datatype out_mode = OUTPUT_ALL | OUTPUT_INCLUDE | OUTPUT_EXPORTED | OUTPUT_INTERNAL

text \<open>\<^verbatim>\<open>f_warn\<close> holds what went to \<^verbatim>\<open>config.warning\<close>, \<^verbatim>\<open>f_log\<close> what went to the log.\<close>

record fmt =
  f_mode :: out_mode
  f_lineno :: bool
  f_nosymbol :: "string list"
  f_table :: "string list option"
  f_no_doc :: bool
  f_data :: string
  f_warn :: "string list"
  f_log :: "string list"

definition fmt_init :: fmt where
  "fmt_init = \<lparr>f_mode = OUTPUT_ALL, f_lineno = False, f_nosymbol = [], f_table = None, f_no_doc = False,
     f_data = [], f_warn = [], f_log = []\<rparr>"

text \<open>The requests of a run: an absent list of symbols is the empty one.\<close>

definition set_filter ::
    "bool \<Rightarrow> bool \<Rightarrow> string list \<Rightarrow> string list \<Rightarrow> string list \<Rightarrow> bool \<Rightarrow> bool \<Rightarrow> 'f fmt_scheme \<Rightarrow> 'f fmt_scheme" where
  "set_filter export internal symbol nosymbol function_table enable_lineno no_doc_sections f =
     f\<lparr>f_lineno := enable_lineno, f_no_doc := no_doc_sections, f_table := Some function_table,
       f_mode := (if symbol \<noteq> [] then OUTPUT_INCLUDE else if export then OUTPUT_EXPORTED
                  else if internal then OUTPUT_INTERNAL else OUTPUT_ALL),
       f_nosymbol := (if nosymbol \<noteq> [] then nosymbol else f_nosymbol f)\<rparr>"

definition highlight_block :: "(regex \<times> string) list \<Rightarrow> string \<Rightarrow> string" where
  "highlight_block highlights block = foldl (\<lambda>b (r, sub). re_sub r sub b) block highlights"

definition out_warnings :: "kdoc_item \<Rightarrow> 'f fmt_scheme \<Rightarrow> 'f fmt_scheme" where
  "out_warnings args f = f\<lparr>f_warn := f_warn f @ it_warnings args\<rparr>"

text \<open>\<^verbatim>\<open>name in self.function_table\<close>: a \<open>TypeError\<close> until \<^verbatim>\<open>set_filter\<close> sets the table.\<close>

definition in_table :: "string \<Rightarrow> 'f fmt_scheme \<Rightarrow> bool res" where
  "in_table name f = (case f_table f of None \<Rightarrow> Inl TypeError | Some t \<Rightarrow> Inr (name \<in> set t))"

definition check_doc :: "string \<Rightarrow> kdoc_item \<Rightarrow> 'f fmt_scheme \<Rightarrow> (bool \<times> 'f fmt_scheme) res" where
  "check_doc name args f =
     (if f_no_doc f then Inr (False, f)
      else if name \<in> set (f_nosymbol f) then Inr (False, f)
      else if f_mode f = OUTPUT_ALL then Inr (True, out_warnings args f)
      else if f_mode f = OUTPUT_INCLUDE then
        rbind (in_table name f) (\<lambda>b. Inr (if b then (True, out_warnings args f) else (False, f)))
      else Inr (False, f))"

definition check_declaration :: "string \<Rightarrow> string \<Rightarrow> kdoc_item \<Rightarrow> 'f fmt_scheme \<Rightarrow> (bool \<times> 'f fmt_scheme) res" where
  "check_declaration dtype name args f =
     (if name \<in> set (f_nosymbol f) then Inr (False, f)
      else if f_mode f = OUTPUT_ALL then Inr (True, out_warnings args f)
      else if f_mode f = OUTPUT_INCLUDE \<or> f_mode f = OUTPUT_EXPORTED then
        rbind (in_table name f) (\<lambda>b. Inr (b, f))
      else if dtype \<noteq> ''function'' then Inr (True, out_warnings args f)
      else rbind (in_table name f) (\<lambda>b. Inr (if b then (False, f) else (True, out_warnings args f))))"

section \<open>Dispatch\<close>

type_synonym 'f out_fun = "string \<Rightarrow> string \<Rightarrow> kdoc_item \<Rightarrow> 'f \<Rightarrow> 'f res"

record 'f methods =
  m_doc :: "'f out_fun"
  m_function :: "'f out_fun"
  m_enum :: "'f out_fun"
  m_var :: "'f out_fun"
  m_typedef :: "'f out_fun"
  m_struct :: "'f out_fun"

text \<open>The virtual methods of the base class, which do nothing.\<close>

definition no_out :: "'f out_fun" where
  "no_out fname name args f = Inr f"

definition base_methods :: "'f methods" where
  "base_methods = \<lparr>m_doc = no_out, m_function = no_out, m_enum = no_out, m_var = no_out, m_typedef = no_out, m_struct = no_out\<rparr>"

definition out_fun_of :: "'f methods \<Rightarrow> string \<Rightarrow> 'f out_fun option" where
  "out_fun_of mt dtype =
     (if dtype = ''function'' then Some (m_function mt)
      else if dtype = ''enum'' then Some (m_enum mt)
      else if dtype = ''var'' then Some (m_var mt)
      else if dtype = ''typedef'' then Some (m_typedef mt)
      else if dtype = ''struct'' \<or> dtype = ''union'' then Some (m_struct mt)
      else None)"

text \<open>\<^verbatim>\<open>msg\<close>: the text of one item; \<open>None\<close> for a kind no method handles.\<close>

definition msg :: "'f fmt_scheme methods \<Rightarrow> string \<Rightarrow> string \<Rightarrow> kdoc_item \<Rightarrow> 'f fmt_scheme \<Rightarrow>
    (string option \<times> 'f fmt_scheme) res" where
  "msg mt fname name args f0 =
     (let f = f0\<lparr>f_data := []\<rparr>; dtype = it_type args in
      if dtype = ''doc'' then rbind (m_doc mt fname name args f) (\<lambda>f1. Inr (Some (f_data f1), f1))
      else rbind (check_declaration dtype name args f) (\<lambda>(ok, f1).
        if \<not> ok then Inr (Some (f_data f1), f1)
        else (case out_fun_of mt dtype of
            Some out \<Rightarrow> rbind (out fname name args f1) (\<lambda>f2. Inr (Some (f_data f2), f2))
          | None \<Rightarrow> Inr (None, f1\<lparr>f_log := f_log f1 @ [''doesn'' @ [CHR 0x27] @ ''t know how to output '' @ quoted dtype @ '' block'']\<rparr>))))"

text \<open>
  The text of an optional value in a formatted string, and its truth value. The parser stores
  strings, booleans and \<^verbatim>\<open>None\<close> under the optional keys; lists and dictionaries only occur under the
  keys that are attributes.
\<close>

definition val_text :: "pyval \<Rightarrow> string" where
  "val_text v = (case v of
      V_str s \<Rightarrow> s | V_none \<Rightarrow> ''None'' | V_int n \<Rightarrow> str_int n | V_bool b \<Rightarrow> (if b then ''True'' else ''False'') | _ \<Rightarrow> [])"

definition truthy :: "pyval \<Rightarrow> bool" where
  "truthy v = (case v of
      V_none \<Rightarrow> False | V_str s \<Rightarrow> s \<noteq> [] | V_bool b \<Rightarrow> b | V_int n \<Rightarrow> n \<noteq> 0 | V_list l \<Rightarrow> l \<noteq> []
    | V_dict d \<Rightarrow> d \<noteq> [] | V_lines d \<Rightarrow> d \<noteq> [])"

text \<open>A string method on a value that is not a string raises \<open>AttributeError\<close>.\<close>

definition val_str :: "pyval \<Rightarrow> string res" where
  "val_str v = (case v of V_str s \<Rightarrow> Inr s | _ \<Rightarrow> Inl AttributeError)"

text \<open>\<^verbatim>\<open>output_symbols\<close>: the texts of all items of a file; a kind that is not handled is logged.\<close>

definition cannot_handle :: "string \<Rightarrow> kdoc_item \<Rightarrow> string" where
  "cannot_handle fname arg = fname @ '':'' @ val_text (item_get arg ''ln'' (V_int 0)) @ '' Can'' @ [CHR 0x27] @ ''t handle '' @
     val_text (item_get arg ''type'' (V_str []))"

definition output_symbols ::
    "(string \<Rightarrow> string \<Rightarrow> kdoc_item \<Rightarrow> 'f fmt_scheme \<Rightarrow> (string option \<times> 'f fmt_scheme) res) \<Rightarrow> string \<Rightarrow> kdoc_item list \<Rightarrow>
     'f fmt_scheme \<Rightarrow> (string \<times> 'f fmt_scheme) res" where
  "output_symbols out_msg fname symbols f =
     fold_res (\<lambda>(text, f1) arg. rbind (out_msg fname (it_name arg) arg f1) (\<lambda>(m, f2).
       Inr (case m of
          Some t \<Rightarrow> (text @ t, f2)
        | None \<Rightarrow> (text, f2\<lparr>f_log := f_log f2 @ [cannot_handle fname arg]\<rparr>)))) ([], f) symbols"

section \<open>The filter\<close>

text \<open>Whether a declaration is shown, as a function of the settings.\<close>

definition shows_decl :: "string \<Rightarrow> string \<Rightarrow> 'f fmt_scheme \<Rightarrow> bool" where
  "shows_decl dtype name f \<longleftrightarrow> (case check_declaration dtype name (kdoc_item_init [] [] [] 0 []) f of
      Inl e \<Rightarrow> False | Inr (b, f') \<Rightarrow> b)"

lemma check_declaration_shows:
  "f_table f = Some t \<Longrightarrow> \<exists>f'. check_declaration dtype name args f = Inr (shows_decl dtype name f, f')"
  by (auto simp: check_declaration_def shows_decl_def in_table_def)

text \<open>
  The export filters split the functions of a file: with the same table and exclusions, a
  function is shown either with the exported or with the internal symbols, never with both, and
  what is shown with one of them is what is shown without a filter.
\<close>

theorem export_internal_partition:
  "(shows_decl ''function'' name (set_filter True False [] ns t ln nd f) \<noteq>
    shows_decl ''function'' name (set_filter False True [] ns t ln nd f)) =
   shows_decl ''function'' name (set_filter False False [] ns t ln nd f) \<and>
   \<not> (shows_decl ''function'' name (set_filter True False [] ns t ln nd f) \<and>
      shows_decl ''function'' name (set_filter False True [] ns t ln nd f))"
  by (simp add: shows_decl_def check_declaration_def set_filter_def in_table_def)

end
