(* ===== verification/Py_Num.thy ===== *)
theory Py_Num
  imports Py_Re
begin

text \<open>
  Decimal numbers: \<^verbatim>\<open>int\<close> of a string and \<^verbatim>\<open>str\<close> of a number, which undo each other.
\<close>

section \<open>Reading\<close>

text \<open>\<^verbatim>\<open>int\<close> of a string: blanks around it, a sign, digits with single underscores between them.\<close>

fun int_digits :: "string \<Rightarrow> bool" where
  "int_digits [] = False"
| "int_digits [c] = is_digit c"
| "int_digits (c # d # s) = (is_digit c \<and> (if d = CHR ''_'' then int_digits s else int_digits (d # s)))"

definition int_str :: "string \<Rightarrow> int option" where
  "int_str s0 =
     (let s = strip s0;
          neg = startswith s ''-'';
          body = (if startswith s ''-'' \<or> startswith s ''+'' then drop 1 s else s);
          n = int (digits_val 0 (filter is_digit body)) in
      if int_digits body then Some (if neg then - n else n) else None)"

section \<open>Printing and reading\<close>

lemma str_nat_digits: "str_nat n \<noteq> [] \<and> (\<forall>c \<in> set (str_nat n). is_digit c)"
proof (induction n rule: str_nat.induct)
  case (1 n)
  have "is_digit (chr_of (48 + m))" if "m < 10" for m
    using that by (simp add: is_digit_def code_of_def chr_of_def)
  then show ?case using 1 by (simp add: str_nat.simps [of n])
qed

lemma digits_val_append: "digits_val a (s @ t) = digits_val (digits_val a s) t"
  by (induction s arbitrary: a) simp_all

lemma digits_str_nat: "digits_val 0 (str_nat n) = n"
proof (induction n rule: str_nat.induct)
  case (1 n)
  have "digit_val (chr_of (48 + m)) = m" if "m < 10" for m
    using that by (simp add: digit_val_def code_of_def chr_of_def)
  then show ?case using 1 by (simp add: str_nat.simps [of n] digits_val_append)
qed

lemma digits_ascii: "is_digit c \<Longrightarrow> \<not> is_space c \<and> c \<noteq> CHR ''-'' \<and> c \<noteq> CHR ''+'' \<and> c \<noteq> CHR ''.'' \<and> c \<noteq> CHR ''_''"
  by (auto simp: is_digit_def is_space_def Let_def code_of_def)

lemma int_digits_all: "s \<noteq> [] \<Longrightarrow> \<forall>c \<in> set s. is_digit c \<Longrightarrow> int_digits s"
proof (induction s rule: int_digits.induct)
  case (3 c d s)
  then show ?case using digits_ascii [of d] by auto
qed simp_all

lemma strip_digits:
  assumes "\<forall>c \<in> set s. \<not> is_space c"
  shows "strip s = s"
proof -
  have dw: "dropWhile is_space t = t" if "\<forall>c \<in> set t. \<not> is_space c" for t
    using that by (cases t) auto
  have "dropWhile is_space s = s" "dropWhile is_space (rev s) = rev s"
    using dw [of s] dw [of "rev s"] assms by simp_all
  then show ?thesis by (simp add: strip_by_def lstrip_by_def rstrip_by_def)
qed

lemma int_str_nat: "int_str (str_nat n) = Some (int n)"
proof -
  have d: "\<forall>c \<in> set (str_nat n). is_digit c" and ne: "str_nat n \<noteq> []" using str_nat_digits [of n] by blast+
  have st: "strip (str_nat n) = str_nat n" using d digits_ascii by (blast intro: strip_digits)
  have "\<not> startswith (str_nat n) ''-'' \<and> \<not> startswith (str_nat n) ''+''"
    using d ne digits_ascii by (cases "str_nat n") (auto simp: startswith_def)
  moreover have "filter is_digit (str_nat n) = str_nat n" using d by simp
  ultimately show ?thesis
    unfolding int_str_def Let_def st by (simp add: int_digits_all [OF ne d] digits_str_nat)
qed

end
