(* ===== verification/Kdoc_Files.thy ===== *)
theory Kdoc_Files
  imports Kdoc_Safety Kdoc_Output Py_Num "HOL-Library.Char_ord" "HOL-Library.List_Lexorder"
begin

text \<open>
  \<^verbatim>\<open>kdoc_files.py\<close>: finding source files, parsing each once, collecting the exported symbols, and
  printing the results through an output format. The file system is an argument: a tree of named
  nodes, with the lines of every file that can be read. A symbolic link to a file counts as a file;
  one to a directory is not entered.
\<close>

section \<open>Source files\<close>

datatype node = N_file "string list option" | N_dir "(string \<times> node) list" | N_other

text \<open>\<^verbatim>\<open>os.path.join\<close> of two paths.\<close>

definition path_join :: "string \<Rightarrow> string \<Rightarrow> string" where
  "path_join a b =
     (if startswith b ''/'' then b
      else if a = [] \<or> endswith a ''/'' then a @ b
      else a @ ''/'' @ b)"

definition ends_in :: "string list \<Rightarrow> string \<Rightarrow> bool" where
  "ends_in extensions name = list_ex (endswith name) extensions"

text \<open>The default extensions.\<close>

definition c_extensions :: "string list" where
  "c_extensions = [''.c'', ''.h'']"

fun parse_dir :: "string list \<Rightarrow> string \<Rightarrow> node \<Rightarrow> string list" where
  "parse_dir extensions dirname (N_dir entries) =
     concat (map (\<lambda>(name, nd). case nd of
         N_dir _ \<Rightarrow> parse_dir extensions (path_join dirname name) nd
       | N_file _ \<Rightarrow> if ends_in extensions name then [path_join dirname name] else []
       | N_other \<Rightarrow> []) entries)"
| "parse_dir extensions dirname nd = []"

text \<open>
  What iterating over \<^verbatim>\<open>parse_files\<close> does, in order: yield a file, or call back for a name that is
  neither a file nor a directory.
\<close>

datatype glob_event = Found string | Missing string

definition glob_one :: "(string \<Rightarrow> node option) \<Rightarrow> string option \<Rightarrow> string \<Rightarrow> glob_event list" where
  "glob_one fs srctree fname =
     (let f = (case srctree of Some (c # t) \<Rightarrow> path_join (c # t) fname | _ \<Rightarrow> fname) in
      case fs f of
        Some (N_dir es) \<Rightarrow> map Found (parse_dir c_extensions f (N_dir es))
      | Some (N_file _) \<Rightarrow> [Found f]
      | _ \<Rightarrow> [Missing fname])"

definition parse_files :: "(string \<Rightarrow> node option) \<Rightarrow> string option \<Rightarrow> string list \<Rightarrow> glob_event list" where
  "parse_files fs srctree file_list = concat (map (glob_one fs srctree) file_list)"

section \<open>The state of a run\<close>

record kfiles =
  kf_config :: config
  kf_werror :: bool
  kf_srctree :: "string option"
  kf_errors :: nat
  kf_results :: "(string, kdoc_item list) dict"
  kf_files :: "string list"
  kf_export_files :: "string list"
  kf_export_table :: "(string, string list) dict"
  kf_log :: "log_msg list"
  kf_store_src :: bool

definition RE_WERROR :: regex where "RE_WERROR = re (rx ''(~s|^)-Werror(~s|$)/'')"

definition env_verbose :: "(string \<Rightarrow> string option) \<Rightarrow> bool" where
  "env_verbose env = (case env ''KBUILD_VERBOSE'' of
      None \<Rightarrow> False
    | Some v \<Rightarrow> (case int_str v of Some n \<Rightarrow> n \<noteq> 0 | None \<Rightarrow> False))"

definition env_werror :: "(string \<Rightarrow> string option) \<Rightarrow> bool" where
  "env_werror env \<longleftrightarrow>
     (case env ''KCFLAGS'' of Some (c # fl) \<Rightarrow> re_search RE_WERROR (c # fl) \<noteq> None | _ \<Rightarrow> False) \<or>
     (case env ''KDOC_WERROR'' of Some (c # w) \<Rightarrow> True | _ \<Rightarrow> False)"

definition kfiles_init :: "(string \<Rightarrow> string option) \<Rightarrow> bool \<Rightarrow> bool \<Rightarrow> bool \<Rightarrow> bool \<Rightarrow> kfiles" where
  "kfiles_init env verbose werror wreturn wshort_desc =
     \<lparr>kf_config = \<lparr>cf_wreturn = wreturn, cf_wshort_desc = wshort_desc, cf_verbose = verbose \<or> env_verbose env\<rparr>,
      kf_werror = (werror \<or> env_werror env), kf_srctree = env ''SRCTREE'', kf_errors = 0, kf_results = [], kf_files = [],
      kf_export_files = [], kf_export_table = [], kf_log = [], kf_store_src = False\<rparr>"

definition kf_error :: "string \<Rightarrow> kfiles \<Rightarrow> kfiles" where
  "kf_error m st = st\<lparr>kf_log := kf_log st @ [Log_error m], kf_errors := kf_errors st + 1\<rparr>"

definition file_not_found :: "string \<Rightarrow> kfiles \<Rightarrow> kfiles" where
  "file_not_found fname st = kf_error (''Cannot find file '' @ fname) st"

fun is_counted :: "log_msg \<Rightarrow> bool" where
  "is_counted (Cfg_warning m) = True"
| "is_counted m = False"

text \<open>The messages of a parser go to the log; the ones sent to \<^verbatim>\<open>config.warning\<close> are counted.\<close>

definition add_log :: "log_msg list \<Rightarrow> kfiles \<Rightarrow> kfiles" where
  "add_log ms st = st\<lparr>kf_log := kf_log st @ ms, kf_errors := kf_errors st + length (filter is_counted ms)\<rparr>"

section \<open>Parsing\<close>

definition parse_file :: "(string \<Rightarrow> string list option) \<Rightarrow> string \<Rightarrow> kfiles \<Rightarrow> kfiles res" where
  "parse_file contents fname st =
     (if fname \<in> set (kf_files st) then Inr st
      else rbind (parse_kdoc (kdoc_init (kf_config st) fname (kf_store_src st)) (contents fname)) (\<lambda>(export_table, k).
        Inr ((add_log (k_log k) st)
          \<lparr>kf_export_table := dict_set (kf_export_table st) fname export_table,
           kf_files := kf_files st @ [fname], kf_export_files := List.insert fname (kf_export_files st),
           kf_results := dict_set (kf_results st) fname (k_entries k)\<rparr>)))"

text \<open>
  \<^verbatim>\<open>process_export_file\<close> makes a parser without its third argument, which has no default: a \<open>TypeError\<close>
  for every file whose exports are not known yet.
\<close>

definition process_export_file :: "string \<Rightarrow> kfiles \<Rightarrow> kfiles res" where
  "process_export_file fname st = (if fname \<in> set (kf_export_files st) then Inr st else Inl TypeError)"

definition glob_step :: "(string \<Rightarrow> kfiles \<Rightarrow> kfiles res) \<Rightarrow> kfiles \<Rightarrow> glob_event \<Rightarrow> kfiles res" where
  "glob_step f st ev = (case ev of Found fname \<Rightarrow> f fname st | Missing fname \<Rightarrow> Inr (file_not_found fname st))"

text \<open>The lines of a file of the tree, wherever it is reached from.\<close>

definition kfiles_parse ::
    "(string \<Rightarrow> node option) \<Rightarrow> (string \<Rightarrow> string list option) \<Rightarrow> string list \<Rightarrow> string list \<Rightarrow> kfiles \<Rightarrow> kfiles res" where
  "kfiles_parse fs contents file_list export_file st =
     rbind (fold_res (glob_step (parse_file contents)) st (parse_files fs (kf_srctree st) file_list)) (\<lambda>st1.
       fold_res (glob_step process_export_file) st1 (parse_files fs (kf_srctree st) export_file))"

section \<open>Printing\<close>

record request =
  rq_lineno :: bool
  rq_export :: bool
  rq_internal :: bool
  rq_symbol :: "string list"
  rq_nosymbol :: "string list"
  rq_no_doc :: bool

text \<open>The exports of the files named, for the filter; names that are not files are reported.\<close>

definition export_step :: "(string list \<times> kfiles) \<Rightarrow> glob_event \<Rightarrow> (string list \<times> kfiles) res" where
  "export_step ts ev = (case ts of (tbl, st) \<Rightarrow>
     (case ev of
        Found f \<Rightarrow> (case dict_get (kf_export_table st) f of
            Some t \<Rightarrow> Inr (foldl (\<lambda>acc s. List.insert s acc) tbl t, st)
          | None \<Rightarrow> Inl KeyError)
      | Missing f \<Rightarrow> Inr (tbl, file_not_found f st)))"

definition filtering :: "request \<Rightarrow> bool" where
  "filtering rq \<longleftrightarrow> rq_internal rq \<or> rq_export rq"

definition function_table ::
    "(string \<Rightarrow> node option) \<Rightarrow> request \<Rightarrow> string list \<Rightarrow> kfiles \<Rightarrow> (string list \<times> kfiles) res" where
  "function_table fs rq export_file st =
     rbind (if filtering rq then fold_res export_step ([], st) (parse_files fs (kf_srctree st) export_file) else Inr ([], st))
       (\<lambda>(tbl, st1). Inr (foldl (\<lambda>a s. List.insert s a) tbl (rq_symbol rq), st1))"

text \<open>Printing one file through the output format; the warnings it sends to the configuration are counted.\<close>

definition print_file ::
    "(string \<Rightarrow> kdoc_item list \<Rightarrow> 'f fmt_scheme \<Rightarrow> (string \<times> 'f fmt_scheme) res) \<Rightarrow> request \<Rightarrow> string \<Rightarrow> string list \<Rightarrow>
     (string \<times> string) list \<times> 'f fmt_scheme \<times> kfiles \<Rightarrow> ((string \<times> string) list \<times> 'f fmt_scheme \<times> kfiles) res" where
  "print_file out_symbols rq fname tbl acc = (case acc of (texts, f, st) \<Rightarrow>
     (case dict_get (kf_results st) fname of
        None \<Rightarrow> Inr (texts, f, st\<lparr>kf_log := kf_log st @ [Log_warning (''No kernel-doc for file '' @ fname)]\<rparr>)
      | Some symbols \<Rightarrow>
        rbind (out_symbols fname symbols
          (set_filter (rq_export rq) (rq_internal rq) (rq_symbol rq) (rq_nosymbol rq) tbl (rq_lineno rq) (rq_no_doc rq) f)) (\<lambda>(m, f1).
        Inr (if m = [] then texts else texts @ [(fname, m)], f1,
          add_log (map Cfg_warning (drop (length (f_warn f)) (f_warn f1))) st))))"

text \<open>
  One file of the loop in \<^verbatim>\<open>msg\<close>. The name \<^verbatim>\<open>export_file\<close> is assigned inside the loop, so the first
  file's value stays for the files after it.
\<close>

definition msg_file ::
    "(string \<Rightarrow> node option) \<Rightarrow> (string \<Rightarrow> kdoc_item list \<Rightarrow> 'f fmt_scheme \<Rightarrow> (string \<times> 'f fmt_scheme) res) \<Rightarrow> request \<Rightarrow>
     string list \<times> (string \<times> string) list \<times> 'f fmt_scheme \<times> kfiles \<Rightarrow> string \<Rightarrow>
     (string list \<times> (string \<times> string) list \<times> 'f fmt_scheme \<times> kfiles) res" where
  "msg_file fs out_symbols rq acc fname = (case acc of (export_file, texts, f, st) \<Rightarrow>
     (let export_file1 = (if filtering rq \<and> export_file = [] then [fname] else export_file) in
      rbind (function_table fs rq export_file1 st) (\<lambda>(tbl, st1).
      rbind (print_file out_symbols rq fname tbl (texts, f, st1)) (\<lambda>acc1.
      Inr (export_file1, acc1)))))"

definition kfiles_msg ::
    "(string \<Rightarrow> node option) \<Rightarrow> (string \<Rightarrow> kdoc_item list \<Rightarrow> 'f fmt_scheme \<Rightarrow> (string \<times> 'f fmt_scheme) res) \<Rightarrow> request \<Rightarrow>
     string list \<Rightarrow> string list \<Rightarrow> 'f fmt_scheme \<Rightarrow> kfiles \<Rightarrow> ((string \<times> string) list \<times> 'f fmt_scheme \<times> kfiles) res" where
  "kfiles_msg fs out_symbols rq filenames export_file f st =
     (let names = (if filenames = [] then sort (dict_keys (kf_results st)) else filenames) in
      rbind (fold_res (msg_file fs out_symbols rq) (export_file, [], f, st) names) (\<lambda>(_, acc). Inr acc))"

end
