(* ===== verification/Py_Lines.thy ===== *)
theory Py_Lines
  imports Py_Str
begin

text \<open>
  Texts as lines: \<^verbatim>\<open>str.splitlines\<close>, with and without the line ends, and \<^verbatim>\<open>textwrap.indent\<close>, which puts a
  prefix before every line that is not blank.
\<close>

definition line_break :: "char \<Rightarrow> bool" where
  "line_break c = (let n = code_of c in (10 \<le> n \<and> n \<le> 13) \<or> (28 \<le> n \<and> n \<le> 30) \<or> n = 133)"

text \<open>Every line with its end; a carriage return and a newline are one end.\<close>

fun cut_lines :: "string \<Rightarrow> string \<Rightarrow> (string \<times> string) list" where
  "cut_lines cur [] = (if cur = [] then [] else [(cur, [])])"
| "cut_lines cur (c # s) =
     (if c = CHR 0x0D \<and> startswith s [NL] then (cur, [c, NL]) # cut_lines [] (drop 1 s)
      else if line_break c then (cur, [c]) # cut_lines [] s
      else cut_lines (cur @ [c]) s)"

definition splitlines :: "string \<Rightarrow> string list" where
  "splitlines s = map fst (cut_lines [] s)"

definition splitlines_keep :: "string \<Rightarrow> string list" where
  "splitlines_keep s = map (\<lambda>(l, e). l @ e) (cut_lines [] s)"

definition indent :: "string \<Rightarrow> string \<Rightarrow> string" where
  "indent s pre = concat (map (\<lambda>l. if strip l = [] then l else pre @ l) (splitlines_keep s))"

lemma cut_lines_concat: "concat (map (\<lambda>(l, e). l @ e) (cut_lines cur s)) = cur @ s"
proof (induction cur s rule: cut_lines.induct)
  case (2 cur c s)
  have "NL # drop 1 s = s" if "startswith s [NL]" using that by (auto simp: startswith_append)
  then show ?case using 2 by auto
qed simp

lemma splitlines_keep_concat: "concat (splitlines_keep s) = s"
  by (simp add: splitlines_keep_def cut_lines_concat)

lemma cut_lines_no_break:
  "\<forall>c \<in> set cur. \<not> line_break c \<Longrightarrow> \<forall>(l, e) \<in> set (cut_lines cur s). \<forall>c \<in> set l. \<not> line_break c"
proof (induction cur s rule: cut_lines.induct)
  case (1 cur)
  then show ?case by simp
next
  case (2 cur c s)
  consider "c = CHR 0x0D \<and> startswith s [NL]" | "\<not> (c = CHR 0x0D \<and> startswith s [NL])" "line_break c"
    | "\<not> (c = CHR 0x0D \<and> startswith s [NL])" "\<not> line_break c" by blast
  then show ?case
  proof cases
    case 1
    then show ?thesis using "2.IH"(1) [OF 1] "2.prems" by simp
  next
    case 2
    then show ?thesis using "2.IH"(2) [OF 2] "2.prems" by auto
  next
    case 3
    then show ?thesis using "2.IH"(3) [OF 3] "2.prems" by auto
  qed
qed

lemma splitlines_no_break: "l \<in> set (splitlines s) \<Longrightarrow> c \<in> set l \<Longrightarrow> \<not> line_break c"
  using cut_lines_no_break [of "[]"] by (force simp: splitlines_def)

lemma indent_blank: "indent s pre = [] \<longleftrightarrow> s = []"
proof -
  have "(if strip l = [] then l else pre @ l) = [] \<longleftrightarrow> l = []" for l :: string
    by (cases "l = []") (simp_all add: strip_by_Nil_iff)
  then have "indent s pre = [] \<longleftrightarrow> concat (splitlines_keep s) = []"
    unfolding indent_def concat_eq_Nil_conv set_map ball_simps by (simp only:)
  then show ?thesis by (simp only: splitlines_keep_concat)
qed

section \<open>Splitting what was joined\<close>

lemma split_on_sep: "x \<notin> set c \<Longrightarrow> split_on x (c @ x # s) = c # split_on x s"
  by (induction c) auto

lemma split_join: "cs \<noteq> [] \<Longrightarrow> \<forall>c \<in> set cs. x \<notin> set c \<Longrightarrow> split_on x (join [x] cs) = cs"
proof (induction cs)
  case (Cons c cs)
  have "split_on x c = [c]" if "x \<notin> set c" for c using that by (induction c) auto
  then show ?case using Cons by (cases cs) (simp_all add: split_on_sep)
qed simp

end
