(* ===== verification/Doc_Paths.thy ===== *)
theory Doc_Paths
  imports Kdoc_Files Py_Lines "HOL-Library.Sublist"
begin

text \<open>
  Relative paths: \<^verbatim>\<open>os.path.abspath\<close> and \<^verbatim>\<open>os.path.relpath\<close> on the components of a path. The working
  directory is an argument.
\<close>

section \<open>Components\<close>

definition comps :: "string \<Rightarrow> string list" where
  "comps p = filter (\<lambda>c. c \<noteq> []) (split_on (CHR ''/'') p)"

text \<open>One component of an absolute path: a dot is dropped, two dots go up, but not above the root.\<close>

definition norm_step :: "string list \<Rightarrow> string \<Rightarrow> string list" where
  "norm_step acc c = (if c = ''.'' then acc else if c = ''..'' then butlast acc else acc @ [c])"

definition abs_comps :: "string list \<Rightarrow> string \<Rightarrow> string list" where
  "abs_comps cwd p = foldl norm_step (if startswith p ''/'' then [] else cwd) (comps p)"

text \<open>The components of \<^verbatim>\<open>os.path.relpath\<close> between two absolute paths.\<close>

definition rel_comps :: "string list \<Rightarrow> string list \<Rightarrow> string list" where
  "rel_comps path start =
     (let i = length (longest_common_prefix start path) in replicate (length start - i) ''..'' @ drop i path)"

definition relpath :: "string list \<Rightarrow> string \<Rightarrow> string \<Rightarrow> string res" where
  "relpath cwd path start =
     (if path = [] then Inl ValueError
      else (let rel = rel_comps (abs_comps cwd path) (abs_comps cwd start) in
        Inr (if rel = [] then ''.'' else join ''/'' rel)))"

section \<open>Laws\<close>

text \<open>A plain component: not empty, no slash, and neither of the two dots.\<close>

definition plain_part :: "string \<Rightarrow> bool" where
  "plain_part c \<longleftrightarrow> c \<noteq> [] \<and> CHR ''/'' \<notin> set c \<and> c \<noteq> ''.'' \<and> c \<noteq> ''..''"

lemma comps_parts: "c \<in> set (comps p) \<Longrightarrow> c \<noteq> [] \<and> CHR ''/'' \<notin> set c"
  by (auto simp: comps_def dest: split_on_no_sep)

lemma norm_plain: "list_all plain_part acc \<Longrightarrow> c \<noteq> [] \<Longrightarrow> CHR ''/'' \<notin> set c \<Longrightarrow> list_all plain_part (norm_step acc c)"
  by (auto simp: norm_step_def plain_part_def list_all_iff dest: in_set_butlastD)

lemma norm_fold_plain:
  "list_all plain_part acc \<Longrightarrow> \<forall>c \<in> set cs. c \<noteq> [] \<and> CHR ''/'' \<notin> set c \<Longrightarrow> list_all plain_part (foldl norm_step acc cs)"
  by (induction cs arbitrary: acc) (simp_all add: norm_plain)

lemma abs_plain: "list_all plain_part cwd \<Longrightarrow> list_all plain_part (abs_comps cwd p)"
  unfolding abs_comps_def by (rule norm_fold_plain) (auto dest: comps_parts)

lemma norm_append: "list_all plain_part cs \<Longrightarrow> foldl norm_step acc cs = acc @ cs"
  by (induction cs arbitrary: acc) (simp_all add: norm_step_def plain_part_def)

lemma norm_up: "foldl norm_step acc (replicate n ''..'') = take (length acc - n) acc"
proof (induction n arbitrary: acc)
  case (Suc n)
  then show ?case by (simp add: norm_step_def butlast_conv_take min_def)
qed simp

lemma rel_comps_resolve:
  assumes "list_all plain_part path"
  shows "foldl norm_step start (rel_comps path start) = path"
proof -
  let ?p = "longest_common_prefix start path"
  have "prefix ?p start" "prefix ?p path" by (simp_all add: longest_common_prefix_prefix1 longest_common_prefix_prefix2)
  then obtain s t where st: "start = ?p @ s" and pt: "path = ?p @ t" by (auto simp: prefix_def)
  have "list_all plain_part t" using assms pt by (metis list_all_append)
  then have "foldl norm_step ?p t = ?p @ t" by (rule norm_append)
  moreover have "length start - (length start - length ?p) = length ?p" using st by (metis diff_diff_cancel length_append le_add1)
  ultimately show ?thesis unfolding rel_comps_def Let_def foldl_append norm_up
    using st pt by (metis append_eq_conv_conj)
qed

lemma rel_comps_parts: "list_all plain_part path \<Longrightarrow> c \<in> set (rel_comps path start) \<Longrightarrow> c \<noteq> [] \<and> CHR ''/'' \<notin> set c"
  unfolding rel_comps_def Let_def set_append Un_iff
  by (elim disjE) (auto simp: set_replicate_conv_if list_all_iff plain_part_def dest: in_set_dropD split: if_splits)

lemma comps_join: "\<forall>c \<in> set cs. c \<noteq> [] \<and> CHR ''/'' \<notin> set c \<Longrightarrow> cs \<noteq> [] \<Longrightarrow> comps (join ''/'' cs) = cs"
  by (simp add: comps_def split_join)

lemma relpath_resolves:
  assumes "list_all plain_part cwd" and "new \<noteq> []" and "relpath cwd new start = Inr rel"
  shows "foldl norm_step (abs_comps cwd start) (comps rel) = abs_comps cwd new"
proof -
  define r where "r = rel_comps (abs_comps cwd new) (abs_comps cwd start)"
  have new: "list_all plain_part (abs_comps cwd new)" using assms(1) by (rule abs_plain)
  have rel: "rel = (if r = [] then ''.'' else join ''/'' r)" using assms(2,3) unfolding relpath_def Let_def r_def [symmetric] by simp
  have r: "foldl norm_step (abs_comps cwd start) r = abs_comps cwd new"
    unfolding r_def by (rule rel_comps_resolve [OF new])
  have parts: "\<forall>c \<in> set r. c \<noteq> [] \<and> CHR ''/'' \<notin> set c"
    unfolding r_def using rel_comps_parts [OF new] by blast
  show ?thesis
  proof (cases "r = []")
    case True
    then have "comps rel = [''.'']" by (simp add: rel comps_def)
    then show ?thesis using r True by (simp add: norm_step_def)
  next
    case False
    then show ?thesis using r by (simp add: rel comps_join [OF parts False])
  qed
qed

end
