(* ===== verification/Doc_Pages.thy ===== *)
theory Doc_Pages
  imports Doc_Paths "HOL-Library.Multiset"
begin

text \<open>
  \<^verbatim>\<open>generate_rst.py\<close>: the documentation pages of the repository, with a \<^verbatim>\<open>kernel-doc\<close> directive for every
  C source. The tree below a directory is an argument; a node that is neither a file nor a directory
  stands for a link to a directory, which is not entered.
\<close>

definition IGNORED_DIRECTORIES :: "string list" where
  "IGNORED_DIRECTORIES = [''build'', ''build-tsan'']"

text \<open>The files below a directory, each with the path of its directory.\<close>

fun walk_files :: "string \<Rightarrow> node \<Rightarrow> (string \<times> string) list" where
  "walk_files dirpath (N_dir entries) =
     map (\<lambda>f. (dirpath, f)) (sort (concat (map (\<lambda>(n, nd). case nd of N_file _ \<Rightarrow> [n] | _ \<Rightarrow> []) entries))) @
     concat (map (\<lambda>(n, nd). case nd of
         N_dir _ \<Rightarrow> if n \<in> set IGNORED_DIRECTORIES then [] else walk_files (path_join dirpath n) nd
       | _ \<Rightarrow> []) entries)"
| "walk_files dirpath nd = []"

definition source_step :: "string list \<Rightarrow> string \<Rightarrow> string list \<Rightarrow> string \<times> string \<Rightarrow> string list res" where
  "source_step cwd wisp out df = (case df of (dirpath, f) \<Rightarrow>
     if ends_in c_extensions f then rbind (relpath cwd (path_join dirpath f) wisp) (\<lambda>rel. Inr (out @ [rel]))
     else Inr out)"

definition find_sources :: "string list \<Rightarrow> string \<Rightarrow> (string \<Rightarrow> node option) \<Rightarrow> string \<Rightarrow> string list res" where
  "find_sources cwd wisp fs subdir =
     rbind (fold_res (source_step cwd wisp) [] (case fs subdir of Some nd \<Rightarrow> walk_files subdir nd | None \<Rightarrow> []))
       (\<lambda>out. Inr (sort out))"

definition page_text :: "string \<Rightarrow> string list \<Rightarrow> string" where
  "page_text title sources =
     title @ [NL] @ replicate (length title) (CHR ''='') @ [NL, NL] @ concat (map (\<lambda>src. ''.. kernel-doc:: '' @ src @ [NL]) sources)"

text \<open>The three pages \<^verbatim>\<open>main\<close> writes.\<close>

definition wisp_pages :: "(string \<times> string \<times> string) list" where
  "wisp_pages = [(''wisp_protocol.rst'', ''Wisp Protocol'', ''protocol''), (''wisp_server.rst'', ''Wisp Server'', ''server''),
     (''wisp_client_sdk.rst'', ''Wisp Client SDK'', ''client_sdk'')]"

definition generate_rst :: "string list \<Rightarrow> string \<Rightarrow> string \<Rightarrow> (string \<Rightarrow> node option) \<Rightarrow> (string \<times> string) list res" where
  "generate_rst cwd wisp sphinx fs =
     fold_res (\<lambda>acc (file, title, sub). rbind (find_sources cwd wisp fs (path_join wisp sub)) (\<lambda>srcs.
       Inr (acc @ [(path_join sphinx file, page_text title srcs)]))) [] wisp_pages"

section \<open>The pages name the sources\<close>

text \<open>The tree without the directories that are ignored.\<close>

fun prune :: "node \<Rightarrow> node" where
  "prune (N_dir entries) = N_dir (concat (map (\<lambda>(n, nd). case nd of
      N_dir _ \<Rightarrow> if n \<in> set IGNORED_DIRECTORIES then [] else [(n, prune nd)]
    | _ \<Rightarrow> [(n, nd)]) entries))"
| "prune nd = nd"

lemma path_join_ne: "b \<noteq> [] \<Longrightarrow> path_join a b \<noteq> []"
  by (auto simp: path_join_def)

lemma ends_in_ne: "ends_in c_extensions f \<Longrightarrow> f \<noteq> []"
  by (auto simp: ends_in_def c_extensions_def endswith_append)

definition source_paths :: "(string \<times> string) list \<Rightarrow> string list" where
  "source_paths dfs = map (\<lambda>(d, f). path_join d f) (filter (\<lambda>(d, f). ends_in c_extensions f) dfs)"

definition rel_of :: "string list \<Rightarrow> string \<Rightarrow> string \<Rightarrow> string" where
  "rel_of cwd wisp p = (case relpath cwd p wisp of Inl e \<Rightarrow> [] | Inr r \<Rightarrow> r)"

lemma source_steps:
  "fold_res (source_step cwd wisp) out dfs = Inr (out @ map (rel_of cwd wisp) (source_paths dfs))"
proof (induction dfs arbitrary: out)
  case (Cons df dfs)
  obtain d f where df: "df = (d, f)" by (cases df)
  show ?case
  proof (cases "ends_in c_extensions f")
    case True
    then have "path_join d f \<noteq> []" by (simp add: ends_in_ne path_join_ne)
    then have "relpath cwd (path_join d f) wisp = Inr (rel_of cwd wisp (path_join d f))"
      by (simp add: rel_of_def relpath_def Let_def)
    then show ?thesis using Cons True by (simp add: df source_step_def source_paths_def)
  next
    case False
    then show ?thesis using Cons by (simp add: df source_step_def source_paths_def)
  qed
qed (simp add: source_paths_def)

lemma source_paths_append [simp]: "source_paths (xs @ ys) = source_paths xs @ source_paths ys" "source_paths [] = []"
  by (simp_all add: source_paths_def)

lemma source_paths_dir: "source_paths (map (\<lambda>f. (d, f)) fs) = map (path_join d) (filter (ends_in c_extensions) fs)"
  by (induction fs) (simp_all add: source_paths_def)

lemma source_paths_files:
  "mset (source_paths (map (\<lambda>f. (d, f)) (sort fs))) = mset (map (path_join d) (filter (ends_in c_extensions) fs))"
  by (simp add: source_paths_dir)

text \<open>The entries of a directory, one by one.\<close>

definition entry_paths :: "string \<Rightarrow> string \<times> node \<Rightarrow> string list" where
  "entry_paths d e = (case snd e of
      N_file _ \<Rightarrow> if ends_in c_extensions (fst e) then [path_join d (fst e)] else []
    | N_dir _ \<Rightarrow> if fst e \<in> set IGNORED_DIRECTORIES then [] else source_paths (walk_files (path_join d (fst e)) (snd e))
    | N_other \<Rightarrow> [])"

lemma walk_entries: "mset (source_paths (walk_files d (N_dir es))) = mset (concat (map (entry_paths d) es))"
proof -
  have "mset (map (path_join d) (filter (ends_in c_extensions) (concat (map (\<lambda>(n, nd). case nd of N_file _ \<Rightarrow> [n] | _ \<Rightarrow> []) es)))) +
      mset (source_paths (concat (map (\<lambda>(n, nd). case nd of
         N_dir _ \<Rightarrow> if n \<in> set IGNORED_DIRECTORIES then [] else walk_files (path_join d n) nd | _ \<Rightarrow> []) es))) =
      mset (concat (map (entry_paths d) es))"
    by (induction es) (auto simp: entry_paths_def simp del: walk_files.simps split: node.split)
  then show ?thesis by (simp only: walk_files.simps source_paths_append mset_append source_paths_files)
qed

lemma walk_prune: "mset (source_paths (walk_files d nd)) = mset (parse_dir c_extensions d (prune nd))"
proof (induction d nd rule: walk_files.induct)
  case (1 d es)
  have "mset (concat (map (entry_paths d) es')) = mset (parse_dir c_extensions d (prune (N_dir es')))" if "set es' \<subseteq> set es" for es'
    using that
  proof (induction es')
    case (Cons e es')
    obtain n nd where e: "e = (n, nd)" by (cases e)
    have IH: "mset (source_paths (walk_files (path_join d n) nd)) = mset (parse_dir c_extensions (path_join d n) (prune nd))"
      if "nd = N_dir es2" "n \<notin> set IGNORED_DIRECTORIES" for es2
      using "1.IH" [of e n nd es2] Cons.prems that e by auto
    show ?case
    proof (cases nd)
      case (N_dir es2)
      then show ?thesis using IH [OF N_dir] Cons
        by (simp add: e entry_paths_def del: walk_files.simps)
    qed (use Cons in \<open>simp_all add: e entry_paths_def del: walk_files.simps\<close>)
  qed simp
  then show ?case unfolding walk_entries by blast
qed simp_all

text \<open>
  C40. A page names exactly the C sources below its directory that kernel-doc would find there, but for
  those in the ignored directories: each as often, in order, and as a path that leads to the same
  file from the source tree.
\<close>

theorem find_sources_exact:
  assumes "list_all plain_part cwd" and "fs subdir = Some nd"
  shows "\<exists>srcs. find_sources cwd wisp fs subdir = Inr srcs \<and> sorted srcs \<and>
    mset (map (\<lambda>src. foldl norm_step (abs_comps cwd wisp) (comps src)) srcs) =
    mset (map (abs_comps cwd) (parse_dir c_extensions subdir (prune nd)))"
proof -
  let ?ps = "source_paths (walk_files subdir nd)"
  have "foldl norm_step (abs_comps cwd wisp) (comps (rel_of cwd wisp p)) = abs_comps cwd p" if "p \<in> set ?ps" for p
  proof -
    from that have ne: "p \<noteq> []" by (auto simp: source_paths_def path_join_ne ends_in_ne)
    then have "relpath cwd p wisp = Inr (rel_of cwd wisp p)" by (simp add: rel_of_def relpath_def Let_def)
    from relpath_resolves [OF assms(1) ne this] show ?thesis .
  qed
  then have "map (\<lambda>src. foldl norm_step (abs_comps cwd wisp) (comps src)) (map (rel_of cwd wisp) ?ps) = map (abs_comps cwd) ?ps"
    by simp
  then have "mset (map (\<lambda>src. foldl norm_step (abs_comps cwd wisp) (comps src)) (sort (map (rel_of cwd wisp) ?ps))) =
      mset (map (abs_comps cwd) ?ps)"
    by (metis mset_map mset_sort)
  moreover have "mset (map (abs_comps cwd) ?ps) = mset (map (abs_comps cwd) (parse_dir c_extensions subdir (prune nd)))"
    by (simp only: mset_map walk_prune)
  ultimately show ?thesis by (simp add: find_sources_def assms(2) source_steps del: mset_map)
qed

definition sample_tree :: "string \<Rightarrow> node option" where
  "sample_tree p = (if p = ''/w/protocol'' then Some (N_dir [(''b.h'', N_file None), (''build'', N_dir [(''x.c'', N_file None)]),
     (''src'', N_dir [(''a.c'', N_file None)]), (''README'', N_file None)]) else None)"

theorem find_sources_exact_witness:
  "\<exists>srcs. find_sources [''d''] ''/w'' sample_tree ''/w/protocol'' = Inr srcs \<and> sorted srcs \<and>
    mset (map (\<lambda>src. foldl norm_step (abs_comps [''d''] ''/w'') (comps src)) srcs) =
    mset [[''w'', ''protocol'', ''b.h''], [''w'', ''protocol'', ''src'', ''a.c'']]"
proof -
  let ?nd = "the (sample_tree ''/w/protocol'')"
  have nd: "sample_tree ''/w/protocol'' = Some ?nd" by (simp add: sample_tree_def)
  have "list_all plain_part [''d'']" by code_simp
  from find_sources_exact [of "[''d'']" sample_tree "''/w/protocol''", OF this nd, of "''/w''"] obtain srcs where
    "find_sources [''d''] ''/w'' sample_tree ''/w/protocol'' = Inr srcs" "sorted srcs"
    "mset (map (\<lambda>src. foldl norm_step (abs_comps [''d''] ''/w'') (comps src)) srcs) =
     mset (map (abs_comps [''d'']) (parse_dir c_extensions ''/w/protocol'' (prune ?nd)))" by blast
  moreover have "map (abs_comps [''d'']) (parse_dir c_extensions ''/w/protocol'' (prune ?nd)) =
      [[''w'', ''protocol'', ''b.h''], [''w'', ''protocol'', ''src'', ''a.c'']]" by code_simp
  ultimately show ?thesis by (metis (no_types))
qed

end
