(* ===== verification/Automarkup.thy ===== *)
theory Automarkup
  imports Kern_Re
begin

text \<open>
  \<^verbatim>\<open>automarkup.py\<close>: cross-references in the text of a page. What Sphinx finds for a target is an
  argument, \<open>resolve\<close>, which gives the reference node, or none (also when it raises \<^verbatim>\<open>NoUri\<close>). Nodes of
  docutils are always true. The patterns with \<^verbatim>\<open>re.ASCII\<close> are modelled for texts of ASCII characters.
\<close>

section \<open>Patterns\<close>

datatype markup_kind = K_doc | K_function | K_struct | K_union | K_enum | K_typedef | K_git

definition RE_function :: regex where "RE_function = re (rx ''~b(([a-zA-Z_]~w+)~(~))'')"
definition RE_struct :: regex where "RE_struct = re (rx ''~b(struct)~s+([a-zA-Z_]~w+)'')"
definition RE_union :: regex where "RE_union = re (rx ''~b(union)~s+([a-zA-Z_]~w+)'')"
definition RE_enum :: regex where "RE_enum = re (rx ''~b(enum)~s+([a-zA-Z_]~w+)'')"
definition RE_typedef :: regex where "RE_typedef = re (rx ''~b(typedef)~s+([a-zA-Z_]~w+)'')"
definition RE_doc :: regex where "RE_doc = re (rx ''(~bDocumentation/)?((~.~./)*[~w~-/]+)~.(rst|txt)'')"
definition RE_namespace :: regex where "RE_namespace = re (rx ''^~s*..~s*c:namespace::~s*(~S+)~s*$'')"
definition RE_git :: regex where
  "RE_git = prog (rx ''commit~s+(?P<rev>[0-9a-f]{12,40})(?:~s+~(\".*?\"~))?'') \<lparr>fl_i = True, fl_m = False, fl_s = True\<rparr>"

definition Skipnames :: "string list" where
  "Skipnames = [''for'', ''if'', ''register'', ''sizeof'', ''struct'', ''unsigned'']"

definition Skipidentifiers :: "string list" where
  "Skipidentifiers = [''that'', ''which'', ''where'', ''whose'']"

definition Skipfuncs :: "string list" where
  "Skipfuncs = [''open'', ''close'', ''read'', ''write'', ''fcntl'', ''mmap'', ''select'', ''poll'', ''fork'', ''execve'',
     ''clone'', ''ioctl'', ''socket'']"

text \<open>The patterns in the order of the table that gives each its function.\<close>

definition markup_func :: "(markup_kind \<times> regex) list" where
  "markup_func = [(K_doc, RE_doc), (K_function, RE_function), (K_struct, RE_struct), (K_union, RE_union), (K_enum, RE_enum),
     (K_typedef, RE_typedef), (K_git, RE_git)]"

section \<open>References\<close>

datatype 'r mnode =
    Text_node string
  | Xref 'r
  | Literal "string list" string
  | Git_reference string string

text \<open>Domain, type, target and the text of the node the reference should contain, if there is one.\<close>

type_synonym 'r resolver = "string \<Rightarrow> string \<Rightarrow> string \<Rightarrow> (string list \<times> string) option \<Rightarrow> 'r option"

text \<open>A target that is not found gives the literal back, marked as broken: a node, and so true.\<close>

definition add_and_resolve_xref ::
    "'r resolver \<Rightarrow> string \<Rightarrow> string \<Rightarrow> string \<Rightarrow> (string list \<times> string) option \<Rightarrow> 'r mnode option" where
  "add_and_resolve_xref resolve domain reftype target contnode = (case resolve domain reftype target contnode of
      Some r \<Rightarrow> Some (Xref r)
    | None \<Rightarrow> (case contnode of
        Some (classes, t) \<Rightarrow> Some (Literal (classes @ [''broken_xref'']) t)
      | None \<Rightarrow> None))"

definition possible_targets :: "string \<Rightarrow> string \<Rightarrow> string list" where
  "possible_targets ns base_target = (if ns \<noteq> [] then [ns @ ''.'' @ base_target, base_target] else [base_target])"

text \<open>The lookups that failed.\<close>

definition failure_seen :: "string \<Rightarrow> string list \<Rightarrow> bool" where
  "failure_seen target failed \<longleftrightarrow> target \<in> set failed"

definition note_failure :: "string \<Rightarrow> string list \<Rightarrow> string list" where
  "note_failure target failed = List.insert target failed"

fun try_func_targets :: "'r resolver \<Rightarrow> string \<Rightarrow> string list \<Rightarrow> string list \<Rightarrow> 'r mnode \<times> string list" where
  "try_func_targets resolve t failed [] = (Text_node t, failed)"
| "try_func_targets resolve t failed (target # targets) =
     (if target \<notin> set Skipfuncs \<and> \<not> failure_seen target failed then
        (case add_and_resolve_xref resolve ''c'' ''function'' target (Some ([''xref'', ''c'', ''c-func''], t)) of
           Some x \<Rightarrow> (x, failed)
         | None \<Rightarrow> try_func_targets resolve t (note_failure target failed) targets)
      else try_func_targets resolve t failed targets)"

definition markup_func_ref_sphinx3 :: "'r resolver \<Rightarrow> string \<Rightarrow> pymatch \<Rightarrow> string list \<Rightarrow> 'r mnode \<times> string list" where
  "markup_func_ref_sphinx3 resolve ns m failed =
     (let base_target = m_str m 2; t = m_text m in
      if base_target \<notin> set Skipnames then try_func_targets resolve t failed (possible_targets ns base_target)
      else (Text_node t, failed))"

definition class_str :: "markup_kind \<Rightarrow> string" where
  "class_str k = (case k of K_struct \<Rightarrow> ''c-struct'' | K_union \<Rightarrow> ''c-union'' | K_enum \<Rightarrow> ''c-enum'' | _ \<Rightarrow> ''c-type'')"

definition reftype_str :: "markup_kind \<Rightarrow> string" where
  "reftype_str k = (case k of K_struct \<Rightarrow> ''struct'' | K_union \<Rightarrow> ''union'' | K_enum \<Rightarrow> ''enum'' | _ \<Rightarrow> ''type'')"

fun try_c_targets :: "'r resolver \<Rightarrow> markup_kind \<Rightarrow> string \<Rightarrow> string list \<Rightarrow> 'r mnode" where
  "try_c_targets resolve k t [] = Text_node t"
| "try_c_targets resolve k t (target # targets) =
     (case add_and_resolve_xref resolve ''c'' (reftype_str k) target (Some ([''xref'', ''c'', class_str k], t)) of
        Some x \<Rightarrow> x
      | None \<Rightarrow> try_c_targets resolve k t targets)"

definition markup_c_ref :: "'r resolver \<Rightarrow> string \<Rightarrow> markup_kind \<Rightarrow> pymatch \<Rightarrow> 'r mnode" where
  "markup_c_ref resolve ns k m =
     (let base_target = m_str m 2; t = m_text m in
      if base_target \<in> set Skipidentifiers then Text_node t
      else if base_target \<notin> set Skipnames then try_c_targets resolve k t (possible_targets ns base_target)
      else Text_node t)"

definition markup_doc_ref :: "'r resolver \<Rightarrow> pymatch \<Rightarrow> 'r mnode" where
  "markup_doc_ref resolve m =
     (let target = (if m_str m 1 \<noteq> [] then ''/'' @ m_str m 2 else m_str m 2) in
      case add_and_resolve_xref resolve ''std'' ''doc'' target None of
        Some x \<Rightarrow> x
      | None \<Rightarrow> Text_node (m_text m))"

definition markup_git :: "pymatch \<Rightarrow> 'r mnode" where
  "markup_git m = Git_reference (m_text m) (''https://git.kernel.org/torvalds/c/'' @ m_str m 1)"

definition markup_match :: "'r resolver \<Rightarrow> string \<Rightarrow> markup_kind \<Rightarrow> pymatch \<Rightarrow> string list \<Rightarrow> 'r mnode \<times> string list" where
  "markup_match resolve ns k m failed = (case k of
      K_doc \<Rightarrow> (markup_doc_ref resolve m, failed)
    | K_function \<Rightarrow> markup_func_ref_sphinx3 resolve ns m failed
    | K_git \<Rightarrow> (markup_git m, failed)
    | _ \<Rightarrow> (markup_c_ref resolve ns k m, failed))"

section \<open>The text of a node\<close>

definition m_end :: "pymatch \<Rightarrow> nat" where
  "m_end m = m_start m + length (m_text m)"

definition sorted_matches :: "string \<Rightarrow> (markup_kind \<times> pymatch) list" where
  "sorted_matches t = sort_key (\<lambda>km. m_start (snd km)) (concat (map (\<lambda>(k, r). map (Pair k) (re_finditer r t)) markup_func))"

text \<open>The text is cut into pieces: text that stays, and matches.\<close>

datatype piece = P_text string | P_match markup_kind pymatch

fun cut_pieces :: "string \<Rightarrow> nat \<Rightarrow> (markup_kind \<times> pymatch) list \<Rightarrow> piece list" where
  "cut_pieces t don [] = (if don < length t then [P_text (drop don t)] else [])"
| "cut_pieces t don ((k, m) # kms) =
     (if don < m_start m then [P_text (take (m_start m - don) (drop don t))] else []) @ P_match k m # cut_pieces t (m_end m) kms"

fun markup_piece :: "'r resolver \<Rightarrow> string \<Rightarrow> 'r mnode list \<times> string list \<Rightarrow> piece \<Rightarrow> 'r mnode list \<times> string list" where
  "markup_piece resolve ns (repl, failed) (P_text t) = (repl @ [Text_node t], failed)"
| "markup_piece resolve ns (repl, failed) (P_match k m) =
     (case markup_match resolve ns k m failed of (x, failed1) \<Rightarrow> (repl @ [x], failed1))"

definition markup_refs :: "'r resolver \<Rightarrow> string \<Rightarrow> string list \<Rightarrow> string \<Rightarrow> 'r mnode list \<times> string list" where
  "markup_refs resolve ns failed t = foldl (markup_piece resolve ns) ([], failed) (cut_pieces t 0 (sorted_matches t))"

section \<open>Pages\<close>

definition get_c_namespace :: "string list \<Rightarrow> string" where
  "get_c_namespace lines = (case first_some (re_search RE_namespace) lines of Some m \<Rightarrow> m_str m 1 | None \<Rightarrow> [])"

text \<open>The ancestors of a node, nearest first: whether each is a literal, and whether it is a reference.\<close>

definition text_but_not_a_reference :: "bool \<Rightarrow> (bool \<times> bool) list \<Rightarrow> bool" where
  "text_but_not_a_reference is_text parents \<longleftrightarrow>
     is_text \<and> \<not> (parents \<noteq> [] \<and> fst (hd parents)) \<and> \<not> list_ex snd parents"

section \<open>Positions of matches\<close>

lemma seg_matches_in_text:
  "m \<in> set (seg_matches i segs) \<Longrightarrow> i \<le> m_start m \<and> m_end m \<le> i + length (segs_text segs) \<and>
    take (length (m_text m)) (drop (m_start m - i) (segs_text segs)) = m_text m"
proof (induction i segs rule: seg_matches.induct)
  case (2 i pre t g segs)
  show ?case
  proof (cases "m = PyMatch (i + length pre) t g")
    case True
    then show ?thesis by (simp add: m_end_def segs_text_def)
  next
    case False
    then have "m \<in> set (seg_matches (i + length pre + length t) segs)" using 2 by simp
    note IH = "2.IH" [OF this]
    then have "drop (m_start m - i) (segs_text ((pre, t, g) # segs)) = drop (m_start m - (i + length pre + length t)) (segs_text segs)"
      by (auto simp: segs_text_def drop_append)
    then show ?thesis using IH by (auto simp: segs_text_def)
  qed
qed simp

lemma finditer_in_text:
  assumes "m \<in> set (re_finditer r t)"
  shows "m_end m \<le> length t \<and> take (length (m_text m)) (drop (m_start m) t) = m_text m"
proof -
  obtain segs tail where sc: "re_scan r t = (segs, tail)" by (cases "re_scan r t")
  then have t: "t = segs_text segs @ tail" by (simp add: re_scan_def scan_text)
  have m: "m \<in> set (seg_matches 0 segs)" using assms sc by (simp add: re_finditer_def)
  note f = seg_matches_in_text [OF m]
  then have "m_start m + length (m_text m) \<le> length (segs_text segs)" by (simp add: m_end_def)
  then show ?thesis using f by (simp add: t take_append drop_append m_end_def)
qed

text \<open>Matches one after the other, none starting before the end of the one before.\<close>

fun in_sequence :: "nat \<Rightarrow> (markup_kind \<times> pymatch) list \<Rightarrow> bool" where
  "in_sequence don [] = True"
| "in_sequence don ((k, m) # kms) = (don \<le> m_start m \<and> in_sequence (m_end m) kms)"

fun piece_text :: "piece \<Rightarrow> string" where
  "piece_text (P_text t) = t"
| "piece_text (P_match k m) = m_text m"

definition within :: "string \<Rightarrow> markup_kind \<times> pymatch \<Rightarrow> bool" where
  "within t km \<longleftrightarrow> m_end (snd km) \<le> length t \<and> take (length (m_text (snd km))) (drop (m_start (snd km)) t) = m_text (snd km)"

lemma sorted_within: "list_all (within t) (sorted_matches t)"
  by (auto simp: sorted_matches_def list_all_iff within_def dest: finditer_in_text)

lemma cut_pieces_text:
  "list_all (within t) kms \<Longrightarrow> in_sequence don kms \<Longrightarrow> don \<le> length t \<Longrightarrow>
   concat (map piece_text (cut_pieces t don kms)) = drop don t"
proof (induction t don kms rule: cut_pieces.induct)
  case (2 t don k m kms)
  have m: "m_end m \<le> length t" "take (length (m_text m)) (drop (m_start m) t) = m_text m" and le: "don \<le> m_start m"
    using 2 by (simp_all add: within_def)
  have "drop don t = take (m_start m - don) (drop don t) @ drop (m_start m) t"
    using le by (metis append_take_drop_id drop_drop le_add_diff_inverse2)
  moreover have "drop (m_start m) t = m_text m @ drop (m_end m) t"
    using m(2) by (metis append_take_drop_id drop_drop m_end_def add.commute)
  moreover have "concat (map piece_text (cut_pieces t (m_end m) kms)) = drop (m_end m) t" using 2 m(1) by simp
  ultimately show ?case using le by (cases "don < m_start m") auto
qed simp

lemma cut_pieces_length:
  "list_all (within t) kms \<Longrightarrow> don \<le> length t \<Longrightarrow>
   length t - don \<le> length (concat (map piece_text (cut_pieces t don kms))) \<and>
   (\<not> in_sequence don kms \<longrightarrow> length t - don < length (concat (map piece_text (cut_pieces t don kms))))"
proof (induction t don kms rule: cut_pieces.induct)
  case (2 t don k m kms)
  have m: "m_end m \<le> length t" using 2 by (simp add: within_def)
  then have IH: "length t - m_end m \<le> length (concat (map piece_text (cut_pieces t (m_end m) kms)))"
    "\<not> in_sequence (m_end m) kms \<Longrightarrow> length t - m_end m < length (concat (map piece_text (cut_pieces t (m_end m) kms)))"
    using "2.IH" "2.prems" by auto
  show ?case using IH m "2.prems"(2) by (auto simp: m_end_def)
qed simp

text \<open>
  The pieces a text is cut into give the text back exactly when its matches do not overlap; where
  two overlap, as in \<^verbatim>\<open>struct foo()\<close>, a part of the text is repeated.
\<close>

theorem pieces_lossless_iff:
  "concat (map piece_text (cut_pieces t 0 (sorted_matches t))) = t \<longleftrightarrow> in_sequence 0 (sorted_matches t)"
  using cut_pieces_text [OF sorted_within, of 0 t] cut_pieces_length [OF sorted_within, of 0 t] by fastforce

text \<open>Such a text.\<close>

lemma overlap_repeats:
  "concat (map piece_text (cut_pieces ''struct foo()'' 0 (sorted_matches ''struct foo()''))) = ''struct foofoo()''"
  by code_simp

section \<open>Lookups\<close>

lemma try_func_failed: "snd (try_func_targets resolve t failed targets) = failed"
  by (induction resolve t failed targets rule: try_func_targets.induct) (auto simp: add_and_resolve_xref_def split: option.splits)

lemma markup_match_failed: "snd (markup_match resolve ns k m failed) = failed"
  by (cases k) (simp_all add: markup_match_def markup_func_ref_sphinx3_def Let_def try_func_failed)

text \<open>
  No lookup is ever noted as failed: a reference that is not found comes back as a literal, which
  counts as found, so the list of failed lookups stays as it was.
\<close>

theorem failures_never_noted: "snd (markup_refs resolve ns failed t) = failed"
proof -
  have "snd (markup_piece resolve ns (repl, failed) p) = failed" for repl p
    by (cases p) (simp_all add: markup_match_failed case_prod_unfold)
  then have "snd (foldl (markup_piece resolve ns) acc ps) = failed" if "snd acc = failed" for acc ps
    using that by (induction ps arbitrary: acc) (auto, metis prod.collapse)
  then show ?thesis by (simp add: markup_refs_def)
qed

text \<open>
  In a page with a namespace only the name inside the namespace is looked up: when it is not found
  the reference is broken, whatever Sphinx knows about the plain name.
\<close>

theorem namespace_only:
  assumes "ns \<noteq> []" and "m_str m 2 \<notin> set Skipnames" and "ns @ ''.'' @ m_str m 2 \<notin> set Skipfuncs \<union> set failed"
    and "resolve ''c'' ''function'' (ns @ ''.'' @ m_str m 2) (Some ([''xref'', ''c'', ''c-func''], m_text m)) = None"
  shows "markup_func_ref_sphinx3 resolve ns m failed = (Literal [''xref'', ''c'', ''c-func'', ''broken_xref''] (m_text m), failed)"
  using assms by (simp add: markup_func_ref_sphinx3_def Let_def possible_targets_def add_and_resolve_xref_def failure_seen_def)

theorem namespace_only_witness:
  "markup_func_ref_sphinx3 (\<lambda>d ty target c. if target = ''foo'' then Some target else None) ''MC''
     (PyMatch 0 ''foo()'' (no_groups(1 := Some ''foo()'', 2 := Some ''foo''))) [] =
   (Literal [''xref'', ''c'', ''c-func'', ''broken_xref''] ''foo()'', [])"
  using namespace_only [of "''MC''" "PyMatch 0 ''foo()'' (no_groups(1 := Some ''foo()'', 2 := Some ''foo''))" "[]"
      "\<lambda>d ty target c. if target = ''foo'' then Some target else None"]
  by (simp add: m_str_def m_group_def Skipnames_def Skipfuncs_def)

end
