(* ===== verification/Doc_Tree.thy ===== *)
theory Doc_Tree
  imports Automarkup
begin

text \<open>
  \<^verbatim>\<open>auto_markup\<close> of \<^verbatim>\<open>automarkup.py\<close>: the traversal of a document. A document is a tree of elements and
  texts; the text nodes of its paragraphs that are in no literal and below no reference are replaced
  by the nodes made from them. In docutils a paragraph has only inline elements below it, so paragraphs
  do not nest; nodes are told apart by their place.
\<close>

section \<open>Documents\<close>

datatype tag = Paragraph | Literal_tag "string list" | Referential_tag string | Other_tag string

datatype 'r dtree = D_text string | D_xref 'r | D_elem tag "'r dtree list"

definition is_literal :: "tag \<Rightarrow> bool" where
  "is_literal tg = (case tg of Literal_tag _ \<Rightarrow> True | _ \<Rightarrow> False)"

definition is_referential :: "tag \<Rightarrow> bool" where
  "is_referential tg = (case tg of Referential_tag _ \<Rightarrow> True | _ \<Rightarrow> False)"

text \<open>The nodes made from a text, in the tree.\<close>

fun tree_of :: "'r mnode \<Rightarrow> 'r dtree" where
  "tree_of (Text_node s) = D_text s"
| "tree_of (Xref r) = D_xref r"
| "tree_of (Literal classes s) = D_elem (Literal_tag classes) [D_text s]"
| "tree_of (Git_reference s uri) = D_elem (Referential_tag uri) [D_text s]"

section \<open>The traversal\<close>

text \<open>
  Below a paragraph, with the elements a node is in, nearest first. The test is the condition of the
  traversal, and the state is the list of failed lookups.
\<close>

definition ancestry :: "tag list \<Rightarrow> (bool \<times> bool) list" where
  "ancestry up = map (\<lambda>tg. (is_literal tg, is_referential tg)) up"

fun mark_texts :: "'r resolver \<Rightarrow> string \<Rightarrow> tag list \<Rightarrow> string list \<Rightarrow> 'r dtree \<Rightarrow> 'r dtree list \<times> string list"
  and mark_children :: "'r resolver \<Rightarrow> string \<Rightarrow> tag list \<Rightarrow> string list \<Rightarrow> 'r dtree list \<Rightarrow> 'r dtree list \<times> string list" where
  "mark_texts resolve ns up failed (D_text s) =
     (if text_but_not_a_reference True (ancestry up) then
        (case markup_refs resolve ns failed s of (ms, failed1) \<Rightarrow> (map tree_of ms, failed1))
      else ([D_text s], failed))"
| "mark_texts resolve ns up failed (D_xref r) = ([D_xref r], failed)"
| "mark_texts resolve ns up failed (D_elem tg cs) =
     (case mark_children resolve ns (tg # up) failed cs of (cs1, failed1) \<Rightarrow> ([D_elem tg cs1], failed1))"
| "mark_children resolve ns up failed [] = ([], failed)"
| "mark_children resolve ns up failed (c # cs) =
     (case mark_texts resolve ns up failed c of (c1, failed1) \<Rightarrow>
      case mark_children resolve ns up failed1 cs of (cs1, failed2) \<Rightarrow> (c1 @ cs1, failed2))"

text \<open>The paragraphs of the document, in its order.\<close>

fun mark_doc :: "'r resolver \<Rightarrow> string \<Rightarrow> tag list \<Rightarrow> string list \<Rightarrow> 'r dtree \<Rightarrow> 'r dtree \<times> string list"
  and mark_docs :: "'r resolver \<Rightarrow> string \<Rightarrow> tag list \<Rightarrow> string list \<Rightarrow> 'r dtree list \<Rightarrow> 'r dtree list \<times> string list" where
  "mark_doc resolve ns up failed (D_text s) = (D_text s, failed)"
| "mark_doc resolve ns up failed (D_xref r) = (D_xref r, failed)"
| "mark_doc resolve ns up failed (D_elem tg cs) =
     (case (if tg = Paragraph then mark_children resolve ns (tg # up) failed cs else mark_docs resolve ns (tg # up) failed cs) of
        (cs1, failed1) \<Rightarrow> (D_elem tg cs1, failed1))"
| "mark_docs resolve ns up failed [] = ([], failed)"
| "mark_docs resolve ns up failed (c # cs) =
     (case mark_doc resolve ns up failed c of (c1, failed1) \<Rightarrow>
      case mark_docs resolve ns up failed1 cs of (cs1, failed2) \<Rightarrow> (c1 # cs1, failed2))"

text \<open>The namespace comes from the source of the page.\<close>

definition auto_markup :: "'r resolver \<Rightarrow> string list \<Rightarrow> string list \<Rightarrow> 'r dtree \<Rightarrow> 'r dtree \<times> string list" where
  "auto_markup resolve source failed doc = mark_doc resolve (get_c_namespace source) [] failed doc"

section \<open>The texts that are marked\<close>

fun open_texts :: "tag list \<Rightarrow> 'r dtree \<Rightarrow> string list" where
  "open_texts up (D_text s) = (if text_but_not_a_reference True (ancestry up) then [s] else [])"
| "open_texts up (D_xref r) = []"
| "open_texts up (D_elem tg cs) = concat (map (open_texts (tg # up)) cs)"

fun marked_texts :: "tag list \<Rightarrow> 'r dtree \<Rightarrow> string list" where
  "marked_texts up (D_text s) = []"
| "marked_texts up (D_xref r) = []"
| "marked_texts up (D_elem tg cs) =
     (if tg = Paragraph then concat (map (open_texts (tg # up)) cs) else concat (map (marked_texts (tg # up)) cs))"

text \<open>The text of a document; \<open>xt\<close> gives the text of a resolved reference.\<close>

fun astext :: "('r \<Rightarrow> string) \<Rightarrow> 'r dtree \<Rightarrow> string" where
  "astext xt (D_text s) = s"
| "astext xt (D_xref r) = xt r"
| "astext xt (D_elem tg cs) = concat (map (astext xt) cs)"

fun mnode_text :: "('r \<Rightarrow> string) \<Rightarrow> 'r mnode \<Rightarrow> string" where
  "mnode_text xt (Text_node s) = s"
| "mnode_text xt (Xref r) = xt r"
| "mnode_text xt (Literal classes s) = s"
| "mnode_text xt (Git_reference s uri) = s"

lemma astext_tree_of [simp]: "astext xt (tree_of m) = mnode_text xt m"
  by (cases m) simp_all

section \<open>The text of a document\<close>

text \<open>
  What Sphinx promises of the references it finds: the text of a reference is the one of the node it
  was given to contain. Pages are looked up without such a node, and here are not found.
\<close>

definition shows_text :: "('r \<Rightarrow> string) \<Rightarrow> 'r resolver \<Rightarrow> bool" where
  "shows_text xt resolve \<longleftrightarrow> (\<forall>d ty tg c t r. resolve d ty tg (Some (c, t)) = Some r \<longrightarrow> xt r = t) \<and> (\<forall>tg. resolve ''std'' ''doc'' tg None = None)"

lemma xref_text:
  "shows_text xt resolve \<Longrightarrow> add_and_resolve_xref resolve d ty tg (Some (c, t)) = Some m \<Longrightarrow> mnode_text xt m = t"
  by (auto simp: add_and_resolve_xref_def shows_text_def split: option.splits)

lemma try_func_text: "shows_text xt resolve \<Longrightarrow> mnode_text xt (fst (try_func_targets resolve t failed targets)) = t"
  by (induction resolve t failed targets rule: try_func_targets.induct) (auto dest: xref_text split: option.split)

lemma try_c_text: "shows_text xt resolve \<Longrightarrow> mnode_text xt (try_c_targets resolve k t targets) = t"
  by (induction resolve k t targets rule: try_c_targets.induct) (auto dest: xref_text split: option.split)

lemma markup_match_text:
  assumes "shows_text xt resolve"
  shows "mnode_text xt (fst (markup_match resolve ns k m failed)) = m_text m"
proof -
  have "add_and_resolve_xref resolve ''std'' ''doc'' tg None = None" for tg
    using assms by (simp add: add_and_resolve_xref_def shows_text_def)
  then have "mnode_text xt (markup_doc_ref resolve m) = m_text m" by (simp add: markup_doc_ref_def Let_def)
  moreover have "mnode_text xt (markup_c_ref resolve ns k m) = m_text m"
    by (simp add: markup_c_ref_def Let_def try_c_text [OF assms])
  moreover have "mnode_text xt (fst (markup_func_ref_sphinx3 resolve ns m failed)) = m_text m"
    by (simp add: markup_func_ref_sphinx3_def Let_def try_func_text [OF assms])
  ultimately show ?thesis by (cases k) (simp_all add: markup_match_def markup_git_def)
qed

definition pieces_text :: "string \<Rightarrow> string" where
  "pieces_text t = concat (map piece_text (cut_pieces t 0 (sorted_matches t)))"

lemma pieces_text_cases:
  "length t \<le> length (pieces_text t) \<and> (if in_sequence 0 (sorted_matches t) then pieces_text t = t else length t < length (pieces_text t))"
  using cut_pieces_text [OF sorted_within, of 0 t] cut_pieces_length [OF sorted_within, of 0 t] by (simp add: pieces_text_def)

lemma markup_refs_text:
  assumes "shows_text xt resolve"
  shows "concat (map (mnode_text xt) (fst (markup_refs resolve ns failed t))) = pieces_text t"
proof -
  have "concat (map (mnode_text xt) (fst (foldl (markup_piece resolve ns) (repl, fl) ps))) =
      concat (map (mnode_text xt) repl) @ concat (map piece_text ps)" for repl fl ps
  proof (induction ps arbitrary: repl fl)
    case (Cons q ps)
    show ?case
    proof (cases q)
      case (P_match k m)
      obtain x fl1 where x: "markup_match resolve ns k m fl = (x, fl1)" by force
      then have "mnode_text xt x = m_text m" using markup_match_text [OF assms, of ns k m fl] by simp
      then show ?thesis using Cons.IH by (simp add: P_match x)
    qed (simp add: Cons.IH)
  qed simp
  then show ?thesis by (simp add: markup_refs_def pieces_text_def)
qed

text \<open>
  A document after the traversal, compared with the one before: the texts of both agree when no
  marked text has overlapping matches, and the text has grown otherwise.
\<close>

definition grown :: "string list \<Rightarrow> string \<Rightarrow> string \<Rightarrow> bool" where
  "grown ts old new \<longleftrightarrow> length old \<le> length new \<and>
     (if \<forall>t \<in> set ts. in_sequence 0 (sorted_matches t) then new = old else length old < length new)"

lemma grown_append: "grown ts old new \<Longrightarrow> grown ts' old' new' \<Longrightarrow> grown (ts @ ts') (old @ old') (new @ new')"
  by (auto simp: grown_def split: if_splits)

lemma grown_refl: "grown [] t t"
  by (simp add: grown_def)

lemma grown_marked:
  assumes "shows_text xt resolve"
  shows "grown [t] t (concat (map (astext xt) (map tree_of (fst (markup_refs resolve ns failed t)))))"
  using markup_refs_text [OF assms, of ns failed t] pieces_text_cases [of t] by (simp add: grown_def o_def)

lemma mark_texts_grown:
  "shows_text xt resolve \<Longrightarrow> grown (open_texts up t) (astext xt t) (concat (map (astext xt) (fst (mark_texts resolve ns up failed t))))"
  "shows_text xt resolve \<Longrightarrow> grown (concat (map (open_texts up) cs)) (concat (map (astext xt) cs))
     (concat (map (astext xt) (fst (mark_children resolve ns up failed cs))))"
proof (induction resolve ns up failed t and resolve ns up failed cs rule: mark_texts_mark_children.induct)
  case (1 resolve ns up failed s)
  then show ?case using grown_marked [OF 1, of s ns failed] by (simp add: grown_refl case_prod_unfold)
next
  case (5 resolve ns up failed c cs)
  obtain c1 failed1 where c: "mark_texts resolve ns up failed c = (c1, failed1)" by force
  then have "grown (concat (map (open_texts up) cs)) (concat (map (astext xt) cs))
      (concat (map (astext xt) (fst (mark_children resolve ns up failed1 cs))))" using 5 by simp
  from grown_append [OF "5.IH"(1) [OF "5.prems"] this] show ?case by (simp add: c case_prod_unfold)
qed (simp_all add: grown_refl case_prod_unfold)

lemma mark_doc_grown:
  "shows_text xt resolve \<Longrightarrow> grown (marked_texts up t) (astext xt t) (astext xt (fst (mark_doc resolve ns up failed t)))"
  "shows_text xt resolve \<Longrightarrow> grown (concat (map (marked_texts up) cs)) (concat (map (astext xt) cs))
     (concat (map (astext xt) (fst (mark_docs resolve ns up failed cs))))"
proof (induction resolve ns up failed t and resolve ns up failed cs rule: mark_doc_mark_docs.induct)
  case (3 resolve ns up failed tg cs)
  then show ?case using mark_texts_grown(2) [OF "3.prems", of "tg # up" cs ns failed] by (auto simp: case_prod_unfold)
next
  case (5 resolve ns up failed c cs)
  obtain c1 failed1 where c: "mark_doc resolve ns up failed c = (c1, failed1)" by force
  then have "grown (concat (map (marked_texts up) cs)) (concat (map (astext xt) cs))
      (concat (map (astext xt) (fst (mark_docs resolve ns up failed1 cs))))" using 5 by simp
  from grown_append [OF "5.IH"(1) [OF "5.prems"] this] show ?case by (simp add: c case_prod_unfold)
qed (simp_all add: grown_refl)


definition sample_page :: "string dtree" where
  "sample_page = D_elem (Other_tag ''document'')
     [D_elem Paragraph [D_text ''see struct foo()'', D_elem (Literal_tag []) [D_text ''struct foo()'']]]"


section \<open>The traversal has no memory\<close>

text \<open>A document with every text that is marked replaced on its own.\<close>

fun put_texts :: "(string \<Rightarrow> 'r dtree list) \<Rightarrow> tag list \<Rightarrow> 'r dtree \<Rightarrow> 'r dtree list" where
  "put_texts f up (D_text s) = (if text_but_not_a_reference True (ancestry up) then f s else [D_text s])"
| "put_texts f up (D_xref r) = [D_xref r]"
| "put_texts f up (D_elem tg cs) = [D_elem tg (concat (map (put_texts f (tg # up)) cs))]"

fun put_paragraphs :: "(string \<Rightarrow> 'r dtree list) \<Rightarrow> tag list \<Rightarrow> 'r dtree \<Rightarrow> 'r dtree" where
  "put_paragraphs f up (D_text s) = D_text s"
| "put_paragraphs f up (D_xref r) = D_xref r"
| "put_paragraphs f up (D_elem tg cs) =
     D_elem tg (if tg = Paragraph then concat (map (put_texts f (tg # up)) cs) else map (put_paragraphs f (tg # up)) cs)"

definition marked :: "'r resolver \<Rightarrow> string \<Rightarrow> string list \<Rightarrow> string \<Rightarrow> 'r dtree list" where
  "marked resolve ns failed t = map tree_of (fst (markup_refs resolve ns failed t))"

lemma mark_texts_pure:
  "mark_texts resolve ns up failed t = (put_texts (marked resolve ns failed) up t, failed)"
  "mark_children resolve ns up failed cs = (concat (map (put_texts (marked resolve ns failed) up) cs), failed)"
  by (induction resolve ns up failed t and resolve ns up failed cs rule: mark_texts_mark_children.induct)
    (simp_all add: marked_def case_prod_unfold failures_never_noted)

lemma mark_doc_pure:
  "mark_doc resolve ns up failed t = (put_paragraphs (marked resolve ns failed) up t, failed)"
  "mark_docs resolve ns up failed cs = (map (put_paragraphs (marked resolve ns failed) up) cs, failed)"
  by (induction resolve ns up failed t and resolve ns up failed cs rule: mark_doc_mark_docs.induct)
    (simp_all add: mark_texts_pure)

text \<open>
  C26. The traversal is a substitution: each text of a paragraph outside literals and references is
  replaced on its own, the list of failed lookups stays as it was, so that neither the order of the
  paragraphs nor the pages done before have an influence; everything else is left as it is.
\<close>

theorem auto_markup_is_substitution:
  "auto_markup resolve source failed doc = (put_paragraphs (marked resolve (get_c_namespace source) failed) [] doc, failed)"
  by (simp add: auto_markup_def mark_doc_pure)

end
