(* ===== verification/Rest_Format.thy ===== *)
theory Rest_Format
  imports Kdoc_Output
begin

text \<open>
  The reStructuredText output, \<^verbatim>\<open>RestFormat\<close> of \<^verbatim>\<open>kdoc_output.py\<close>: highlighting, sections, and one
  method per kind of item. The methods append to the collected text and move the line prefix.
\<close>

section \<open>State and highlighting\<close>

record rest = fmt +
  r_prefix :: string

definition rest_init :: rest where
  "rest_init = fmt.extend fmt_init \<lparr>r_prefix = []\<rparr>"

definition rest_highlights :: "(regex \<times> string) list" where
  "rest_highlights =
     [(type_constant, rx ''``~1``''),
      (type_constant2, rx ''``~1``''),
      (type_member_func, rx '':c:type:`~1~2~3~~(~~) <~1>`''),
      (type_member, rx '':c:type:`~1~2~3 <~1>`''),
      (type_fp_param, rx ''**~1~~(~~)**''),
      (type_fp_param2, rx ''**~1~~(~~)**''),
      (type_func, rx ''~1()''),
      (type_enum, rx '':c:type:`~1 <~2>`''),
      (type_struct, rx '':c:type:`~1 <~2>`''),
      (type_typedef, rx '':c:type:`~1 <~2>`''),
      (type_union, rx '':c:type:`~1 <~2>`''),
      (type_fallback, rx '':c:type:`~1`''),
      (type_param_ref, rx ''**~1~2**'')]"

definition sphinx_literal :: regex where "sphinx_literal = re ''^[^.].*::$''"
definition sphinx_cblock :: regex where "sphinx_cblock = re (rx ''^~.~.~ +code-block::'')"

text \<open>\<^verbatim>\<open>self.data += text\<close>, and \<^verbatim>\<open>self.lineprefix = prefix\<close>.\<close>

definition put :: "string \<Rightarrow> 'f fmt_scheme \<Rightarrow> 'f fmt_scheme" where
  "put text f = f\<lparr>f_data := f_data f @ text\<rparr>"

definition put_prefixed :: "string \<Rightarrow> rest \<Rightarrow> rest" where
  "put_prefixed text f = put (r_prefix f @ text) f"

definition prefix_to :: "string \<Rightarrow> rest \<Rightarrow> rest" where
  "prefix_to p f = f\<lparr>r_prefix := p\<rparr>"

definition print_lineno :: "int \<Rightarrow> rest \<Rightarrow> rest" where
  "print_lineno ln f = (if f_lineno f then put (''.. LINENO '' @ str_int (ln + 1) @ [NL]) f else f)"

definition RE_INDENT :: regex where "RE_INDENT = re (rx ''^(~s*)'')"

text \<open>
  The loop of \<^verbatim>\<open>output_highlight\<close>: the output so far, whether in a literal block, the pattern of its
  indentation, and the block of text not yet highlighted.
\<close>

record hl =
  hl_out :: string
  hl_lit :: bool
  hl_pre :: string
  hl_block :: string

definition hl_literal :: "string \<Rightarrow> hl \<Rightarrow> hl" where
  "hl_literal line h =
     (let pass = h\<lparr>hl_out := hl_out h @ line @ [NL]\<rparr> in
      if strip line = [] then pass
      else if hl_pre h = [] then
        pass\<lparr>hl_pre := (case re_match RE_INDENT line of Some m \<Rightarrow> ''^'' @ m_str m 1 | None \<Rightarrow> [])\<rparr>
      else if re_match (re (hl_pre h)) line = None then h\<lparr>hl_lit := False\<rparr>
      else pass)"

definition hl_text :: "string \<Rightarrow> hl \<Rightarrow> hl" where
  "hl_text line h =
     (let block = hl_block h @ line @ [NL] in
      if re_match sphinx_literal line \<noteq> None \<or> re_match sphinx_cblock line \<noteq> None
      then h\<lparr>hl_lit := True, hl_pre := [], hl_out := hl_out h @ highlight_block rest_highlights block, hl_block := []\<rparr>
      else h\<lparr>hl_block := block\<rparr>)"

definition hl_step :: "hl \<Rightarrow> string \<Rightarrow> hl" where
  "hl_step h line =
     (let h1 = (if hl_lit h then hl_literal line h else h) in
      if hl_lit h1 then h1 else hl_text line h1)"

definition hl_init :: hl where
  "hl_init = \<lparr>hl_out = [], hl_lit = False, hl_pre = [], hl_block = []\<rparr>"

definition rest_highlight :: "string \<Rightarrow> string" where
  "rest_highlight text =
     (let h = foldl hl_step hl_init (split_on NL (strip_char NL text)) in
      hl_out h @ (if hl_block h = [] then [] else highlight_block rest_highlights (hl_block h)))"

definition output_highlight :: "string \<Rightarrow> rest \<Rightarrow> rest" where
  "output_highlight text f =
     put (concat (map (\<lambda>line. r_prefix f @ line @ [NL]) (split_on NL (strip_char NL (rest_highlight text))))) f"

definition highlight_val :: "pyval \<Rightarrow> rest \<Rightarrow> rest res" where
  "highlight_val v f = rbind (val_str v) (\<lambda>s. Inr (output_highlight s f))"

section \<open>Sections\<close>

definition lines_get :: "(string, int) dict \<Rightarrow> string \<Rightarrow> int" where
  "lines_get d k = (case dict_get d k of Some n \<Rightarrow> n | None \<Rightarrow> 0)"

definition str_get :: "(string, string) dict \<Rightarrow> string \<Rightarrow> string" where
  "str_get d k = (case dict_get d k of Some s \<Rightarrow> s | None \<Rightarrow> [])"

text \<open>\<^verbatim>\<open>d[k]\<close>.\<close>

definition dict_at :: "(string, 'v) dict \<Rightarrow> string \<Rightarrow> 'v res" where
  "dict_at d k = (case dict_get d k of Some v \<Rightarrow> Inr v | None \<Rightarrow> Inl KeyError)"

definition out_section1 :: "kdoc_item \<Rightarrow> bool \<Rightarrow> rest \<Rightarrow> string \<times> string \<Rightarrow> rest" where
  "out_section1 args out_docblock f st = (case st of (section, text) \<Rightarrow>
     if section \<in> set (f_nosymbol f) then f
     else
       (let head = ''**'' @ section @ ''**'' @ [NL, NL];
            f1 = (if out_docblock then
                    (if f_mode f \<noteq> OUTPUT_INCLUDE then put_prefixed head (put (''.. _'' @ section @ '':'' @ [NL, NL]) f) else f)
                  else put_prefixed head f) in
        put [NL] (output_highlight text (print_lineno (lines_get (it_sections_lines args) section) f1))))"

definition out_section :: "kdoc_item \<Rightarrow> bool \<Rightarrow> rest \<Rightarrow> rest" where
  "out_section args out_docblock f = put [NL] (foldl (out_section1 args out_docblock) f (it_sections args))"

definition rest_out_doc :: "rest out_fun" where
  "rest_out_doc fname name args f = rbind (check_doc name args f) (\<lambda>(ok, f1).
     Inr (if ok then out_section args True f1 else f1))"

section \<open>Functions\<close>

text \<open>
  One parameter of the signature. The pattern of a function pointer has two groups, and the code
  asks for the third, which raises \<open>IndexError\<close>.
\<close>

definition sig_param :: "kdoc_item \<Rightarrow> string \<times> nat \<Rightarrow> string \<Rightarrow> (string \<times> nat) res" where
  "sig_param args sc parameter = (case sc of (signature, count) \<Rightarrow>
     (let sep = (if count \<noteq> 0 then signature @ '', '' else signature);
          dtype = str_get (it_parametertypes args) parameter in
      if re_search function_pointer dtype \<noteq> None then Inl IndexError
      else Inr (sep @ dtype, count + 1)))"

definition signature_of :: "string \<Rightarrow> kdoc_item \<Rightarrow> string res" where
  "signature_of name args =
     (let func_macro = truthy (item_get args ''func_macro'' (V_bool False));
          ftype = item_get args ''functiontype'' V_none;
          start = (if func_macro then name
                   else (if truthy ftype then val_text ftype @ '' '' else []) @ name @ '' ('') in
      rbind (fold_res (sig_param args) (start, 0) (it_parameterlist args)) (\<lambda>(signature, _).
        Inr (if func_macro then signature else signature @ '')'')))"

definition RE_ARRAY_TAIL :: regex where "RE_ARRAY_TAIL = re (rx ''~[.*'')"

definition rest_out_param :: "kdoc_item \<Rightarrow> rest \<Rightarrow> string \<Rightarrow> rest" where
  "rest_out_param args f parameter =
     (let parameter_name = re_sub RE_ARRAY_TAIL [] parameter;
          dtype = str_get (it_parametertypes args) parameter;
          f1 = put_prefixed (''``'' @ (if dtype \<noteq> [] then dtype else parameter) @ ''``'' @ [NL]) f;
          f2 = prefix_to ''    '' (print_lineno (lines_get (it_paramdesc_lines args) parameter_name) f1);
          f3 = (case dict_get (it_parameterdescs args) parameter_name of
                  Some d \<Rightarrow> if d \<noteq> undescribed then put [NL] (output_highlight d f2)
                            else put_prefixed (''*undescribed*'' @ [NL, NL]) f2
                | None \<Rightarrow> put_prefixed (''*undescribed*'' @ [NL, NL]) f2) in
      prefix_to ''  '' f3)"

text \<open>The head of a function: a macro, a function typedef or a plain function.\<close>

definition rest_function_head :: "string \<Rightarrow> kdoc_item \<Rightarrow> string \<Rightarrow> rest \<Rightarrow> rest res" where
  "rest_function_head name args signature f =
     (let typedef = truthy (item_get args ''typedef'' V_none);
          purpose = item_get args ''purpose'' (V_str []) in
      if typedef \<or> \<not> truthy (item_get args ''functiontype'' V_none) then
        (let f1 = put (''.. c:macro:: '' @ name @ [NL, NL]) f in
         if typedef then
           rbind (highlight_val purpose (prefix_to [] (put ''   **Typedef**: '' f1))) (\<lambda>f2.
           Inr (put (''  ``'' @ signature @ ''``'' @ [NL, NL]) (put ([NL, NL] @ ''**Syntax**'' @ [NL, NL]) f2)))
         else Inr (put (''``'' @ signature @ ''``'' @ [NL, NL]) f1))
      else Inr (put (''.. c:function:: '' @ signature @ [NL, NL]) f))"

definition rest_out_function :: "rest out_fun" where
  "rest_out_function fname name args f =
     (let oldprefix = r_prefix f; ln = it_start_line args in
      rbind (signature_of name args) (\<lambda>signature.
      rbind (rest_function_head name args signature (print_lineno ln f)) (\<lambda>f1.
      rbind (if truthy (item_get args ''typedef'' V_none) then Inr f1
             else rbind (highlight_val (item_get args ''purpose'' (V_str [])) (prefix_to ''   '' (print_lineno ln f1)))
               (\<lambda>f2. Inr (put [NL] f2))) (\<lambda>f3.
      let f4 = prefix_to ''  '' f3;
          f5 = (if it_parameterlist args \<noteq> [] then
                  put_prefixed (''**Parameters**'' @ [NL, NL]) (put (''.. container:: kernelindent'' @ [NL, NL]) f4) else f4);
          f6 = foldl (rest_out_param args) f5 (it_parameterlist args) in
      Inr (prefix_to oldprefix (out_section args False f6))))))"

section \<open>Enumerations, variables, typedefs\<close>

definition rest_out_constant :: "kdoc_item \<Rightarrow> string \<Rightarrow> rest \<Rightarrow> string \<Rightarrow> rest res" where
  "rest_out_constant args outer f parameter =
     (let f1 = put (outer @ ''``'' @ parameter @ ''``'' @ [NL]) f in
      rbind (if str_get (it_parameterdescs args) parameter \<noteq> undescribed then
               rbind (dict_at (it_parameterdescs args) parameter) (\<lambda>d. Inr (output_highlight d f1))
             else Inr (put_prefixed (''*undescribed*'' @ [NL, NL]) f1)) (\<lambda>f2.
      Inr (put [NL] f2)))"

definition rest_out_enum :: "rest out_fun" where
  "rest_out_enum fname name args f =
     (let oldprefix = r_prefix f;
          f1 = prefix_to ''  '' (print_lineno (it_start_line args) (put ([NL, NL] @ ''.. c:enum:: '' @ name @ [NL, NL]) f)) in
      rbind (highlight_val (item_get args ''purpose'' (V_str [])) f1) (\<lambda>f2.
      let outer = r_prefix f2 @ ''  '';
          f3 = put (outer @ ''**Constants**'' @ [NL, NL])
                 (prefix_to (outer @ ''  '') (put (''.. container:: kernelindent'' @ [NL, NL]) (put [NL] f2))) in
      rbind (fold_res (rest_out_constant args outer) f3 (it_parameterlist args)) (\<lambda>f4.
      Inr (out_section args False (prefix_to oldprefix f4)))))"

text \<open>A variable leaves the line prefix at two blanks.\<close>

definition rest_out_var :: "rest out_fun" where
  "rest_out_var fname name args f =
     (let full_proto = item_get args ''full_proto'' V_none in
      if \<not> truthy full_proto then Inl KeyError
      else
        (let f1 = prefix_to ''  '' f;
             f2 = put ([NL, NL] @ ''.. c:macro:: '' @ name @ [NL, NL] @ r_prefix f1 @ ''``'' @ val_text full_proto @ ''``'' @ [NL, NL]) f1 in
         rbind (highlight_val (item_get args ''purpose'' (V_str [])) (print_lineno (it_start_line args) f2)) (\<lambda>f3.
         rbind (dict_at (it_other args) ''default_val'') (\<lambda>v.
         let f4 = put [NL] f3;
             f5 = (if truthy v then
                     output_highlight (''default: ``'' @ val_text v @ ''``'') (put_prefixed (''**Initialization**'' @ [NL, NL]) f4)
                   else f4) in
         Inr (out_section args False f5)))))"

definition rest_out_typedef :: "rest out_fun" where
  "rest_out_typedef fname name args f =
     (let oldprefix = r_prefix f;
          f1 = prefix_to ''   '' (print_lineno (it_start_line args) (put ([NL, NL] @ ''.. c:type:: '' @ name @ [NL, NL]) f)) in
      rbind (highlight_val (item_get args ''purpose'' (V_str [])) f1) (\<lambda>f2.
      Inr (out_section args False (prefix_to oldprefix (put [NL] f2)))))"

section \<open>Structures\<close>

definition rest_out_member :: "kdoc_item \<Rightarrow> rest \<Rightarrow> string \<Rightarrow> rest res" where
  "rest_out_member args f parameter =
     (if parameter = [] \<or> startswith parameter ''#'' then Inr f
      else
        (let parameter_name = takeWhile (\<lambda>c. c \<noteq> CHR ''['') parameter in
         if dict_get (it_parameterdescs args) parameter_name = Some undescribed then Inr f
         else
           (let f1 = put_prefixed (''``'' @ parameter @ ''``'' @ [NL])
                       (print_lineno (lines_get (it_paramdesc_lines args) parameter_name) f) in
            rbind (dict_at (it_parameterdescs args) parameter_name) (\<lambda>d.
            Inr (put [NL] (prefix_to ''  '' (output_highlight d (prefix_to ''    '' f1))))))))"

definition rest_out_struct :: "rest out_fun" where
  "rest_out_struct fname name args f =
     (let dtype = it_type args;
          oldprefix = r_prefix f;
          f1 = prefix_to (r_prefix f @ ''  '')
                 (print_lineno (it_start_line args) (put ([NL, NL] @ ''.. c:'' @ dtype @ '':: '' @ name @ [NL, NL]) f)) in
      rbind (highlight_val (item_get args ''purpose'' (V_str [])) f1) (\<lambda>f2.
      rbind (val_str (item_get args ''definition'' (V_str []))) (\<lambda>definition0.
      let f3 = put_prefixed (''**Definition**::'' @ [NL, NL]) (put (''.. container:: kernelindent'' @ [NL, NL]) (put [NL] f2));
          f4 = prefix_to (r_prefix f3 @ ''  '') f3;
          declaration = replace definition0 [TAB] (r_prefix f4);
          f5 = put (declaration @ r_prefix f4 @ ''};'' @ [NL, NL]) (put_prefixed (dtype @ '' '' @ name @ '' {'' @ [NL]) f4);
          f6 = put_prefixed (''**Members**'' @ [NL, NL]) (prefix_to ''  '' f5) in
      rbind (fold_res (rest_out_member args) f6 (it_parameterlist args)) (\<lambda>f7.
      Inr (out_section args False (prefix_to oldprefix (put [NL] f7)))))))"

definition rest_methods :: "rest methods" where
  "rest_methods = \<lparr>m_doc = rest_out_doc, m_function = rest_out_function, m_enum = rest_out_enum,
     m_var = rest_out_var, m_typedef = rest_out_typedef, m_struct = rest_out_struct\<rparr>"

definition rest_msg :: "string \<Rightarrow> string \<Rightarrow> kdoc_item \<Rightarrow> rest \<Rightarrow> (string option \<times> rest) res" where
  "rest_msg = msg rest_methods"

definition rest_symbols :: "string \<Rightarrow> kdoc_item list \<Rightarrow> rest \<Rightarrow> (string \<times> rest) res" where
  "rest_symbols = output_symbols rest_msg"

end
