(* ===== verification/Rest_Props.thy ===== *)
theory Rest_Props
  imports Rest_Format
begin

text \<open>
  Properties of the reStructuredText output: which exceptions printing an item can raise, what
  printing does to the line prefix, and that literal blocks pass through unchanged.
\<close>

section \<open>The line prefix\<close>

lemma prefix_frame [simp]:
  "r_prefix (put t f) = r_prefix f" "r_prefix (put_prefixed t f) = r_prefix f" "r_prefix (print_lineno ln f) = r_prefix f"
  "r_prefix (output_highlight t f) = r_prefix f" "r_prefix (prefix_to p f) = p" "r_prefix (out_warnings args f) = r_prefix f"
  by (simp_all add: put_def put_prefixed_def print_lineno_def output_highlight_def prefix_to_def out_warnings_def)

lemma prefix_section [simp]: "r_prefix (out_section args b f) = r_prefix f"
proof -
  have "r_prefix (out_section1 args b f st) = r_prefix f" for f st
    by (cases st) (simp add: out_section1_def Let_def)
  then have "r_prefix (foldl (out_section1 args b) f sts) = r_prefix f" for sts f
    by (induction sts arbitrary: f) simp_all
  then show ?thesis by (simp add: out_section_def)
qed

lemma prefix_params: "r_prefix f = ''  '' \<Longrightarrow> r_prefix (foldl (rest_out_param args) f ps) = ''  ''"
  by (induction ps arbitrary: f) (simp_all add: rest_out_param_def Let_def)

lemma highlight_val_str [simp]: "highlight_val (V_str s) f = Inr (output_highlight s f)"
  by (simp add: highlight_val_def val_str_def)

section \<open>Printable items\<close>

lemma purpose_str: "extras_ok ty (it_other it) \<Longrightarrow> ty \<noteq> ''doc'' \<Longrightarrow> \<exists>t. item_get it ''purpose'' d = V_str t"
  by (auto simp: extras_ok_def item_get_def)

lemma sig_param_safe: "safe {IndexError} (\<lambda>_. True) (sig_param args sc p)"
  by (cases sc) (simp add: sig_param_def Let_def)

lemma signature_safe: "safe {IndexError} (\<lambda>_. True) (signature_of name args)"
  unfolding signature_of_def Let_def
  by (rule safe_rbind [OF safe_fold_res [of "\<lambda>_. True"]]) (auto simp: sig_param_safe)

lemma function_head_safe:
  "item_get args ''purpose'' (V_str []) = V_str t \<Longrightarrow>
   safe {} (\<lambda>f'. True) (rest_function_head name args signature f)"
  by (simp add: rest_function_head_def Let_def)

lemma out_function_safe:
  assumes "item_get args ''purpose'' (V_str []) = V_str t"
  shows "safe {IndexError} (\<lambda>f'. r_prefix f' = r_prefix f) (rest_out_function fname name args f)"
  unfolding rest_out_function_def Let_def
  by (rule safe_rbind [OF signature_safe], rule safe_rbind [OF safe_weaken [OF function_head_safe [OF assms]]],
      rule safe_rbind [of _ "\<lambda>_. True"]) (simp_all add: assms)

lemma out_constant_safe:
  "dict_has (it_parameterdescs args) p \<Longrightarrow> safe {} (\<lambda>f'. r_prefix f' = r_prefix f) (rest_out_constant args outer f p)"
  by (auto simp: rest_out_constant_def Let_def dict_at_def dict_has_def)

lemma out_enum_safe:
  assumes "item_get args ''purpose'' (V_str []) = V_str t" and "\<forall>p \<in> set (it_parameterlist args). dict_has (it_parameterdescs args) p"
  shows "safe {} (\<lambda>f'. r_prefix f' = r_prefix f) (rest_out_enum fname name args f)"
proof -
  have "safe {} (\<lambda>_. True) (fold_res (rest_out_constant args outer) f3 (it_parameterlist args))" for outer f3
    by (rule safe_fold_res) (use assms(2) safe_mono [OF out_constant_safe] in auto)
  then show ?thesis unfolding rest_out_enum_def Let_def assms(1) highlight_val_str rbind_simps
    by (rule safe_rbind) simp
qed

lemma out_var_safe:
  assumes "extras_ok ''var'' (it_other args)"
  shows "safe {} (\<lambda>f'. r_prefix f' = ''  '') (rest_out_var fname name args f)"
proof -
  from assms obtain t p v where "item_get args ''purpose'' (V_str []) = V_str t"
      and "item_get args ''full_proto'' V_none = V_str p" "p \<noteq> []" and "dict_at (it_other args) ''default_val'' = Inr v"
    by (auto simp: extras_ok_def item_get_def dict_at_def dict_has_def)
  then show ?thesis by (simp add: rest_out_var_def Let_def truthy_def)
qed

lemma out_typedef_safe:
  "item_get args ''purpose'' (V_str []) = V_str t \<Longrightarrow>
   safe {} (\<lambda>f'. r_prefix f' = r_prefix f) (rest_out_typedef fname name args f)"
  by (simp add: rest_out_typedef_def Let_def)

lemma out_member_safe: "safe {KeyError} (\<lambda>_. True) (rest_out_member args f p)"
  by (auto simp: rest_out_member_def Let_def dict_at_def split: option.splits)

lemma out_struct_safe:
  assumes "item_get args ''purpose'' (V_str []) = V_str t" and "item_get args ''definition'' (V_str []) = V_str d"
  shows "safe {KeyError} (\<lambda>f'. r_prefix f' = r_prefix f) (rest_out_struct fname name args f)"
proof -
  have "safe {KeyError} (\<lambda>_. True) (fold_res (rest_out_member args) f6 (it_parameterlist args))" for f6
    by (rule safe_fold_res) (simp_all add: out_member_safe)
  then show ?thesis unfolding rest_out_struct_def Let_def assms highlight_val_str rbind_simps val_str_def pyval.case
    by (rule safe_rbind) simp
qed

section \<open>Dispatch\<close>

text \<open>The exceptions printing an item can raise, and where it leaves the line prefix.\<close>

definition print_errs :: "kdoc_item \<Rightarrow> py_err set" where
  "print_errs it = (if it_type it = ''function'' then {IndexError}
     else if it_type it = ''struct'' \<or> it_type it = ''union'' then {KeyError} else {})"

lemma check_declaration_prefix:
  fixes f :: rest
  shows "f_table f = Some t \<Longrightarrow> safe {} (\<lambda>(b, f'). r_prefix f' = r_prefix f) (check_declaration ty name args f)"
  by (auto simp: check_declaration_def in_table_def)

lemma rest_doc_safe:
  fixes f :: rest
  shows "f_table f = Some t \<Longrightarrow> safe {} (\<lambda>f'. r_prefix f' = r_prefix f) (rest_out_doc fname name args f)"
  by (auto simp: rest_out_doc_def check_doc_def in_table_def)

lemma rest_out_safe:
  assumes "kitem_ok it" and "out_fun_of rest_methods (it_type it) = Some out"
  shows "safe (print_errs it) (\<lambda>f'. r_prefix f' = (if it_type it = ''var'' then ''  '' else r_prefix f)) (out fname name it f)"
proof -
  have ex: "extras_ok (it_type it) (it_other it)" using assms(1) by (simp add: kitem_ok_def)
  have "it_type it \<noteq> ''doc''" using assms(2) by (auto simp: out_fun_of_def split: if_splits)
  from purpose_str [OF ex this] obtain t where t: "item_get it ''purpose'' (V_str []) = V_str t" by blast
  consider "it_type it = ''function''" | "it_type it = ''enum''" | "it_type it = ''var''" | "it_type it = ''typedef''"
    | "it_type it = ''struct'' \<or> it_type it = ''union''"
    using assms(2) by (auto simp: out_fun_of_def split: if_splits)
  then show ?thesis
  proof cases
    case 1
    then show ?thesis using assms(2) out_function_safe [OF t] by (simp add: out_fun_of_def rest_methods_def print_errs_def)
  next
    case 2
    then have "\<forall>p \<in> set (it_parameterlist it). dict_has (it_parameterdescs it) p" using assms(1) by (simp add: kitem_ok_def)
    from out_enum_safe [OF t this] show ?thesis using 2 assms(2) by (simp add: out_fun_of_def rest_methods_def print_errs_def)
  next
    case 3
    then show ?thesis using assms(2) out_var_safe [of it] ex by (simp add: out_fun_of_def rest_methods_def print_errs_def)
  next
    case 4
    then show ?thesis using assms(2) out_typedef_safe [OF t] by (simp add: out_fun_of_def rest_methods_def print_errs_def)
  next
    case 5
    then obtain d where "item_get it ''definition'' (V_str []) = V_str d" using ex by (auto simp: extras_ok_def item_get_def)
    from out_struct_safe [OF t this] show ?thesis using 5 assms(2)
      by (auto simp: out_fun_of_def rest_methods_def print_errs_def)
  qed
qed

lemma kitem_method: "kitem_ok it \<Longrightarrow> it_type it \<noteq> ''doc'' \<Longrightarrow> \<exists>out. out_fun_of rest_methods (it_type it) = Some out"
  by (auto simp: kitem_ok_def decl_types_def out_fun_of_def)

lemma rest_msg_outcome:
  assumes it: "kitem_ok it" and t: "f_table f = Some t"
  shows "safe (print_errs it) (\<lambda>(m, f'). m \<noteq> None \<and> r_prefix f' \<in> {r_prefix f, if it_type it = ''var'' then ''  '' else r_prefix f})
    (rest_msg fname name it f)"
proof (cases "it_type it = ''doc''")
  case True
  from rest_doc_safe [of "f\<lparr>f_data := []\<rparr>" t fname name it] t obtain f1
    where "rest_out_doc fname name it (f\<lparr>f_data := []\<rparr>) = Inr f1" "r_prefix f1 = r_prefix f"
    by (auto simp: safe_False_iff)
  then show ?thesis using True by (simp add: rest_msg_def msg_def Let_def rest_methods_def)
next
  case False
  from kitem_method [OF it False] obtain out where out: "out_fun_of rest_methods (it_type it) = Some out" by blast
  from check_declaration_prefix [of "f\<lparr>f_data := []\<rparr>" t "it_type it" name it] t obtain b f1
    where c: "check_declaration (it_type it) name it (f\<lparr>f_data := []\<rparr>) = Inr (b, f1)" "r_prefix f1 = r_prefix f"
    by (auto simp: safe_False_iff)
  have "safe (print_errs it) (\<lambda>(m, f'). m \<noteq> None \<and> r_prefix f' \<in> {r_prefix f, if it_type it = ''var'' then ''  '' else r_prefix f})
      (rbind (out fname name it f1) (\<lambda>f2. Inr (Some (f_data f2), f2)))"
    using rest_out_safe [OF it out, of f1 fname name] by (rule safe_rbind) (auto simp: c(2))
  then show ?thesis using False c by (simp add: rest_msg_def msg_def Let_def out)
qed

text \<open>
  C9. Printing a well-formed item as reStructuredText, once the filter is set: it gives a text and,
  but for variables, the line prefix it started with; a function may raise \<open>IndexError\<close>, a structure
  or union \<open>KeyError\<close>, the other kinds raise nothing.
\<close>

theorem rest_msg_safe:
  assumes "kitem_ok it" and "f_table f = Some t"
  shows "case rest_msg fname name it f of
     Inl e \<Rightarrow> (it_type it = ''function'' \<and> e = IndexError) \<or> ((it_type it = ''struct'' \<or> it_type it = ''union'') \<and> e = KeyError)
   | Inr (m, f') \<Rightarrow> m \<noteq> None \<and> (r_prefix f' = r_prefix f \<or> it_type it = ''var'')"
  using rest_msg_outcome [OF assms, of fname name]
  by (cases "rest_msg fname name it f") (auto simp: print_errs_def split: if_splits)

text \<open>Items to print.\<close>

definition sample_item :: "string \<Rightarrow> string list \<Rightarrow> (string, string) dict \<Rightarrow> (string \<times> pyval) list \<Rightarrow> kdoc_item" where
  "sample_item ty params types args =
     set_params (set_sections (kdoc_item_init ''x'' ''f.h'' ty 3 args) [] []) params (map (\<lambda>p. (p, ''text'')) params) types []"

definition filtered :: rest where
  "filtered = set_filter False False [] [] [] False False rest_init"

theorem rest_msg_safe_witness:
  "case rest_msg ''f.h'' ''x'' (sample_item ''enum'' [''A'', ''B''] [] [(''purpose'', V_str ''p'')]) filtered of
     Inl e \<Rightarrow> False | Inr (m, f') \<Rightarrow> m \<noteq> None \<and> r_prefix f' = []"
proof -
  let ?it = "sample_item ''enum'' [''A'', ''B''] [] [(''purpose'', V_str ''p'')]"
  have ty: "it_type ?it = ''enum''" by (simp add: sample_item_def set_params_def set_sections_def)
  have ok: "kitem_ok ?it"
    by (simp add: kitem_ok_def ty) (simp add: sample_item_def set_params_def set_sections_def decl_types_def other_of_simps blank_section_def)
  have "f_table filtered = Some []" "r_prefix filtered = []"
    by (simp_all add: filtered_def set_filter_def rest_init_def fmt.defs fmt_init_def)
  with rest_msg_safe [OF ok, of filtered "[]" "''f.h''" "''x''"] ty show ?thesis by (auto split: sum.splits)
qed

section \<open>Signatures\<close>

lemma sig_fold:
  "fold_res (sig_param args) sc ps = Inl e \<longleftrightarrow>
   e = IndexError \<and> (\<exists>p \<in> set ps. re_search function_pointer (str_get (it_parametertypes args) p) \<noteq> None)"
proof (induction ps arbitrary: sc)
  case Nil
  show ?case by simp
next
  case (Cons p ps)
  then show ?case by (cases sc) (auto simp: sig_param_def Let_def rbind_Inl_iff)
qed

text \<open>
  The signature of a function cannot be printed exactly when a parameter's type is a function
  pointer without a name: then, and only then, \<open>IndexError\<close> is raised.
\<close>

theorem signature_raises_iff:
  "(\<exists>e. signature_of name args = Inl e) \<longleftrightarrow>
   (\<exists>p \<in> set (it_parameterlist args). re_search function_pointer (str_get (it_parametertypes args) p) \<noteq> None)"
proof -
  have "(\<exists>e. signature_of name args = Inl e) \<longleftrightarrow>
      (\<exists>e sc. fold_res (sig_param args) (if truthy (item_get args ''func_macro'' (V_bool False)) then name
        else (if truthy (item_get args ''functiontype'' V_none) then val_text (item_get args ''functiontype'' V_none) @ '' '' else []) @
          name @ '' ('', 0) (it_parameterlist args) = Inl e)"
    by (auto simp: signature_of_def Let_def rbind_Inl_iff)
  then show ?thesis by (simp add: sig_fold)
qed

text \<open>
  A documented function with an unnamed function-pointer parameter parses, and printing its item
  raises \<open>IndexError\<close>.
\<close>

theorem unnamed_pointer_raises:
  "(case parse_kdoc (kdoc_init \<lparr>cf_wreturn = False, cf_wshort_desc = False, cf_verbose = False\<rparr> ''f.h'' False)
       (Some [''/**'' @ [NL], '' * f() - g'' @ [NL], '' */'' @ [NL], ''int f(int (*)(void));'' @ [NL]]) of
     Inl e \<Rightarrow> False
   | Inr (exports, k) \<Rightarrow> map it_name (k_entries k) = [''f''] \<and> rest_symbols ''f.h'' (k_entries k) filtered = Inl IndexError)"
  by code_simp

section \<open>Literal blocks\<close>

text \<open>A line a literal block keeps: blank, or with the indentation of the block.\<close>

definition lit_line :: "string \<Rightarrow> string \<Rightarrow> bool" where
  "lit_line pre line \<longleftrightarrow> strip line = [] \<or> re_match (re pre) line \<noteq> None"

lemma hl_step_literal:
  "hl_lit h \<Longrightarrow> hl_pre h \<noteq> [] \<Longrightarrow> lit_line (hl_pre h) line \<Longrightarrow> hl_step h line = h\<lparr>hl_out := hl_out h @ line @ [NL]\<rparr>"
  by (auto simp: hl_step_def hl_literal_def lit_line_def Let_def)

text \<open>
  Literal blocks pass through: inside one, every line that is blank or has the block's
  indentation is output as it is, with no highlighting, and the block goes on.
\<close>

theorem literal_untouched:
  assumes "hl_lit h" and "hl_pre h \<noteq> []" and "list_all (lit_line (hl_pre h)) lines"
  shows "foldl hl_step h lines = h\<lparr>hl_out := hl_out h @ concat (map (\<lambda>line. line @ [NL]) lines)\<rparr>"
  using assms
proof (induction lines arbitrary: h)
  case Nil
  then show ?case by simp
next
  case (Cons line lines)
  then show ?case using hl_step_literal [of h line] by simp
qed

theorem literal_untouched_witness:
  "hl_out (foldl hl_step \<lparr>hl_out = [], hl_lit = True, hl_pre = ''^  '', hl_block = []\<rparr> [''  @a &b'', [], ''   %c()'']) =
   ''  @a &b'' @ [NL, NL] @ ''   %c()'' @ [NL]"
proof -
  let ?h = "\<lparr>hl_out = [], hl_lit = True, hl_pre = ''^  '', hl_block = []\<rparr>"
  have lines: "list_all (lit_line ''^  '') [''  @a &b'', [], ''   %c()'']" by code_simp
  have "foldl hl_step ?h [''  @a &b'', [], ''   %c()''] =
      ?h\<lparr>hl_out := hl_out ?h @ concat (map (\<lambda>line. line @ [NL]) [''  @a &b'', [], ''   %c()''])\<rparr>"
    by (rule literal_untouched) (use lines in simp_all)
  then show ?thesis by (simp only:) simp
qed

text \<open>
  Printing a variable leaves the line prefix at two blanks, so that an item printed after it is
  indented: the prefix is saved and never restored.
\<close>

theorem var_keeps_indent:
  "kitem_ok it \<Longrightarrow> it_type it = ''var'' \<Longrightarrow>
   (case rest_out_var fname name it f of Inl e \<Rightarrow> False | Inr f' \<Rightarrow> r_prefix f' = ''  '')"
  using out_var_safe [of it fname name f] by (auto simp: kitem_ok_def split: sum.splits)

theorem var_keeps_indent_witness:
  "case rest_out_var ''f.h'' ''x''
      (sample_item ''var'' [] [] [(''purpose'', V_str ''p''), (''full_proto'', V_str ''int x;''), (''default_val'', V_none)]) filtered of
     Inl e \<Rightarrow> False | Inr f' \<Rightarrow> r_prefix f' = ''  ''"
proof (rule var_keeps_indent)
  show "kitem_ok (sample_item ''var'' [] [] [(''purpose'', V_str ''p''), (''full_proto'', V_str ''int x;''), (''default_val'', V_none)])"
    by (simp add: kitem_ok_def) (simp add: sample_item_def set_params_def set_sections_def decl_types_def other_of_simps blank_section_def)
qed (simp add: sample_item_def set_params_def set_sections_def)

end
