(* ===== verification/Man_Format.thy ===== *)
theory Man_Format
  imports Rest_Format
begin

text \<open>
  The troff output, \<^verbatim>\<open>ManFormat\<close> of \<^verbatim>\<open>kdoc_output.py\<close>: title and tail of a page, tables and code blocks
  inside a text, and one method per kind of item. The date of the pages, which comes from the
  environment or the clock, is an argument.
\<close>

section \<open>State, titles and tails\<close>

record man = fmt +
  mn_modulename :: "string option"
  mn_section :: string
  mn_manual :: string
  mn_symbols :: "kdoc_item list"
  mn_date :: string

definition man_init :: "string option \<Rightarrow> string \<Rightarrow> string \<Rightarrow> string \<Rightarrow> man" where
  "man_init modulename section manual date = fmt.extend fmt_init
     \<lparr>mn_modulename = modulename, mn_section = section, mn_manual = manual, mn_symbols = [], mn_date = date\<rparr>"

definition man_highlights :: "(regex \<times> string) list" where
  "man_highlights =
     [(type_constant, rx ''~1''),
      (type_constant2, rx ''~1''),
      (type_func, rx ''~~fB~1~~fP''),
      (type_enum, rx ''~~fI~1~~fP''),
      (type_struct, rx ''~~fI~1~~fP''),
      (type_typedef, rx ''~~fI~1~~fP''),
      (type_union, rx ''~~fI~1~~fP''),
      (type_param, rx ''~~fI~1~~fP''),
      (type_param_ref, rx ''~~fI~1~2~~fP''),
      (type_member, rx ''~~fI~1~2~3~~fP''),
      (type_fallback, rx ''~~fI~1~~fP'')]"

definition upper_str :: "string \<Rightarrow> string" where
  "upper_str s = map to_upper s"

text \<open>\<^verbatim>\<open>os.path.dirname\<close>.\<close>

definition dirname :: "string \<Rightarrow> string" where
  "dirname p =
     (let head = rev (dropWhile (\<lambda>c. c \<noteq> CHR ''/'') (rev p)) in
      if list_all (\<lambda>c. c = CHR ''/'') head then head else rstrip_by (\<lambda>c. c = CHR ''/'') head)"

definition modulename :: "kdoc_item \<Rightarrow> man \<Rightarrow> string" where
  "modulename args f = (case mn_modulename f of
      Some m \<Rightarrow> if m \<noteq> [] then m else dirname (it_fname args)
    | None \<Rightarrow> dirname (it_fname args))"

definition emit_th :: "string \<Rightarrow> kdoc_item \<Rightarrow> man \<Rightarrow> man" where
  "emit_th name args f =
     put (''.TH \"'' @ strip name @ ''\" '' @ mn_section f @ '' \"'' @ mn_date f @ ''\" \"'' @ modulename args f @ ''\" \"'' @
       mn_manual f @ ''\"'' @ [NL]) f"

definition arg_name :: "kdoc_item \<Rightarrow> string \<Rightarrow> string" where
  "arg_name args name =
     (if it_type args \<in> {''doc'', ''function'', ''typedef''} then name else it_type args @ '' '' @ name)"

definition set_symbols :: "kdoc_item list \<Rightarrow> man \<Rightarrow> man" where
  "set_symbols symbols f = f\<lparr>mn_symbols := symbols\<rparr>"

definition related_pages :: "string \<Rightarrow> kdoc_item list \<Rightarrow> string list" where
  "related_pages cur_name symbols =
     map (\<lambda>n. rx ''~fB'' @ n @ rx ''~fR(9)'') (filter (\<lambda>n. n \<noteq> cur_name) (map (\<lambda>arg. arg_name arg (it_name arg)) symbols))"

definition out_tail :: "string \<Rightarrow> string \<Rightarrow> kdoc_item \<Rightarrow> man \<Rightarrow> man" where
  "out_tail fname name args f =
     (let f1 = put (rx ''Kernel file ~fB'' @ it_fname args @ rx ''~fR'' @ [NL]) (put (''.SH \"SEE ALSO\"'' @ [NL] @ ''.PP'' @ [NL]) f) in
      if 2 \<le> length (mn_symbols f) then
        put (join ('','' @ [NL]) (related_pages (arg_name args name) (mn_symbols f)) @ [NL]) f1
      else f1)"

section \<open>Tables\<close>

definition emit_table :: "string list option \<Rightarrow> string list list \<Rightarrow> string" where
  "emit_table colspec_row rows = (case rows of
      [] \<Rightarrow> []
    | r # _ \<Rightarrow>
      [NL] @ ''.TS'' @ [NL] @ ''box;'' @ [NL] @ join [TAB] (replicate (length r) ''l'') @ ''.'' @ [NL] @
      (case colspec_row of
         Some (c # cs) \<Rightarrow> join [TAB] (map (\<lambda>t. rx ''~fB'' @ t @ rx ''~fP'') (c # cs)) @ [NL] @ ''_'' @ [NL]
       | _ \<Rightarrow> []) @
      concat (map (\<lambda>r. join [TAB] r @ [NL]) rows) @ ''.TE'' @ [NL])"

text \<open>
  A rule below the first rows makes them the header: cell by cell, the rows are joined. A row or an
  earlier header with fewer cells than the first row raises \<open>IndexError\<close>.
\<close>

definition header_row :: "string list option \<Rightarrow> string list list \<Rightarrow> (string list option \<times> string list list) res" where
  "header_row colspec_row rows = (case rows of
      (c # cs) # _ \<Rightarrow>
        (let n = length (c # cs);
             old = (case colspec_row of Some (x # xs) \<Rightarrow> x # xs | _ \<Rightarrow> replicate n []) in
         if list_ex (\<lambda>r. length r < n) rows \<or> length old < n then Inl IndexError
         else Inr (Some (map (\<lambda>j. join '' '' (map (\<lambda>r. r ! j) rows)) [0..<n] @ drop n old), []))
    | _ \<Rightarrow> Inr (colspec_row, rows))"

definition RE_GRID_ROW :: regex where "RE_GRID_ROW = re (rx ''^~s*~|.*~|~s*$'')"
definition RE_GRID_HEAD :: regex where "RE_GRID_HEAD = re (rx ''^~+~=[~+~=]+~+~s*$'')"
definition RE_GRID_RULE :: regex where "RE_GRID_RULE = re (rx ''^~s*~+[-+]+~+.*$'')"

fun grid_rows :: "nat \<Rightarrow> string list option \<Rightarrow> string list list \<Rightarrow> string list \<Rightarrow> (nat \<times> string list option \<times> string list list) res" where
  "grid_rows i colspec_row rows [] = Inr (i, colspec_row, rows)"
| "grid_rows i colspec_row rows (line # ls) =
     (if re_match RE_GRID_ROW line \<noteq> None then
        grid_rows (i + 1) colspec_row (rows @ [map strip (split_on (CHR ''|'') (strip_char (CHR ''|'') line))]) ls
      else if re_match RE_GRID_HEAD line \<noteq> None then
        rbind (header_row colspec_row rows) (\<lambda>(c, r). grid_rows (i + 1) c r ls)
      else if re_match RE_GRID_RULE line \<noteq> None then grid_rows (i + 1) colspec_row rows ls
      else Inr (i, colspec_row, rows))"

definition grid_table :: "string list \<Rightarrow> nat \<Rightarrow> (nat \<times> string) res" where
  "grid_table lines start = rbind (grid_rows (start + 1) None [] (drop (start + 1) lines)) (\<lambda>(i, colspec_row, rows).
     Inr (i, emit_table colspec_row rows))"

definition RE_EQUALS :: regex where "RE_EQUALS = re (rx ''~=+'')"
definition RE_SIMPLE_END :: regex where "RE_SIMPLE_END = re (rx ''^~s*[~=]+[ ~t~=]+$'')"
definition RE_SIMPLE_HEAD :: regex where "RE_SIMPLE_HEAD = re (rx ''^[~s=]+$'')"

text \<open>The columns of a simple table end one character before the rule does.\<close>

definition column_spans :: "string \<Rightarrow> (nat \<times> nat) list" where
  "column_spans line = map (\<lambda>m. (m_start m, m_start m + length (m_text m) - 1)) (re_finditer RE_EQUALS line)"

definition simple_row :: "(nat \<times> nat) list \<Rightarrow> string \<Rightarrow> string list" where
  "simple_row pos line = map (\<lambda>(start, stop). strip (drop start (take stop line))) pos"

fun simple_rows :: "(nat \<times> nat) list \<Rightarrow> nat \<Rightarrow> string list option \<Rightarrow> string list list \<Rightarrow> string list \<Rightarrow>
    (nat \<times> string list option \<times> string list list) res" where
  "simple_rows pos i colspec_row rows [] = Inr (i, colspec_row, rows)"
| "simple_rows pos i colspec_row rows (line # ls) =
     (if re_match RE_SIMPLE_END line \<noteq> None then Inr (i + 1, colspec_row, rows)
      else if re_match RE_SIMPLE_HEAD line \<noteq> None then
        rbind (header_row colspec_row rows) (\<lambda>(c, r). simple_rows pos (i + 1) c r ls)
      else simple_rows pos (i + 1) colspec_row (rows @ [simple_row pos line]) ls)"

definition simple_table :: "string list \<Rightarrow> nat \<Rightarrow> (nat \<times> string) res" where
  "simple_table lines start =
     rbind (simple_rows (column_spans (lines ! start)) (start + 1) None [] (drop (start + 1) lines)) (\<lambda>(i, colspec_row, rows).
       Inr (i, emit_table colspec_row rows))"

section \<open>Code blocks\<close>

definition RE_NONSPACE :: regex where "RE_NONSPACE = re (rx ''~S'')"

definition code_head :: "string \<Rightarrow> string" where
  "code_head line =
     (let nf = [NL] @ ''.nf'' @ [NL] in
      if contains line ''code-block'' then nf
      else if startswith line ''..'' \<and> endswith line ''::'' then
        nf @ rx ''~fB'' @ upper_str (strip (drop 2 (butlast line))) @ rx ''~fP'' @ [NL]
      else if endswith line ''::'' then butlast line @ nf
      else nf)"

text \<open>
  The lines of the block. \<^verbatim>\<open>match\<close> looks for a character that is not a space at the start of a line
  only, so the indentation found is always zero.
\<close>

fun code_lines :: "nat \<Rightarrow> nat \<Rightarrow> nat option \<Rightarrow> string \<Rightarrow> string list \<Rightarrow> nat \<times> string" where
  "code_lines start i ident out [] = (i, out @ [NL] @ ''.fi'' @ [NL])"
| "code_lines start i ident out (line # ls) = (case re_match RE_NONSPACE line of
      None \<Rightarrow> code_lines start (i + 1) ident (out @ line @ [NL]) ls
    | Some m \<Rightarrow>
      (let pos = m_start m in
       if ident = None \<or> ident = Some 0 then
         (if 0 < pos then code_lines start (i + 1) (Some pos) (out @ line @ [NL]) ls
          else (if start + 1 < i then i - 1 else i, out @ [NL] @ ''.fi'' @ [NL]))
       else if the ident \<le> pos then code_lines start (i + 1) ident (out @ line @ [NL]) ls
       else (i, out @ [NL] @ ''.fi'' @ [NL])))"

definition code_block :: "string list \<Rightarrow> nat \<Rightarrow> nat \<times> string" where
  "code_block lines start = code_lines start (start + 1) None (code_head (lines ! start)) (drop (start + 1) lines)"

section \<open>Text\<close>

definition RE_LEADING_SPACE :: regex where "RE_LEADING_SPACE = re (rx ''^~s*'')"
definition RE_GRID_START :: regex where "RE_GRID_START = re (rx ''^~+~-[-+]+~+.*$'')"
definition RE_SIMPLE_START :: regex where "RE_SIMPLE_START = re (rx ''^~=+[ ~t]~=[ ~t~=]+$'')"
definition RE_CODE_START :: regex where "RE_CODE_START = re (rx ''~.~.~s+code-block.*::'')"
definition RE_BULLET :: regex where "RE_BULLET = re (rx ''^[-*]~s+'')"
definition RE_NUMBERED :: regex where "RE_NUMBERED = re (rx ''^(~d+|a-z)[~.~)]~s+'')"

definition list_line :: "string \<Rightarrow> string" where
  "list_line line = re_sub RE_NUMBERED (rx ''.IP ~1~n'') (re_sub RE_BULLET (rx ''.IP ~[bu]~n'') line)"

text \<open>What one step of the loop over the lines prints, and the line it goes on with.\<close>

definition man_step :: "string list \<Rightarrow> nat \<Rightarrow> (nat \<times> string) res" where
  "man_step lines i =
     (let line = re_sub RE_LEADING_SPACE [] (lines ! i) in
      if line = [] then Inr (i + 1, ''.PP'' @ [NL, NL])
      else if re_match RE_GRID_START line \<noteq> None then grid_table lines i
      else if re_match RE_SIMPLE_START line \<noteq> None then simple_table lines i
      else if endswith line ''::'' \<or> re_match RE_CODE_START line \<noteq> None then Inr (code_block lines i)
      else if hd line = CHR ''.'' then Inr (i + 1, rx ''~&'' @ line @ [NL])
      else Inr (i + 1, list_line line @ [NL]))"

lemma grid_rows_ge: "grid_rows i c rows ls = Inr (j, c', rows') \<Longrightarrow> i \<le> j"
  by (induction i c rows ls rule: grid_rows.induct) (fastforce simp: rbind_Inr_iff split: if_splits)+

lemma simple_rows_ge: "simple_rows pos i c rows ls = Inr (j, c', rows') \<Longrightarrow> i \<le> j"
  by (induction pos i c rows ls rule: simple_rows.induct) (fastforce simp: rbind_Inr_iff split: if_splits)+

lemma code_lines_gt: "start < i \<Longrightarrow> start < fst (code_lines start i ident out ls)"
  by (induction start i ident out ls rule: code_lines.induct) (auto simp: Let_def split: option.splits)

lemma man_step_gt: "man_step lines i = Inr (j, t) \<Longrightarrow> i < j"
  using code_lines_gt [of i "i + 1" None "code_head (lines ! i)" "drop (i + 1) lines"]
  by (auto simp: man_step_def Let_def grid_table_def simple_table_def code_block_def rbind_Inr_iff
      dest!: grid_rows_ge simple_rows_ge split: if_splits)

function man_lines :: "string list \<Rightarrow> nat \<Rightarrow> string res" where
  "man_lines lines i =
     (if i < length lines then rbind (man_step lines i) (\<lambda>(j, t). rbind (man_lines lines j) (\<lambda>rest. Inr (t @ rest)))
      else Inr [])"
  by pat_completeness auto

termination
  by (relation "measure (\<lambda>(lines, i). length lines - i)") (auto dest: man_step_gt)

declare man_lines.simps [simp del]

definition man_text :: "string \<Rightarrow> string res" where
  "man_text block = man_lines (split_on NL (strip_char NL (highlight_block man_highlights block))) 0"

definition man_highlight :: "string \<Rightarrow> man \<Rightarrow> man res" where
  "man_highlight block f = rbind (man_text block) (\<lambda>t. Inr (put t f))"

section \<open>Items\<close>

definition man_section :: "(string \<Rightarrow> string) \<Rightarrow> man \<Rightarrow> string \<times> string \<Rightarrow> man res" where
  "man_section up f st = (case st of (section, text) \<Rightarrow> man_highlight text (put (''.SH \"'' @ up section @ ''\"'' @ [NL]) f))"

abbreviation man_sections :: "kdoc_item \<Rightarrow> man \<Rightarrow> man res" where
  "man_sections args f \<equiv> fold_res (man_section (\<lambda>s. s)) f (it_sections args)"

definition man_out_doc :: "man out_fun" where
  "man_out_doc fname name args f = rbind (check_doc name args f) (\<lambda>(ok, f1).
     if ok then man_sections args (emit_th (arg_name args name) args f1) else Inr f1)"

definition man_name :: "string \<Rightarrow> string \<Rightarrow> man \<Rightarrow> man" where
  "man_name title purpose f = put (title @ rx '' ~- '' @ purpose @ [NL]) (put (''.SH NAME'' @ [NL]) f)"

definition RE_LAST_CHAR :: regex where "RE_LAST_CHAR = re (rx ''([^~*])$'')"

text \<open>The parameters of the synopsis: the first is preceded by a parenthesis, the last followed by one.\<close>

definition synopsis_param :: "kdoc_item \<Rightarrow> nat \<Rightarrow> string \<Rightarrow> string" where
  "synopsis_param args count parameter =
     (let parenth = (if count = 0 then ''('' else []);
          post = (if count = length (it_parameterlist args) - 1 then '');'' else '','');
          dtype = str_get (it_parametertypes args) parameter in
      case re_match function_pointer dtype of
        Some m \<Rightarrow> ''\".BI \"'' @ parenth @ m_str m 1 @ ''\" \" \") ('' @ m_str m 2 @ '')'' @ post @ ''\"'' @ [NL]
      | None \<Rightarrow> ''.BI \"'' @ parenth @ re_sub RE_LAST_CHAR (rx ''~1 '') dtype @ ''\"  \"'' @ post @ ''\"'' @ [NL])"

definition man_param :: "kdoc_item \<Rightarrow> man \<Rightarrow> string \<Rightarrow> man res" where
  "man_param args f parameter =
     man_highlight (str_get (it_parameterdescs args) (re_sub RE_ARRAY_TAIL [] parameter))
       (put (''.IP \"'' @ parameter @ ''\" 12'' @ [NL]) f)"

definition man_out_function :: "man out_fun" where
  "man_out_function fname name args f =
     (let f1 = man_name name (val_text (item_get args ''purpose'' V_none)) (emit_th (arg_name args name) args f);
          ftype = item_get args ''functiontype'' (V_str []);
          f2 = put (if truthy ftype then ''.B \"'' @ val_text ftype @ ''\" '' @ name @ [NL] else ''.B \"'' @ name @ [NL])
                 (put (''.SH SYNOPSIS'' @ [NL]) f1);
          f3 = put (concat (map (\<lambda>(count, p). synopsis_param args count p) (enumerate 0 (it_parameterlist args)))) f2;
          f4 = (if it_parameterlist args \<noteq> [] then put (''.SH ARGUMENTS'' @ [NL]) f3 else f3) in
      rbind (fold_res (man_param args) f4 (it_parameterlist args)) (\<lambda>f5.
      fold_res (man_section upper_str) f5 (it_sections args)))"

definition enum_constant :: "kdoc_item \<Rightarrow> nat \<Rightarrow> string \<Rightarrow> string" where
  "enum_constant args count parameter =
     ''.br'' @ [NL] @ ''.BI \"    '' @ parameter @ ''\"'' @ [NL] @
     (if count = length (it_parameterlist args) - 1 then [NL] @ ''};'' @ [NL] else '', '' @ [NL] @ ''.br'' @ [NL])"

definition man_out_enum :: "man out_fun" where
  "man_out_enum fname name args f =
     (let f1 = man_name (''enum '' @ name) (val_text (item_get args ''purpose'' V_none)) (emit_th (arg_name args name) args f);
          f2 = put (''enum '' @ name @ '' {'' @ [NL]) (put (''.SH SYNOPSIS'' @ [NL]) f1);
          f3 = put (concat (map (\<lambda>(count, p). enum_constant args count p) (enumerate 0 (it_parameterlist args)))) f2;
          f4 = put (''.SH Constants'' @ [NL]) f3 in
      rbind (fold_res (man_param args) f4 (it_parameterlist args)) (man_sections args))"

definition man_out_var :: "man out_fun" where
  "man_out_var fname name args f =
     rbind (dict_at (it_other args) ''full_proto'') (\<lambda>full_proto.
     let f1 = man_name name (val_text (item_get args ''purpose'' V_none)) (emit_th (arg_name args name) args f);
         f2 = put (val_text full_proto @ [NL]) (put (''.SH SYNOPSIS'' @ [NL]) f1) in
     rbind (dict_at (it_other args) ''default_val'') (\<lambda>v.
     rbind (if truthy v then man_highlight (''default: '' @ val_text v) (put (''.SH \"Initialization\"'' @ [NL]) f2) else Inr f2)
       (man_sections args)))"

definition man_out_typedef :: "man out_fun" where
  "man_out_typedef fname name args f =
     man_sections args (man_name (''typedef '' @ name) (val_text (item_get args ''purpose'' V_none))
       (emit_th (arg_name args name) args f))"

text \<open>A member without a description hands \<^verbatim>\<open>None\<close> to the highlighter, a \<open>TypeError\<close>.\<close>

definition man_member :: "kdoc_item \<Rightarrow> man \<Rightarrow> string \<Rightarrow> man res" where
  "man_member args f parameter =
     (if startswith parameter ''#'' then Inr f
      else (case dict_get (it_parameterdescs args) (re_sub RE_ARRAY_TAIL [] parameter) of
          None \<Rightarrow> Inl TypeError
        | Some d \<Rightarrow>
          if d = undescribed then Inr f
          else man_highlight d (put (''.IP \"'' @ parameter @ ''\" 12'' @ [NL]) f)))"

definition man_out_struct :: "man out_fun" where
  "man_out_struct fname name args f =
     (let dtype = it_type args;
          f1 = man_name (dtype @ '' '' @ name) (val_text (item_get args ''purpose'' V_none)) (emit_th (arg_name args name) args f) in
      rbind (val_str (item_get args ''definition'' V_none)) (\<lambda>definition0.
      let declaration = replace (replace definition0 [TAB] ''  '') [NL] (''\"'' @ [NL] @ ''.br'' @ [NL] @ ''.BI \"'');
          f2 = put (dtype @ '' '' @ name @ '' {'' @ [NL] @ ''.br'' @ [NL]) (put (''.SH SYNOPSIS'' @ [NL]) f1);
          f3 = put (''.BI \"'' @ declaration @ [NL] @ ''};'' @ [NL] @ ''.br'' @ [NL, NL]) f2;
          f4 = put (''.SH Members'' @ [NL]) f3 in
      rbind (fold_res (man_member args) f4 (it_parameterlist args)) (man_sections args)))"

definition man_methods :: "man methods" where
  "man_methods = \<lparr>m_doc = man_out_doc, m_function = man_out_function, m_enum = man_out_enum,
     m_var = man_out_var, m_typedef = man_out_typedef, m_struct = man_out_struct\<rparr>"

text \<open>\<^verbatim>\<open>msg\<close> of the man format adds the tail to whatever the base class printed, and returns all of it.\<close>

definition man_msg :: "string \<Rightarrow> string \<Rightarrow> kdoc_item \<Rightarrow> man \<Rightarrow> (string option \<times> man) res" where
  "man_msg fname name args f = rbind (msg man_methods fname name args f) (\<lambda>(_, f1).
     let f2 = out_tail fname name args f1 in Inr (Some (f_data f2), f2))"

definition man_symbols :: "string \<Rightarrow> kdoc_item list \<Rightarrow> man \<Rightarrow> (string \<times> man) res" where
  "man_symbols fname symbols f = output_symbols man_msg fname symbols (set_symbols symbols f)"

end
