(* ===== verification/Man_Props.thy ===== *)
theory Man_Props
  imports Man_Format Rest_Props
begin

text \<open>
  Properties of the troff output: the loop over the lines of a text ends, which exceptions printing
  can raise, the tail every page gets, and what tables and code blocks lose or repeat.
\<close>

section \<open>Exceptions\<close>

lemma header_row_safe: "safe {IndexError} (\<lambda>_. True) (header_row c rows)"
  by (simp add: header_row_def Let_def split: list.splits)

lemma grid_rows_safe: "safe {IndexError} (\<lambda>_. True) (grid_rows i c rows ls)"
proof (induction ls arbitrary: i c rows)
  case (Cons line ls)
  have "safe {IndexError} (\<lambda>_. True) (rbind (header_row c rows) (\<lambda>(c, r). grid_rows (i + 1) c r ls))"
    by (rule safe_rbind [OF header_row_safe]) (simp add: Cons split: prod.splits)
  then show ?case using Cons by simp
qed simp

lemma simple_rows_safe: "safe {IndexError} (\<lambda>_. True) (simple_rows pos i c rows ls)"
proof (induction ls arbitrary: i c rows)
  case (Cons line ls)
  have "safe {IndexError} (\<lambda>_. True) (rbind (header_row c rows) (\<lambda>(c, r). simple_rows pos (i + 1) c r ls))"
    by (rule safe_rbind [OF header_row_safe]) (simp add: Cons split: prod.splits)
  then show ?case using Cons by simp
qed simp

lemma man_step_safe: "safe {IndexError} (\<lambda>_. True) (man_step lines i)"
proof -
  have "safe {IndexError} (\<lambda>_. True) (grid_table lines i)" unfolding grid_table_def
    by (rule safe_rbind [OF grid_rows_safe]) auto
  moreover have "safe {IndexError} (\<lambda>_. True) (simple_table lines i)" unfolding simple_table_def
    by (rule safe_rbind [OF simple_rows_safe]) auto
  ultimately show ?thesis by (simp add: man_step_def Let_def)
qed

lemma man_lines_safe: "safe {IndexError} (\<lambda>_. True) (man_lines lines i)"
proof (induction lines i rule: man_lines.induct)
  case (1 lines i)
  show ?case
  proof (cases "man_step lines i")
    case (Inl e)
    then show ?thesis using man_step_safe [of lines i] by (simp add: man_lines.simps [of lines i])
  next
    case (Inr jt)
    obtain j t where jt: "jt = (j, t)" by (cases jt)
    have "safe {IndexError} (\<lambda>_. True) (rbind (man_lines lines j) (\<lambda>rest. Inr (t @ rest)))" if "i < length lines"
      by (rule safe_rbind [OF 1 [OF that Inr jt [symmetric]]]) simp
    then show ?thesis by (simp add: man_lines.simps [of lines i] Inr jt)
  qed
qed

lemma man_highlight_safe: "safe {IndexError} (\<lambda>_. True) (man_highlight block f)"
  unfolding man_highlight_def man_text_def by (rule safe_rbind [OF man_lines_safe]) simp

lemma man_sections_safe: "safe {IndexError} (\<lambda>_. True) (fold_res (man_section up) f sts)"
  by (rule safe_fold_res) (auto simp: man_section_def man_highlight_safe split: prod.splits)

text \<open>The tail is added by the caller, so the methods only matter for their exceptions.\<close>

definition man_errs :: "kdoc_item \<Rightarrow> py_err set" where
  "man_errs it = (if it_type it = ''struct'' \<or> it_type it = ''union'' then {IndexError, TypeError} else {IndexError})"

lemma man_params_safe: "safe {IndexError} (\<lambda>_. True) (fold_res (man_param args) f ps)"
  by (rule safe_fold_res) (auto simp: man_param_def man_highlight_safe)

lemma man_members_safe: "safe {IndexError, TypeError} (\<lambda>_. True) (fold_res (man_member args) f ps)"
  by (rule safe_fold_res) (auto simp: man_member_def split: option.splits intro: safe_errs [OF man_highlight_safe])

lemma man_doc_safe: "f_table f = Some t \<Longrightarrow> safe {IndexError} (\<lambda>_. True) (man_out_doc fname name args f)"
  by (auto simp: man_out_doc_def check_doc_def in_table_def man_sections_safe)

lemma man_function_safe: "safe {IndexError} (\<lambda>_. True) (man_out_function fname name args f)"
  unfolding man_out_function_def Let_def by (rule safe_rbind [OF man_params_safe man_sections_safe])

lemma man_enum_safe: "safe {IndexError} (\<lambda>_. True) (man_out_enum fname name args f)"
  unfolding man_out_enum_def Let_def by (rule safe_rbind [OF man_params_safe man_sections_safe])

lemma man_typedef_safe: "safe {IndexError} (\<lambda>_. True) (man_out_typedef fname name args f)"
  unfolding man_out_typedef_def by (rule man_sections_safe)

lemma man_var_safe:
  assumes "extras_ok ''var'' (it_other args)"
  shows "safe {IndexError} (\<lambda>_. True) (man_out_var fname name args f)"
proof -
  from assms obtain p v where "dict_at (it_other args) ''full_proto'' = Inr p" "dict_at (it_other args) ''default_val'' = Inr v"
    by (auto simp: extras_ok_def dict_at_def dict_has_def)
  then show ?thesis unfolding man_out_var_def
    by (auto simp: Let_def man_sections_safe intro!: safe_rbind [OF man_highlight_safe])
qed

lemma man_struct_safe:
  assumes "item_get args ''definition'' V_none = V_str d"
  shows "safe {IndexError, TypeError} (\<lambda>_. True) (man_out_struct fname name args f)"
  unfolding man_out_struct_def Let_def assms val_str_def pyval.case rbind_simps
  by (rule safe_rbind [OF man_members_safe]) (rule safe_errs [OF man_sections_safe], simp)

lemma man_method_safe:
  assumes "kitem_ok it" and "out_fun_of man_methods (it_type it) = Some out"
  shows "safe (man_errs it) (\<lambda>_. True) (out fname name it f)"
proof -
  have ex: "extras_ok (it_type it) (it_other it)" using assms(1) by (simp add: kitem_ok_def)
  show ?thesis
  proof (cases "it_type it = ''struct'' \<or> it_type it = ''union''")
    case True
    then obtain d where "item_get it ''definition'' V_none = V_str d" using ex by (auto simp: extras_ok_def item_get_def)
    from man_struct_safe [OF this] show ?thesis using True assms(2)
      by (auto simp: out_fun_of_def man_methods_def man_errs_def)
  next
    case False
    then show ?thesis using assms(2) ex
      by (auto simp: out_fun_of_def man_methods_def man_errs_def man_function_safe man_enum_safe man_typedef_safe man_var_safe
          split: if_splits)
  qed
qed

lemma man_kitem_method: "kitem_ok it \<Longrightarrow> it_type it \<noteq> ''doc'' \<Longrightarrow> \<exists>out. out_fun_of man_methods (it_type it) = Some out"
  by (auto simp: kitem_ok_def decl_types_def out_fun_of_def)

lemma man_base_safe:
  assumes it: "kitem_ok it" and t: "f_table f = Some t"
  shows "safe (man_errs it) (\<lambda>_. True) (msg man_methods fname name it f)"
proof (cases "it_type it = ''doc''")
  case True
  have "safe {IndexError} (\<lambda>_. True) (rbind (man_out_doc fname name it (f\<lparr>f_data := []\<rparr>)) (\<lambda>f1. Inr (Some (f_data f1), f1)))"
    by (rule safe_rbind [OF man_doc_safe]) (simp_all add: t)
  then show ?thesis using True by (simp add: msg_def Let_def man_methods_def man_errs_def)
next
  case False
  from man_kitem_method [OF it False] obtain out where out: "out_fun_of man_methods (it_type it) = Some out" by blast
  have "f_table (f\<lparr>f_data := []\<rparr>) = Some t" by (simp add: t)
  from check_declaration_shows [OF this, of "it_type it" name it] obtain b f1
    where "check_declaration (it_type it) name it (f\<lparr>f_data := []\<rparr>) = Inr (b, f1)" by blast
  moreover have "safe (man_errs it) (\<lambda>_. True) (rbind (out fname name it f1) (\<lambda>f2. Inr (Some (f_data f2), f2)))"
    by (rule safe_rbind [OF man_method_safe [OF it out]]) simp
  ultimately show ?thesis using False by (simp add: msg_def Let_def out)
qed

text \<open>
  C10. Printing a well-formed item as a man page, once the filter is set, gives a text or raises
  \<open>IndexError\<close>, the exception of a table with rows of different length, or, for a structure or union,
  \<open>TypeError\<close>; in particular the loop over the lines of a text always ends.
\<close>

theorem man_msg_safe:
  assumes "kitem_ok it" and "f_table f = Some t"
  shows "case man_msg fname name it f of
     Inl e \<Rightarrow> e = IndexError \<or> ((it_type it = ''struct'' \<or> it_type it = ''union'') \<and> e = TypeError)
   | Inr (m, f') \<Rightarrow> m \<noteq> None"
proof -
  have "safe (man_errs it) (\<lambda>(m, f'). m \<noteq> None) (man_msg fname name it f)"
    unfolding man_msg_def by (rule safe_rbind [OF man_base_safe [OF assms]]) (auto simp: Let_def)
  then show ?thesis by (cases "man_msg fname name it f") (auto simp: man_errs_def split: if_splits)
qed

definition man_filtered :: man where
  "man_filtered = set_filter False False [] [''x''] [] False False (man_init None ''9'' ''M'' ''D'')"

theorem man_msg_safe_witness:
  "case man_msg ''f.h'' ''y'' (sample_item ''enum'' [''A'', ''B''] [] [(''purpose'', V_str ''p'')]) man_filtered of
     Inl e \<Rightarrow> e = IndexError | Inr (m, f') \<Rightarrow> m \<noteq> None"
proof -
  let ?it = "sample_item ''enum'' [''A'', ''B''] [] [(''purpose'', V_str ''p'')]"
  have ty: "it_type ?it = ''enum''" by (simp add: sample_item_def set_params_def set_sections_def)
  have ok: "kitem_ok ?it"
    by (simp add: kitem_ok_def ty)
      (simp add: sample_item_def set_params_def set_sections_def decl_types_def other_of_simps blank_section_def)
  have "f_table man_filtered = Some []"
    by (simp add: man_filtered_def set_filter_def man_init_def fmt.defs fmt_init_def)
  from man_msg_safe [OF ok this, of "''f.h''" "''y''"] ty show ?thesis by (auto split: sum.splits)
qed

section \<open>Pages\<close>

text \<open>
  Excluded symbols leave a trace: an item the filter excludes prints nothing as
  reStructuredText, but as a man page it still prints its tail.
\<close>

theorem excluded_item_tail:
  assumes "it_type it \<noteq> ''doc''" and "name \<in> set ns" and "ns \<noteq> []"
  shows "(\<exists>f'. rest_msg fname name it (set_filter e i s ns t l d f) = Inr (Some [], f')) \<and>
    (\<exists>f' text. man_msg fname name it (set_filter e i s ns t l d g) = Inr (Some text, f') \<and> text \<noteq> [])"
  using assms
  by (simp add: rest_msg_def man_msg_def msg_def Let_def check_declaration_def set_filter_def out_tail_def put_def)

theorem excluded_item_tail_witness:
  "\<exists>f' text. man_msg ''f.h'' ''x'' (sample_item ''enum'' [] [] []) man_filtered = Inr (Some text, f') \<and> text \<noteq> []"
proof -
  have "it_type (sample_item ''enum'' [] [] []) \<noteq> ''doc''" by (simp add: sample_item_def set_params_def set_sections_def)
  from excluded_item_tail [OF this, of "''x''" "[''x'']"] show ?thesis unfolding man_filtered_def by simp
qed

text \<open>
  The last line of a code block that is followed by text without a blank line is printed twice,
  once in the block and once after it.
\<close>

theorem code_block_repeats:
  "man_text (''a::'' @ [NL] @ ''  b'' @ [NL] @ ''c'') =
   Inr (''a:'' @ [NL] @ ''.nf'' @ [NL] @ ''  b'' @ [NL, NL] @ ''.fi'' @ [NL] @ ''b'' @ [NL] @ ''c'' @ [NL])"
  by code_simp

text \<open>
  A simple table loses the last column of every cell, and everything below its header: the rule
  under the header already ends the table.
\<close>

theorem simple_table_truncates:
  "simple_table [''=== ==='', ''abc def'', ''=== ==='', ''ghi jkl'', ''=== ===''] 0 =
   Inr (3, [NL] @ ''.TS'' @ [NL] @ ''box;'' @ [NL] @ ''l'' @ [TAB] @ ''l.'' @ [NL] @ ''ab'' @ [TAB] @ ''de'' @ [NL] @ ''.TE'' @ [NL])"
  by code_simp

end
