(* ===== verification/Files_Props.thy ===== *)
theory Files_Props
  imports Kdoc_Files Rest_Props Man_Props
begin

text \<open>
  Properties of the whole tool: which files are found, that a file is parsed once, the invariant of
  the results, and what printing them can raise.
\<close>

section \<open>Finding files\<close>

text \<open>The sources below a directory, as a relation.\<close>

inductive source_in :: "string list \<Rightarrow> string \<Rightarrow> node \<Rightarrow> string \<Rightarrow> bool" for exts where
  source_file: "(n, N_file c) \<in> set es \<Longrightarrow> ends_in exts n \<Longrightarrow> source_in exts d (N_dir es) (path_join d n)"
| source_dir: "(n, N_dir es') \<in> set es \<Longrightarrow> source_in exts (path_join d n) (N_dir es') p \<Longrightarrow> source_in exts d (N_dir es) p"

lemma parse_dir_sound: "p \<in> set (parse_dir exts d nd) \<Longrightarrow> source_in exts d nd p"
proof (induction exts d nd rule: parse_dir.induct)
  case (1 exts d es)
  then obtain n nd where nd: "(n, nd) \<in> set es" and p: "p \<in> set (case nd of
      N_dir _ \<Rightarrow> parse_dir exts (path_join d n) nd | N_file _ \<Rightarrow> if ends_in exts n then [path_join d n] else [] | N_other \<Rightarrow> [])"
    by auto
  show ?case
  proof (cases nd)
    case (N_file c)
    then show ?thesis using p nd by (auto split: if_splits intro: source_file)
  next
    case (N_dir es')
    then have "source_in exts (path_join d n) nd p" using 1(1) [OF nd refl, of es'] p by simp
    then show ?thesis using nd N_dir by (auto intro: source_dir)
  next
    case N_other
    then show ?thesis using p by simp
  qed
qed simp_all

lemma parse_dir_entry:
  assumes "(n, nd) \<in> set es"
    and "p \<in> set (case nd of N_dir _ \<Rightarrow> parse_dir exts (path_join d n) nd
      | N_file _ \<Rightarrow> if ends_in exts n then [path_join d n] else [] | N_other \<Rightarrow> [])"
  shows "p \<in> set (parse_dir exts d (N_dir es))"
  unfolding parse_dir.simps(1) set_concat set_map image_image
  by (rule UN_I [OF assms(1)]) (simp only: prod.case assms(2))

lemma parse_dir_complete: "source_in exts d nd p \<Longrightarrow> p \<in> set (parse_dir exts d nd)"
  by (induction rule: source_in.induct) (erule parse_dir_entry, simp)+

text \<open>
  C33. Searching a directory finds its sources, all of them and nothing else: the paths are exactly
  those of the files below it, through any number of subdirectories, whose name has one of the
  extensions.
\<close>

theorem parse_dir_exact: "set (parse_dir exts d nd) = {p. source_in exts d nd p}"
  using parse_dir_sound parse_dir_complete by blast

section \<open>Parsing each file once\<close>

text \<open>
  The invariant of the results: the files parsed are those with a result, each has a table of
  exports, and every item is well formed.
\<close>

definition kf_inv :: "kfiles \<Rightarrow> bool" where
  "kf_inv st \<longleftrightarrow> set (dict_keys (kf_results st)) = set (kf_files st) \<and> set (kf_files st) \<subseteq> set (kf_export_files st) \<and>
     set (dict_keys (kf_export_table st)) = set (kf_files st) \<and>
     (\<forall>f items. dict_get (kf_results st) f = Some items \<longrightarrow> list_all kitem_ok items)"

lemma kf_inv_init: "kf_inv (kfiles_init env v w r s)"
  by (simp add: kf_inv_def kfiles_init_def dict_get_def)

lemma kf_inv_log [simp]: "kf_inv (add_log ms st) = kf_inv st" "kf_inv (file_not_found f st) = kf_inv st"
  by (simp_all add: kf_inv_def add_log_def file_not_found_def kf_error_def)

lemma parse_result_ok:
  assumes "parse_kdoc (kdoc_init cf fname b) file = Inr (ex, k)"
  shows "list_all kitem_ok (k_entries k)"
proof (cases "file")
  case None
  then show ?thesis using assms by (auto simp: parse_kdoc_def kdoc_init_def)
next
  case (Some lines)
  have "items_ok (kdoc_init cf fname b)" by (simp add: items_ok_def kdoc_init_def)
  from machine.run_safe [OF pk_init_inv [OF this], of "enumerate 0 lines"] show ?thesis
    using assms inv_items by (auto simp: parse_kdoc_def Some pk_inv_def)
qed

lemma parse_error:
  assumes "parse_kdoc (kdoc_init cf fname b) file = Inl e"
  shows "e \<in> {IndexError, AttributeError}"
proof (cases "file")
  case None
  then show ?thesis using assms by (simp add: parse_kdoc_def)
next
  case (Some lines)
  have "items_ok (kdoc_init cf fname b)" by (simp add: items_ok_def kdoc_init_def)
  from machine.run_errs [OF pk_init_inv [OF this], of "enumerate 0 lines"] show ?thesis
    using assms by (auto simp: parse_kdoc_def Some rbind_Inl_iff)
qed

lemma parse_file_inv: "kf_inv st \<Longrightarrow> parse_file contents fname st = Inr st' \<Longrightarrow> kf_inv st'"
  by (auto simp: parse_file_def kf_inv_def rbind_Inr_iff add_log_def dict_keys_set dict_set_get
      dest: parse_result_ok split: if_splits)

interpretation parsing: safe_step "glob_step (parse_file contents)" kf_inv "\<lambda>e. e \<in> {IndexError, AttributeError}"
  for contents
proof unfold_locales
  show "kf_inv s'" if "kf_inv s" "glob_step (parse_file contents) s x = Inr s'" for s x s'
    using that parse_file_inv by (auto simp: glob_step_def split: glob_event.splits)
  show "e \<in> {IndexError, AttributeError}" if "glob_step (parse_file contents) s x = Inl e" for s x e
    using that by (auto simp: glob_step_def parse_file_def rbind_Inl_iff dest!: parse_error split: glob_event.splits if_splits)
qed

text \<open>
  A file is parsed once: asking for it again changes nothing, neither the results nor the log nor
  the number of errors.
\<close>

theorem parse_file_once: "rbind (parse_file contents fname st) (parse_file contents fname) = parse_file contents fname st"
proof (cases "parse_file contents fname st")
  case (Inr st')
  then have "fname \<in> set (kf_files st')" by (auto simp: parse_file_def rbind_Inr_iff add_log_def split: if_splits)
  then show ?thesis using Inr by (simp add: parse_file_def)
qed simp

text \<open>
  Reading the exports of a file that was not parsed always fails: the parser is made without its
  table of transforms, and \<open>TypeError\<close> is raised before the file is opened.
\<close>

theorem export_file_raises:
  assumes "fs fname = Some (N_file c)" and "kf_srctree st = None" and "fname \<notin> set (kf_export_files st)"
  shows "kfiles_parse fs contents [] [fname] st = Inl TypeError"
  using assms by (simp add: kfiles_parse_def parse_files_def glob_one_def Let_def glob_step_def process_export_file_def)

theorem export_file_raises_witness:
  "kfiles_parse (\<lambda>p. if p = ''a.c'' then Some (N_file None) else None) (\<lambda>p. None) [] [''a.c'']
     (kfiles_init (\<lambda>v. None) False False False False) = Inl TypeError"
  by (rule export_file_raises) (simp_all add: kfiles_init_def)

section \<open>Printing the results\<close>

text \<open>The filter stays as it was set while items are printed.\<close>

lemma table_put [simp]: "f_table (put t f) = f_table f"
  by (simp add: put_def)

lemma table_frame [simp]:
  "f_table (put_prefixed t f) = f_table f" "f_table (print_lineno ln f) = f_table f"
  "f_table (output_highlight t f) = f_table f" "f_table (prefix_to p f) = f_table f"
  by (simp_all add: put_def put_prefixed_def print_lineno_def output_highlight_def prefix_to_def)

lemma table_warnings [simp]: "f_table (out_warnings args f) = f_table f"
  by (simp add: out_warnings_def)

lemma table_section [simp]: "f_table (out_section args b f) = f_table f"
proof -
  have "f_table (out_section1 args b f st) = f_table f" for f st
    by (cases st) (simp add: out_section1_def Let_def)
  then have "f_table (foldl (out_section1 args b) f sts) = f_table f" for sts f
    by (induction sts arbitrary: f) simp_all
  then show ?thesis by (simp add: out_section_def)
qed

lemma table_params [simp]: "f_table (foldl (rest_out_param args) f ps) = f_table f"
  by (induction ps arbitrary: f) (simp_all add: rest_out_param_def Let_def split: option.split)

lemma fold_keeps:
  "fold_res F s xs = Inr s' \<Longrightarrow> (\<And>s x s'. F s x = Inr s' \<Longrightarrow> g s' = g s) \<Longrightarrow> g s' = g s"
  by (induction xs arbitrary: s) (force simp: rbind_Inr_iff)+

lemma table_highlight: "highlight_val v f = Inr f' \<Longrightarrow> f_table f' = f_table f"
  by (auto simp: highlight_val_def rbind_Inr_iff)

lemma table_constants: "fold_res (rest_out_constant args outer) f ps = Inr f' \<Longrightarrow> f_table f' = f_table f"
  by (erule fold_keeps) (auto simp: rest_out_constant_def Let_def rbind_Inr_iff split: if_splits)

lemma table_members: "fold_res (rest_out_member args) f ps = Inr f' \<Longrightarrow> f_table f' = f_table f"
  by (erule fold_keeps) (auto simp: rest_out_member_def Let_def rbind_Inr_iff split: if_splits)

lemma table_head: "rest_function_head name args signature f = Inr f' \<Longrightarrow> f_table f' = f_table f"
  by (auto simp: rest_function_head_def Let_def rbind_Inr_iff dest!: table_highlight split: if_splits)

lemma table_function: "rest_out_function fname name args f = Inr f' \<Longrightarrow> f_table f' = f_table f"
  by (auto simp: rest_out_function_def Let_def rbind_Inr_iff dest!: table_highlight table_head split: if_splits)

lemma table_enum: "rest_out_enum fname name args f = Inr f' \<Longrightarrow> f_table f' = f_table f"
  by (auto simp: rest_out_enum_def Let_def rbind_Inr_iff dest!: table_highlight table_constants)

lemma table_var: "rest_out_var fname name args f = Inr f' \<Longrightarrow> f_table f' = f_table f"
  by (auto simp: rest_out_var_def Let_def rbind_Inr_iff dest!: table_highlight split: if_splits)

lemma table_typedef: "rest_out_typedef fname name args f = Inr f' \<Longrightarrow> f_table f' = f_table f"
  by (auto simp: rest_out_typedef_def Let_def rbind_Inr_iff dest!: table_highlight)

lemma table_struct: "rest_out_struct fname name args f = Inr f' \<Longrightarrow> f_table f' = f_table f"
  by (auto simp: rest_out_struct_def Let_def rbind_Inr_iff dest!: table_highlight table_members)

lemma table_method:
  assumes "out_fun_of rest_methods ty = Some out" and "out fname name args f = Inr f'"
  shows "f_table f' = f_table f"
  using assms table_function [of fname name args f f'] table_enum [of fname name args f f'] table_var [of fname name args f f']
    table_typedef [of fname name args f f'] table_struct [of fname name args f f']
  by (simp add: out_fun_of_def rest_methods_def split: if_splits)

lemma table_check: "check_declaration ty name args f = Inr (b, f') \<Longrightarrow> f_table f' = f_table f"
  by (auto simp: check_declaration_def rbind_Inr_iff split: if_splits)

lemma table_doc: "rest_out_doc fname name args f = Inr f' \<Longrightarrow> f_table f' = f_table f"
  by (auto simp: rest_out_doc_def check_doc_def rbind_Inr_iff split: if_splits)

text \<open>An output format whose methods leave the filter alone: so does printing an item.\<close>

locale filter_methods =
  fixes mt :: "'f fmt_scheme methods"
  assumes doc_keeps: "m_doc mt fname name args f = Inr f' \<Longrightarrow> f_table f' = f_table f"
    and out_keeps: "out_fun_of mt ty = Some out \<Longrightarrow> out fname name args f = Inr f' \<Longrightarrow> f_table f' = f_table f"
begin

lemma msg_keeps:
  assumes "msg mt fname name args f = Inr (m, f')"
  shows "f_table f' = f_table f"
proof (cases "it_type args = ''doc''")
  case True
  then have "m_doc mt fname name args (f\<lparr>f_data := []\<rparr>) = Inr f'"
    using assms by (auto simp: msg_def Let_def rbind_Inr_iff)
  from doc_keeps [OF this] show ?thesis by simp
next
  case False
  with assms obtain b f1 where c: "check_declaration (it_type args) name args (f\<lparr>f_data := []\<rparr>) = Inr (b, f1)"
      and r: "(if \<not> b then Inr (Some (f_data f1), f1) else (case out_fun_of mt (it_type args) of
            Some out \<Rightarrow> rbind (out fname name args f1) (\<lambda>f2. Inr (Some (f_data f2), f2))
          | None \<Rightarrow> Inr (None, f1\<lparr>f_log := f_log f1 @ [''doesn'' @ [CHR 0x27] @ ''t know how to output '' @ quoted (it_type args) @ '' block'']\<rparr>))) =
        Inr (m, f')"
    by (auto simp: msg_def Let_def rbind_Inr_iff)
  have "f_table f' = f_table f1"
    using r by (cases "out_fun_of mt (it_type args)") (auto simp: rbind_Inr_iff dest: out_keeps split: if_splits)
  then show ?thesis using table_check [OF c] by simp
qed

end

interpretation rest_filter: filter_methods rest_methods
  by unfold_locales (simp_all add: rest_methods_def table_doc table_method [unfolded rest_methods_def])

section \<open>Man pages leave the filter alone\<close>

lemma table_man_frame [simp]:
  "f_table (emit_th t args f) = f_table f" "f_table (man_name t p f) = f_table f" "f_table (out_tail fname name args f) = f_table f"
  by (simp_all add: emit_th_def man_name_def out_tail_def Let_def)

lemma table_man_highlight: "man_highlight block f = Inr f' \<Longrightarrow> f_table f' = f_table f"
  by (auto simp: man_highlight_def rbind_Inr_iff)

lemma table_man_section: "man_section up f st = Inr f' \<Longrightarrow> f_table f' = f_table f"
  by (auto simp: man_section_def split: prod.splits dest!: table_man_highlight)

lemma table_man_folds:
  "fold_res (man_section up) f sts = Inr f' \<Longrightarrow> f_table f' = f_table f"
  "fold_res (man_param args) f ps = Inr f' \<Longrightarrow> f_table f' = f_table f"
  "fold_res (man_member args) f ps = Inr f' \<Longrightarrow> f_table f' = f_table f"
  by (erule fold_keeps, auto simp: man_param_def man_member_def dest!: table_man_highlight table_man_section split: if_splits option.splits)+

lemma table_man_methods:
  "man_out_doc fname name args f = Inr f' \<Longrightarrow> f_table f' = f_table f"
  "man_out_function fname name args f = Inr f' \<Longrightarrow> f_table f' = f_table f"
  "man_out_enum fname name args f = Inr f' \<Longrightarrow> f_table f' = f_table f"
  "man_out_var fname name args f = Inr f' \<Longrightarrow> f_table f' = f_table f"
  "man_out_typedef fname name args f = Inr f' \<Longrightarrow> f_table f' = f_table f"
  "man_out_struct fname name args f = Inr f' \<Longrightarrow> f_table f' = f_table f"
proof -
  assume "man_out_doc fname name args f = Inr f'"
  then show "f_table f' = f_table f"
    by (auto simp: man_out_doc_def check_doc_def rbind_Inr_iff dest!: table_man_folds split: if_splits)
next
  assume "man_out_function fname name args f = Inr f'"
  then show "f_table f' = f_table f"
    by (auto simp: man_out_function_def Let_def rbind_Inr_iff dest!: table_man_folds split: if_splits)
next
  assume "man_out_enum fname name args f = Inr f'"
  then show "f_table f' = f_table f"
    by (auto simp: man_out_enum_def Let_def rbind_Inr_iff dest!: table_man_folds)
next
  assume "man_out_var fname name args f = Inr f'"
  then show "f_table f' = f_table f"
    by (auto simp: man_out_var_def Let_def rbind_Inr_iff dest!: table_man_folds table_man_highlight split: if_splits)
next
  assume "man_out_typedef fname name args f = Inr f'"
  then show "f_table f' = f_table f" by (auto simp: man_out_typedef_def dest!: table_man_folds)
next
  assume "man_out_struct fname name args f = Inr f'"
  then show "f_table f' = f_table f"
    by (auto simp: man_out_struct_def Let_def rbind_Inr_iff dest!: table_man_folds)
qed

interpretation man_filter: filter_methods man_methods
proof unfold_locales
  fix fname name args and f f' :: man
  show "f_table f' = f_table f" if "m_doc man_methods fname name args f = Inr f'"
    using that table_man_methods(1) [of fname name args f f'] by (simp add: man_methods_def)
  show "f_table f' = f_table f" if "out_fun_of man_methods ty = Some out" "out fname name args f = Inr f'" for ty out
    using that table_man_methods(2-6) [of fname name args f f'] by (simp add: out_fun_of_def man_methods_def split: if_splits)
qed

section \<open>Printing all items of a file\<close>

lemma output_symbols_safe:
  fixes out_msg :: "string \<Rightarrow> string \<Rightarrow> kdoc_item \<Rightarrow> 'f fmt_scheme \<Rightarrow> (string option \<times> 'f fmt_scheme) res"
  assumes msg: "\<And>it f. kitem_ok it \<Longrightarrow> f_table f = Some t \<Longrightarrow> safe E (\<lambda>(m, f'). f_table f' = Some t) (out_msg fname (it_name it) it f)"
    and ok: "list_all kitem_ok items" and f: "f_table f = Some t"
  shows "safe E (\<lambda>(tx, f'). f_table f' = Some t) (output_symbols out_msg fname items f)"
  unfolding output_symbols_def
proof (rule safe_fold_res)
  fix s :: "string \<times> 'f fmt_scheme" and it
  assume s: "case s of (tx, f') \<Rightarrow> f_table f' = Some t" and "it \<in> set items"
  then have it: "kitem_ok it" using ok by (simp add: list_all_iff)
  obtain tx f1 where f1: "s = (tx, f1)" "f_table f1 = Some t" using s by (cases s) simp
  show "safe E (\<lambda>(tx, f'). f_table f' = Some t) ((case s of (tx, f1) \<Rightarrow> \<lambda>arg.
      rbind (out_msg fname (it_name arg) arg f1) (\<lambda>(m, f2).
        Inr (case m of Some t \<Rightarrow> (tx @ t, f2) | None \<Rightarrow> (tx, f2\<lparr>f_log := f_log f2 @ [cannot_handle fname arg]\<rparr>)))) it)"
    unfolding f1(1) prod.case by (rule safe_rbind [OF msg [OF it f1(2)]]) (auto split: option.split)
qed (simp add: f)

lemma rest_symbols_safe:
  assumes "list_all kitem_ok items" and "f_table f = Some t"
  shows "safe {IndexError, KeyError} (\<lambda>(tx, f' :: rest). f_table f' = Some t) (rest_symbols fname items f)"
  unfolding rest_symbols_def
proof (rule output_symbols_safe [OF _ assms])
  fix it and g :: rest
  assume it: "kitem_ok it" and g: "f_table g = Some t"
  show "safe {IndexError, KeyError} (\<lambda>(m, f'). f_table f' = Some t) (rest_msg fname (it_name it) it g)"
  proof (cases "rest_msg fname (it_name it) it g")
    case (Inl e)
    then show ?thesis using rest_msg_outcome [OF it g, of fname "it_name it"] by (auto simp: print_errs_def split: if_splits)
  next
    case (Inr mf)
    then show ?thesis using rest_filter.msg_keeps [of fname "it_name it" it g] g by (cases mf) (simp add: rest_msg_def)
  qed
qed

lemma man_symbols_safe:
  assumes "list_all kitem_ok items" and "f_table f = Some t"
  shows "safe {IndexError, TypeError} (\<lambda>(tx, f' :: man). f_table f' = Some t) (man_symbols fname items f)"
  unfolding man_symbols_def
proof (rule output_symbols_safe [OF _ assms(1)])
  show "f_table (set_symbols items f) = Some t" by (simp add: set_symbols_def assms(2))
  fix it and g :: man
  assume it: "kitem_ok it" and g: "f_table g = Some t"
  have "safe {IndexError, TypeError} (\<lambda>(m, f'). f_table f' = Some t) (msg man_methods fname (it_name it) it g)"
  proof (cases "msg man_methods fname (it_name it) it g")
    case (Inl e)
    then show ?thesis using man_base_safe [OF it g, of fname "it_name it"] by (auto simp: man_errs_def split: if_splits)
  next
    case (Inr mf)
    then show ?thesis using man_filter.msg_keeps [of fname "it_name it" it g] g by (cases mf) simp
  qed
  then show "safe {IndexError, TypeError} (\<lambda>(m, f'). f_table f' = Some t) (man_msg fname (it_name it) it g)"
    unfolding man_msg_def by (rule safe_rbind) (auto simp: Let_def)
qed

lemma not_found_files [simp]: "kf_files (file_not_found fname st) = kf_files st"
  by (simp add: file_not_found_def kf_error_def)

lemma add_log_files [simp]: "kf_files (add_log ms st) = kf_files st"
  by (simp add: add_log_def)

interpretation exports: safe_step export_step "\<lambda>(tbl, st). kf_inv st \<and> kf_files st = F" "\<lambda>e. e = KeyError" for F
  by unfold_locales (auto simp: export_step_def split: glob_event.splits option.splits)

lemma function_table_safe:
  assumes "kf_inv st"
  shows "safe {KeyError} (\<lambda>(tbl, st'). kf_inv st' \<and> kf_files st' = kf_files st) (function_table fs rq ef st)"
proof -
  have "case ([] :: string list, st) of (tbl, st') \<Rightarrow> kf_inv st' \<and> kf_files st' = kf_files st" using assms by simp
  from exports.run_safe [OF this, of "parse_files fs (kf_srctree st) ef"] show ?thesis
    unfolding function_table_def using assms by (intro safe_rbind [where P = "\<lambda>(tbl, st'). kf_inv st' \<and> kf_files st' = kf_files st"]) auto
qed

text \<open>The loop over the files printed: texts only for files that were parsed.\<close>

definition msg_inv :: "(string \<times> string) list \<times> 'f \<times> kfiles \<Rightarrow> bool" where
  "msg_inv acc = (case acc of (texts, _, st) \<Rightarrow> kf_inv st \<and> fst ` set texts \<subseteq> set (kf_files st))"

lemma set_filter_table [simp]: "f_table (set_filter e i s ns t l d f) = Some t"
  by (simp add: set_filter_def)

lemma parse_outcome:
  "kf_inv st \<Longrightarrow> safe {IndexError, AttributeError} kf_inv (kfiles_parse fs contents file_list [] st)"
  using parsing.run_safe [of st contents "parse_files fs (kf_srctree st) file_list"] by (auto simp: kfiles_parse_def parse_files_def)

text \<open>
  What \<^verbatim>\<open>KernelFiles\<close> relies on in an output format: once the filter is set, it prints well-formed items
  or raises one of its own exceptions, and keeps the filter.
\<close>

locale out_format =
  fixes out_symbols :: "string \<Rightarrow> kdoc_item list \<Rightarrow> 'f fmt_scheme \<Rightarrow> (string \<times> 'f fmt_scheme) res" and errs :: "py_err set"
  assumes symbols_ok: "list_all kitem_ok items \<Longrightarrow> f_table f = Some t \<Longrightarrow> safe errs (\<lambda>(tx, f'). f_table f' = Some t) (out_symbols fname items f)"
begin

lemma print_file_ok:
  assumes "msg_inv acc"
  shows "safe errs msg_inv (print_file out_symbols rq fname tbl acc)"
proof -
  obtain texts f st where acc: "acc = (texts, f, st)" by (cases acc)
  show ?thesis
  proof (cases "dict_get (kf_results st) fname")
    case None
    then show ?thesis using assms by (simp add: print_file_def acc msg_inv_def kf_inv_def)
  next
    case (Some items)
    then have ok: "list_all kitem_ok items" and "fname \<in> set (kf_files st)"
      using assms by (auto simp: acc msg_inv_def kf_inv_def dict_has_keys [symmetric] dict_has_def)
    then show ?thesis unfolding print_file_def acc prod.case Some option.case using assms
      by (intro safe_rbind [OF symbols_ok [OF ok set_filter_table]]) (auto simp: acc msg_inv_def)
  qed
qed

lemma msg_file_ok:
  assumes "msg_inv acc"
  shows "safe (insert KeyError errs) (\<lambda>(ef, acc). msg_inv acc) (msg_file fs out_symbols rq (ef, acc) fname)"
proof -
  obtain texts f st where acc: "acc = (texts, f, st)" by (cases acc)
  have "safe (insert KeyError errs) (\<lambda>(tbl, st'). msg_inv (texts, f, st')) (function_table fs rq ef st)" for ef
    by (rule safe_errs [OF safe_mono [OF function_table_safe]]) (use assms in \<open>auto simp: acc msg_inv_def\<close>)
  then show ?thesis unfolding msg_file_def acc prod.case Let_def
    by (rule safe_rbind) (auto intro!: safe_rbind [OF safe_errs [OF print_file_ok]])
qed

lemma msg_ok:
  assumes "kf_inv st"
  shows "safe (insert KeyError errs) msg_inv (kfiles_msg fs out_symbols rq filenames export_file f st)"
proof -
  have "safe (insert KeyError errs) (\<lambda>(ef, acc). msg_inv acc) (fold_res (msg_file fs out_symbols rq) (export_file, [], f, st) fnames)" for fnames
    by (rule safe_fold_res) (use assms in \<open>auto simp: msg_inv_def [of "([], f, st)"] simp del: split_paired_All intro: msg_file_ok\<close>)
  then show ?thesis unfolding kfiles_msg_def Let_def by (rule safe_rbind) auto
qed

lemma whole_run_ok:
  "safe ({IndexError, AttributeError, KeyError} \<union> errs) msg_inv
     (rbind (kfiles_parse fs contents file_list [] (kfiles_init env v w r s)) (kfiles_msg fs out_symbols rq filenames export_file f))"
  by (rule safe_rbind [OF safe_errs [OF parse_outcome [OF kf_inv_init]]], blast, rule safe_errs [OF msg_ok]) auto

end

interpretation rest_format: out_format rest_symbols "{IndexError, KeyError}"
  by unfold_locales (rule rest_symbols_safe)

interpretation man_format: out_format man_symbols "{IndexError, TypeError}"
  by unfold_locales (rule man_symbols_safe)


text \<open>
  The same run printed as man pages ends with one of \<open>IndexError\<close>, \<open>AttributeError\<close>, \<open>KeyError\<close> and
  \<open>TypeError\<close>, or with the texts of files that were parsed.
\<close>

theorem kernel_doc_run_man_safe:
  "case rbind (kfiles_parse fs contents file_list [] (kfiles_init env v w r s)) (kfiles_msg fs man_symbols rq filenames export_file f) of
     Inl e \<Rightarrow> e \<in> {IndexError, AttributeError, KeyError, TypeError}
   | Inr (texts, f', st) \<Rightarrow> kf_inv st \<and> fst ` set texts \<subseteq> set (kf_files st)"
  using man_format.whole_run_ok [of fs contents file_list env v w r s rq filenames export_file f]
  by (auto simp: safe_def msg_inv_def split: sum.splits)

text \<open>
  When only exported (or only other) symbols are printed and no file for the exports is named,
  the exports of the first file are used for all of them, as if that file had been named.
\<close>

theorem first_exports_for_all:
  assumes "filtering rq"
  shows "kfiles_msg fs out rq (fname # filenames) [] f st = kfiles_msg fs out rq (fname # filenames) [fname] f st"
  using assms by (simp add: kfiles_msg_def msg_file_def)

text \<open>Two files, each exporting the function it documents, and the names printed of them.\<close>

definition two_files :: "string \<Rightarrow> node option" where
  "two_files p = (if p = ''a.c'' \<or> p = ''b.c'' then Some (N_file None) else None)"

definition exported_of :: kfiles where
  "exported_of = (kfiles_init (\<lambda>v. None) False False False False)
     \<lparr>kf_results := [(''a.c'', []), (''b.c'', [])], kf_files := [''a.c'', ''b.c''], kf_export_files := [''a.c'', ''b.c''],
      kf_export_table := [(''a.c'', [''f'']), (''b.c'', [''g''])]\<rparr>"

definition export_request :: request where
  "export_request = \<lparr>rq_lineno = False, rq_export = True, rq_internal = False, rq_symbol = [], rq_nosymbol = [], rq_no_doc = False\<rparr>"

theorem first_exports_for_all_witness:
  "(case kfiles_msg two_files rest_symbols export_request [''a.c'', ''b.c''] [] rest_init exported_of of
     Inl e \<Rightarrow> False | Inr (texts, f, st) \<Rightarrow> f_table f = Some [''f''])"
  by (subst first_exports_for_all) code_simp+

end
