(* ===== verification/Kdoc_Directive.thy ===== *)
theory Kdoc_Directive
  imports Files_Props
begin

text \<open>
  \<^verbatim>\<open>sphinx/kerneldoc.py\<close>: the \<^verbatim>\<open>kernel-doc\<close> directive. Its options become the arguments of \<^verbatim>\<open>KernelFiles\<close>, and
  the text printed becomes lines with the place they come from. Arguments of the model: the files a
  pattern matches (\<^verbatim>\<open>glob\<close>), and the lines docutils cuts a text into (\<^verbatim>\<open>string2lines\<close>). The nodes docutils
  makes of the lines are left out.
\<close>

section \<open>Arguments\<close>

function split_ws :: "string \<Rightarrow> string list" where
  "split_ws [] = []"
| "split_ws (c # s) =
     (if is_space c then split_ws s
      else (c # takeWhile (\<lambda>d. \<not> is_space d) s) # split_ws (dropWhile (\<lambda>d. \<not> is_space d) s))"
  by pat_completeness auto
termination
  by (relation "measure length") (simp_all add: le_imp_less_Suc length_dropWhile_le)

definition cmd_word :: "string \<Rightarrow> string" where
  "cmd_word w = (if w = [] \<or> CHR '' '' \<in> set w then [CHR 0x27] @ w @ [CHR 0x27] else w)"

definition cmd_str :: "string list \<Rightarrow> string" where
  "cmd_str cmd = foldl (\<lambda>line w. if line \<noteq> [] then line @ '' '' @ cmd_word w else cmd_word w) [] cmd"

record directive_args =
  da_file_list :: "string list"
  da_export_file :: "string list"
  da_request :: request
  da_cmd :: "string list"

definition clean_name :: "string \<Rightarrow> string" where
  "clean_name i = strip (rstrip_by (\<lambda>c. c = BSL) i)"

text \<open>The names of an option, without empty ones.\<close>

definition clean_names :: "string \<Rightarrow> string list" where
  "clean_names s = filter (\<lambda>i. i \<noteq> []) (map clean_name (split_ws s))"

definition opt :: "(string, string) dict \<Rightarrow> string \<Rightarrow> string" where
  "opt options k = (case dict_get options k of Some v \<Rightarrow> v | None \<Rightarrow> [])"

definition all_request :: request where
  "all_request = \<lparr>rq_lineno = True, rq_export = False, rq_internal = False, rq_symbol = [], rq_nosymbol = [], rq_no_doc = False\<rparr>"

text \<open>The mode: what is printed, the patterns of the files with exports, and the words of the command.\<close>

definition handle_mode :: "(string, string) dict \<Rightarrow> request \<times> string list \<times> string list" where
  "handle_mode options =
     (if dict_has options ''export'' then
        (all_request\<lparr>rq_export := True\<rparr>, split_ws (opt options ''export''), [''-export''])
      else if dict_has options ''internal'' then
        (all_request\<lparr>rq_internal := True\<rparr>, split_ws (opt options ''internal''), [''-internal''])
      else if dict_has options ''doc'' then
        (all_request\<lparr>rq_symbol := [opt options ''doc'']\<rparr>, [], [''-function'', opt options ''doc''])
      else if dict_has options ''identifiers'' then
        (let ids = clean_names (opt options ''identifiers'') in
         if split_ws (opt options ''identifiers'') \<noteq> [] then
           (all_request\<lparr>rq_symbol := ids\<rparr>, [], concat (map (\<lambda>i. [''-function'', i]) ids))
         else (all_request\<lparr>rq_no_doc := True\<rparr>, [], [''-no-doc-sections'']))
      else (all_request, [], []))"

definition export_file_list :: "(string \<Rightarrow> string list) \<Rightarrow> string \<Rightarrow> string list \<Rightarrow> string list" where
  "export_file_list glob srctree patterns =
     concat (map (\<lambda>p. glob (srctree @ ''/'' @ p)) (filter (\<lambda>p. p \<noteq> []) (map clean_name patterns)))"

definition handle_args :: "(string \<Rightarrow> string list) \<Rightarrow> string \<Rightarrow> string \<Rightarrow> (string, string) dict \<Rightarrow> directive_args" where
  "handle_args glob srctree argument options0 =
     (let filename = srctree @ ''/'' @ argument;
          options = (if dict_has options0 ''functions'' then dict_set options0 ''identifiers'' (opt options0 ''functions'') else options0) in
      case handle_mode options of (request, patterns, words) \<Rightarrow>
        (let nosymbol = (if dict_has options ''no-identifiers'' then clean_names (opt options ''no-identifiers'') else []);
             exports = export_file_list glob srctree patterns in
         \<lparr>da_file_list = [filename], da_export_file = exports, da_request = request\<lparr>rq_nosymbol := nosymbol\<rparr>,
          da_cmd = [''tools/docs/kernel-doc'', ''-rst'', ''-enable-lineno''] @ words @ concat (map (\<lambda>i. [''-nosymbol'', i]) nosymbol) @
            concat (map (\<lambda>f. [''-export-file'', f]) exports) @ [filename]\<rparr>))"

section \<open>Lines\<close>

definition RE_LINENO :: regex where "RE_LINENO = re (rx ''^~.~. LINENO ([0-9]+)$'')"

text \<open>One line: a marker sets the offset of the next line, other lines are kept with their offset.\<close>

definition msg_line :: "(string \<times> int) list \<times> int \<Rightarrow> string \<Rightarrow> (string \<times> int) list \<times> int" where
  "msg_line st line = (case st of (result, lineoffset) \<Rightarrow>
     (case re_search RE_LINENO line of
        Some m \<Rightarrow> (result, int (digits_val 0 (m_str m 1)) - 1)
      | None \<Rightarrow> (result @ [(line, lineoffset)], lineoffset + 1)))"

definition parse_msg :: "string list \<Rightarrow> (string \<times> int) list" where
  "parse_msg lines = fst (foldl msg_line ([], 0) lines)"

section \<open>Running\<close>

type_synonym directive_out = "(string \<times> (string \<times> int) list) list"

definition run_kdoc ::
    "(string \<Rightarrow> node option) \<Rightarrow> (string \<Rightarrow> string list option) \<Rightarrow> (string \<Rightarrow> string list) \<Rightarrow> directive_args \<Rightarrow> rest \<times> kfiles \<Rightarrow>
     (directive_out \<times> rest \<times> kfiles) res" where
  "run_kdoc fs contents string2lines da st = (case st of (f, kf) \<Rightarrow>
     rbind (kfiles_parse fs contents (da_file_list da) (da_export_file da) kf) (\<lambda>kf1.
     rbind (kfiles_msg fs rest_symbols (da_request da) (da_file_list da) (da_export_file da) f kf1) (\<lambda>(texts, f2, kf2).
     Inr (map (\<lambda>(fname, out). (fname, parse_msg (string2lines out))) texts, f2, kf2))))"

text \<open>Every exception becomes an error node; otherwise the lines of the files.\<close>

datatype directive_result = Kernel_doc_missing string py_err | Parsed directive_out

definition directive_run ::
    "(string \<Rightarrow> node option) \<Rightarrow> (string \<Rightarrow> string list option) \<Rightarrow> (string \<Rightarrow> string list) \<Rightarrow> (string \<Rightarrow> string list) \<Rightarrow> string \<Rightarrow> string \<Rightarrow>
     (string, string) dict \<Rightarrow> rest \<times> kfiles \<Rightarrow> directive_result" where
  "directive_run fs contents glob string2lines srctree argument options st =
     (let da = handle_args glob srctree argument options in
      case run_kdoc fs contents string2lines da st of
        Inl e \<Rightarrow> Kernel_doc_missing (cmd_str (da_cmd da)) e
      | Inr (out, _) \<Rightarrow> Parsed out)"

section \<open>Modes\<close>

text \<open>
  A directive asks for one thing: its exported symbols, its internal symbols or named symbols,
  never two of them, and line numbers always.
\<close>

theorem directive_one_mode:
  "(let rq = da_request (handle_args glob srctree argument options) in
    rq_lineno rq \<and> \<not> (rq_export rq \<and> rq_internal rq) \<and> (rq_export rq \<or> rq_internal rq \<longrightarrow> rq_symbol rq = []) \<and>
    (rq_no_doc rq \<longrightarrow> \<not> rq_export rq \<and> \<not> rq_internal rq \<and> rq_symbol rq = []))"
  by (auto simp: handle_args_def handle_mode_def all_request_def Let_def)

section \<open>Line numbers\<close>

lemma lineno_prog:
  "RE_LINENO = RSeq (RBol False) (foldr (\<lambda>c r. RSeq (RAtom False (A_chr c)) r) ''.. LINENO ''
     (RSeq (RGroup 1 (RSeq (RAtom False (A_set False [CI_rng (CHR ''0'') (CHR ''9'')])) (RStar (RAtom False (A_set False [CI_rng (CHR ''0'') (CHR ''9'')])))))
       (REol False)))"
  by code_simp

lemma run_chars:
  "run_re (foldr (\<lambda>c r. RSeq (RAtom False (A_chr c)) r) cs r) (p, cs @ s, g) k = run_re r (if cs = [] then p else Some (last cs), s, g) k"
  by (induction cs arbitrary: p) auto

lemma run_star_all:
  assumes "\<forall>c \<in> set ds. atom_ok False a c" and "k (if ds = [] then p else Some (last ds), [], g) = Some y"
  shows "run_re (RStar (RAtom False a)) (p, ds, g) k = Some y"
  using assms
proof (induction ds arbitrary: p)
  case Nil
  then show ?case by (simp add: run_re.simps(8))
next
  case (Cons d ds)
  have "run_re (RStar (RAtom False a)) (Some d, ds, g) k = Some y" using Cons by (cases ds) auto
  then show ?case using Cons.prems by (simp add: run_re.simps(8) [of _ p])
qed

lemma lineno_found: "\<exists>m. re_search RE_LINENO (''.. LINENO '' @ str_nat n) = Some m \<and> m_str m 1 = str_nat n"
proof -
  let ?a = "A_set False [CI_rng (CHR ''0'') (CHR ''9'')]"
  obtain d ds where ds: "str_nat n = d # ds" using str_nat_digits [of n] by (cases "str_nat n") auto
  have "\<forall>c \<in> set (str_nat n). atom_ok False ?a c"
    using str_nat_digits [of n] by (auto simp: is_digit_def Let_def code_of_def)
  then have ok: "atom_ok False ?a d" "\<forall>c \<in> set ds. atom_ok False ?a c" by (simp_all add: ds)
  define k :: "cursor \<Rightarrow> cursor option" where "k = (\<lambda>(p', s', g). Some (p', s', g))"
  let ?g = "no_groups(1 := Some (d # ds))"
  have "run_re (RStar (RAtom False ?a)) (Some d, ds, no_groups)
      (\<lambda>(p', s', g'). run_re (REol False) (p', s', g'(1 := Some (take (length (d # ds) - length s') (d # ds)))) k) =
      Some (if ds = [] then Some d else Some (last ds), [], ?g)"
    by (rule run_star_all [OF ok(2)]) (simp add: at_eol_def k_def)
  then have "run_re RE_LINENO (None, ''.. LINENO '' @ d # ds, no_groups) k = Some (if ds = [] then Some d else Some (last ds), [], ?g)"
    unfolding lineno_prog using ok(1)
    by (simp only: run_re.simps(3,6) at_bol_def run_chars simp_thms if_True) simp
  then have fm: "first_match RE_LINENO False None (''.. LINENO '' @ d # ds) = Some (if ds = [] then Some d else Some (last ds), [], ?g)"
    by (simp add: first_match_code k_def case_prod_unfold)
  then have "re_search RE_LINENO (''.. LINENO '' @ str_nat n) = Some (PyMatch 0 (''.. LINENO '' @ d # ds) ?g)"
    by (simp add: re_search_def ds)
  then show ?thesis by (auto simp: m_str_def m_group_def ds)
qed

text \<open>Without a marker, the offsets count on.\<close>

lemma msg_lines_plain:
  "\<forall>l \<in> set ls. re_search RE_LINENO l = None \<Longrightarrow>
   foldl msg_line (res, i) ls = (res @ zip ls (map (\<lambda>j. i + int j) [0..<length ls]), i + int (length ls))"
proof (induction ls arbitrary: res i)
  case (Cons l ls)
  have "map (\<lambda>j. i + int j) [0..<length (l # ls)] = i # map (\<lambda>j. (i + 1) + int j) [0..<length ls]"
    by (simp add: upt_conv_Cons map_Suc_upt [symmetric] del: upt_Suc)
  then show ?case using Cons by (simp add: msg_line_def del: upt_Suc)
qed simp

text \<open>
  C38. The line numbers survive the way to Sphinx: the lines after the marker that \<^verbatim>\<open>print_lineno\<close> prints
  for a line of the source are attributed to that line and the lines after it, and the marker
  itself is taken out.
\<close>

theorem lineno_roundtrip:
  assumes "\<forall>l \<in> set ls. re_search RE_LINENO l = None"
  shows "parse_msg (before @ (''.. LINENO '' @ str_nat (ln + 1)) # ls) =
    parse_msg before @ zip ls (map (\<lambda>j. int ln + int j) [0..<length ls])"
proof -
  obtain res i where b: "foldl msg_line ([], 0) before = (res, i)" by fastforce
  obtain m where m: "re_search RE_LINENO (''.. LINENO '' @ str_nat (ln + 1)) = Some m" "m_str m 1 = str_nat (ln + 1)"
    using lineno_found by blast
  have "msg_line (res, i) (''.. LINENO '' @ str_nat (ln + 1)) = (res, int ln)"
    unfolding msg_line_def prod.case m(1) option.case m(2) digits_str_nat by simp
  then show ?thesis using msg_lines_plain [OF assms, of res "int ln"] by (simp add: parse_msg_def b)
qed

theorem lineno_roundtrip_witness:
  "parse_msg ([''a'', ''.. LINENO '' @ str_nat (41 + 1), ''b'', ''c'']) = [(''a'', 0), (''b'', 41), (''c'', 42)]"
proof -
  have "\<forall>l \<in> set [''b'', ''c'']. re_search RE_LINENO l = None" by code_simp
  from lineno_roundtrip [OF this, of "[''a'']" 41]
  have "parse_msg ([''a''] @ (''.. LINENO '' @ str_nat (41 + 1)) # [''b'', ''c'']) =
      parse_msg [''a''] @ zip [''b'', ''c''] (map (\<lambda>j. int 41 + int j) [0..<length [''b'', ''c'']])" .
  moreover have "parse_msg [''a''] = [(''a'', 0)]" by code_simp
  ultimately show ?thesis by (simp add: upt_rec)
qed

section \<open>Exports\<close>

lemma parse_file_exports:
  "parse_file contents g st = Inr st' \<Longrightarrow> set (kf_export_files st') \<subseteq> insert g (set (kf_export_files st))"
  by (auto simp: parse_file_def rbind_Inr_iff split: if_splits)

lemma parse_file_errors: "parse_file contents g st = Inl e \<Longrightarrow> e \<in> {IndexError, AttributeError}"
  by (auto simp: parse_file_def rbind_Inl_iff split: if_splits dest!: parse_error)

text \<open>
  A directive that names a file for the exports fails whenever the exports of that file are not
  known yet: it ends in the error node, with \<open>TypeError\<close> or the exception of its own source.
\<close>

theorem directive_export_file_fails:
  assumes "dict_get options ''export'' = Some pat" and "split_ws pat = [p]" and "clean_name p \<noteq> []"
    and "glob (srctree @ ''/'' @ clean_name p) = [f]" and "fs f = Some (N_file c)"
    and "kf_srctree kf = None" and "f \<notin> set (kf_export_files kf)" and "f \<noteq> srctree @ ''/'' @ argument"
    and "fs (srctree @ ''/'' @ argument) = Some (N_file c')"
  shows "\<exists>cmd e. directive_run fs contents glob string2lines srctree argument options (rst, kf) = Kernel_doc_missing cmd e \<and>
    e \<in> {TypeError, IndexError, AttributeError}"
proof -
  let ?da = "handle_args glob srctree argument options" and ?src = "srctree @ ''/'' @ argument"
  have has: "dict_get (if dict_has options ''functions'' then dict_set options ''identifiers'' (opt options ''functions'') else options) ''export'' = Some pat"
    using assms(1) by (simp add: dict_set_get)
  then have da: "da_file_list ?da = [?src]" "da_export_file ?da = [f]"
    using assms(2-4) by (simp_all add: handle_args_def handle_mode_def dict_has_def opt_def export_file_list_def Let_def)
  have "\<exists>e \<in> {TypeError, IndexError, AttributeError}. kfiles_parse fs contents [?src] [f] kf = Inl e"
  proof (cases "parse_file contents ?src kf")
    case (Inl e)
    then show ?thesis using parse_file_errors [OF Inl] assms(6,9)
      by (auto simp: kfiles_parse_def parse_files_def glob_one_def glob_step_def)
  next
    case (Inr kf1)
    then have "f \<notin> set (kf_export_files kf1)" using parse_file_exports [OF Inr] assms(7,8) by blast
    then show ?thesis using Inr assms(5,6,9)
      by (simp add: kfiles_parse_def parse_files_def glob_one_def glob_step_def process_export_file_def)
  qed
  then show ?thesis by (auto simp: directive_run_def run_kdoc_def Let_def da)
qed

definition sample_fs :: "string \<Rightarrow> node option" where
  "sample_fs p = (if p = ''./a.h'' \<or> p = ''./a.c'' then Some (N_file None) else None)"

theorem directive_export_file_fails_witness:
  "\<exists>cmd e. directive_run sample_fs (\<lambda>p. Some []) (\<lambda>p. [p]) (\<lambda>t. [t]) ''.'' ''a.h'' [(''export'', ''a.c'')]
     (rest_init, kfiles_init (\<lambda>v. None) False False False False) = Kernel_doc_missing cmd e \<and>
     e \<in> {TypeError, IndexError, AttributeError}"
proof (rule directive_export_file_fails [where pat = "''a.c''" and p = "''a.c''" and f = "''./a.c''" and c = None and c' = None])
  show "split_ws ''a.c'' = [''a.c'']" by code_simp
  show "clean_name ''a.c'' \<noteq> []" by code_simp
  show "[''.'' @ ''/'' @ clean_name ''a.c''] = [''./a.c'']" by code_simp
qed (simp_all add: dict_get_def sample_fs_def kfiles_init_def)

end
