(* ===== verification/Displays.thy ===== *)
theory Displays
  imports Kdoc_Directive Kdoc_Files Rest_Format Man_Format C_Match
begin

text \<open>
  How objects are shown and set up: the texts of \<^verbatim>\<open>__repr__\<close>, the names of the states, the options of
  the Sphinx directive and the state it shares between the directives of a build.
\<close>

section \<open>Regular expressions\<close>

definition flag_names :: "re_flags \<Rightarrow> string list" where
  "flag_names fl = (if fl_i fl then [''re.I''] else []) @ (if fl_m fl then [''re.M''] else []) @ (if fl_s fl then [''re.S''] else [])"

text \<open>A text in pieces of at most \<open>n\<close> characters.\<close>

function chunks :: "nat \<Rightarrow> string \<Rightarrow> string list" where
  "chunks n s = (if s = [] \<or> n = 0 then [] else take n s # chunks n (drop n s))"
  by auto
termination by (relation "measure (\<lambda>(n, s). length s)") auto

declare chunks.simps [simp del]

definition repr_pattern :: "string \<Rightarrow> string" where
  "repr_pattern pat = concat (map (\<lambda>c. ''\"'' @ c @ ''\" '') (chunks 60 pat))"

definition kern_re_repr :: "kern_re \<Rightarrow> string" where
  "kern_re_repr k =
     (let flags_name = join '' | '' (flag_names (c_flags (kr_regex k))); pattern = repr_pattern (c_pattern (kr_regex k)) in
      if flags_name \<noteq> [] then ''KernRe('' @ pattern @ '', '' @ flags_name @ '')'' else ''KernRe('' @ pattern @ '')'')"

lemma chunks_concat: "0 < n \<Longrightarrow> concat (chunks n s) = s \<and> (\<forall>c \<in> set (chunks n s). length c \<le> n \<and> c \<noteq> [])"
proof (induction n s rule: chunks.induct)
  case (1 n s)
  then show ?case by (cases "s = []") (auto simp: chunks.simps [of n s] chunks.simps [of n "[]"])
qed

section \<open>Tokens and items\<close>

definition level_repr :: "level \<Rightarrow> string" where
  "level_repr l = (case l of (a, b, c) \<Rightarrow> ''('' @ join '', '' (map str_nat [a, b, c]) @ '')'')"

definition token_repr :: "ctoken \<Rightarrow> string" where
  "token_repr t = ''CToken(CToken.'' @ to_name (tk_kind t) @ '', \"'' @ tk_value t @ ''\", '' @ str_nat (tk_pos t) @ '', '' @
     level_repr (tk_level t) @ '')''"

text \<open>The pattern is the one \<^verbatim>\<open>__init__\<close> makes of its argument.\<close>

definition cmatch_repr :: "string \<Rightarrow> string" where
  "cmatch_repr regex = ''CMatch(\"'' @ ''^'' @ regex @ rx ''~b'' @ ''\")''"

definition item_getitem :: "kdoc_item \<Rightarrow> string \<Rightarrow> pyval" where
  "item_getitem it key = item_get it key V_none"

definition item_repr :: "kdoc_item \<Rightarrow> string" where
  "item_repr it = ''KdocItem('' @ it_name it @ '', '' @ it_fname it @ '', '' @ it_type it @ '', '' @ str_int (it_start_line it) @ '')''"

section \<open>States\<close>

definition state_name :: "pstate \<Rightarrow> string" where
  "state_name s = (case s of
      S_NORMAL \<Rightarrow> ''NORMAL'' | S_NAME \<Rightarrow> ''NAME'' | S_DECLARATION \<Rightarrow> ''DECLARATION'' | S_BODY \<Rightarrow> ''BODY''
    | S_SPECIAL_SECTION \<Rightarrow> ''SPECIAL_SECTION'' | S_PROTO \<Rightarrow> ''PROTO'' | S_DOCBLOCK \<Rightarrow> ''DOCBLOCK'' | S_INLINE_NAME \<Rightarrow> ''INLINE_NAME''
    | S_INLINE_TEXT \<Rightarrow> ''INLINE_TEXT'')"

section \<open>One item through the style of a run\<close>

definition out_msg ::
    "'f fmt_scheme methods \<Rightarrow> string \<Rightarrow> string \<Rightarrow> kdoc_item \<Rightarrow> 'f fmt_scheme \<Rightarrow> (string option \<times> 'f fmt_scheme) res" where
  "out_msg style fname name arg f = msg style fname name arg f"

section \<open>The directive in a build\<close>

text \<open>
  The options of the directive and what is made of their arguments: \<^verbatim>\<open>unchanged\<close> takes a missing one
  as the empty text, \<^verbatim>\<open>unchanged_required\<close> raises \<open>ValueError\<close>.
\<close>

definition option_spec :: "(string \<times> (string option \<Rightarrow> string res)) list" where
  "option_spec =
     (let unchanged = (\<lambda>x. Inr (case x of Some s \<Rightarrow> s | None \<Rightarrow> []));
          unchanged_required = (\<lambda>x. case x of Some s \<Rightarrow> Inr s | None \<Rightarrow> Inl ValueError) in
      [(''doc'', unchanged_required), (''export'', unchanged), (''internal'', unchanged), (''identifiers'', unchanged),
       (''no-identifiers'', unchanged), (''functions'', unchanged)])"

definition setup_kfiles :: "(string \<Rightarrow> string option) \<Rightarrow> rest \<times> kfiles" where
  "setup_kfiles env = (rest_init, kfiles_init env False False False False)"

end
