(* ===== verification/Py_Version.thy ===== *)
theory Py_Version
  imports Kdoc_Files Py_Lines Py_Num "HOL-Library.Product_Lexorder"
begin

text \<open>
  \<^verbatim>\<open>python_version.py\<close>: version numbers, command lines printed with a maximal width, the search for newer
  Python programs and the decision to restart with one. The environment (the path, the programs
  found there and what they print, \<^verbatim>\<open>execv\<close>) is a record.
\<close>

section \<open>Versions\<close>

definition version_part :: "int list \<Rightarrow> string \<Rightarrow> int list res" where
  "version_part acc x = (case int_str x of Some n \<Rightarrow> Inr (acc @ [n]) | None \<Rightarrow> Inl ValueError)"

definition parse_version :: "string \<Rightarrow> int list res" where
  "parse_version version = fold_res version_part [] (split_on (CHR ''.'') version)"

definition ver_str :: "int list \<Rightarrow> string" where
  "ver_str version = join ''.'' (map str_int version)"

section \<open>Command lines\<close>

definition shell_safe :: "char \<Rightarrow> bool" where
  "shell_safe c \<longleftrightarrow> (is_word c \<and> code_of c < 128) \<or> c \<in> set ''@%+=:,./-''"

text \<open>\<^verbatim>\<open>shlex.quote\<close>\<close>

definition quote :: "string \<Rightarrow> string" where
  "quote s =
     (if s = [] then [CHR 0x27, CHR 0x27]
      else if list_all shell_safe s then s
      else [CHR 0x27] @ replace s [CHR 0x27] [CHR 0x27, CHR 0x22, CHR 0x27, CHR 0x22, CHR 0x27] @ [CHR 0x27])"

definition cmd_word_step :: "nat \<Rightarrow> string list \<Rightarrow> string \<Rightarrow> string list" where
  "cmd_word_step max_len cmd_line w0 = (let w = quote w0 in
     if cmd_line \<noteq> [] then
       (if max_len = 0 \<or> length (last cmd_line) + length w < max_len
        then butlast cmd_line @ [last cmd_line @ '' '' @ w]
        else butlast cmd_line @ [last cmd_line @ '' '' @ [BSL], w])
     else [w])"

definition cmd_lines :: "nat \<Rightarrow> string list \<Rightarrow> string list" where
  "cmd_lines max_len cmd = foldl (cmd_word_step max_len) [] cmd"

definition cmd_print :: "nat \<Rightarrow> string list \<Rightarrow> string" where
  "cmd_print max_len cmd = join (NL # ''  '') (cmd_lines max_len cmd)"

section \<open>Other Python programs\<close>

text \<open>
  The path, the names that a glob pattern matches, whether a name is an executable file, what
  \<^verbatim>\<open>--version\<close> prints (or that the program cannot be run), the running version, the name of the script and
  its arguments, and \<^verbatim>\<open>execv\<close>, which does not return or fails with a message.
\<close>

record pyenv =
  pe_path :: "string option"
  pe_glob :: "string \<Rightarrow> string list"
  pe_executable :: "string \<Rightarrow> bool"
  pe_version_of :: "string \<Rightarrow> string option"
  pe_version_info :: "int list"
  pe_script_path :: string
  pe_args :: "string list"
  pe_execv :: "string \<Rightarrow> string list \<Rightarrow> string option"

datatype py_print = P_out string | P_err string

definition RE_VERSION :: regex where "RE_VERSION = re (rx ''(~d+~.~d+~.~d+)'')"

definition get_python_version :: "pyenv \<Rightarrow> string \<Rightarrow> (int list \<times> py_print list) res" where
  "get_python_version env cmd =
     (case pe_version_of env cmd of
        None \<Rightarrow> Inl OSError
      | Some out \<Rightarrow> (let version = strip out in
          case re_search RE_VERSION version of
            Some m \<Rightarrow> rbind (parse_version (m_str m 1)) (\<lambda>v. Inr (v, []))
          | None \<Rightarrow> Inr ([0, 0, 0], [P_out (''Can'' @ [CHR 0x27] @ ''t parse version '' @ version)])))"

definition python_patterns :: "string list" where
  "python_patterns = [''python3.[0-9][0-9]'', ''python3.[0-9]'']"

definition try_python ::
    "pyenv \<Rightarrow> int list \<Rightarrow> (int list \<times> string) list \<times> py_print list \<Rightarrow> string \<Rightarrow> ((int list \<times> string) list \<times> py_print list) res" where
  "try_python env min_version st cmd = (case st of (python_cmd, out) \<Rightarrow>
     if pe_executable env cmd then
       rbind (get_python_version env cmd) (\<lambda>(version, ps).
         Inr (if min_version \<le> version then python_cmd @ [(version, cmd)] else python_cmd, out @ ps))
     else Inr st)"

definition python_candidates :: "pyenv \<Rightarrow> string list" where
  "python_candidates env =
     concat (map (\<lambda>path. concat (map (\<lambda>pattern. pe_glob env (path_join path pattern)) python_patterns))
       (split_on (CHR '':'') (case pe_path env of Some p \<Rightarrow> p | None \<Rightarrow> [])))"

definition find_python :: "pyenv \<Rightarrow> int list \<Rightarrow> ((int list \<times> string) list \<times> py_print list) res" where
  "find_python env min_version =
     rbind (fold_res (try_python env min_version) ([], []) (python_candidates env)) (\<lambda>(python_cmd, out).
     Inr (rev (sort python_cmd), out))"

section \<open>Restarting\<close>

text \<open>How the check ends: it returns, exits with success or with a message, or becomes another program.\<close>

datatype check_end = C_return | C_exit_ok | C_exit string | C_exec string "string list"

definition alternatives :: "pyenv \<Rightarrow> (int list \<times> string) list \<Rightarrow> py_print list" where
  "alternatives env versions =
     P_out ''You could run, instead:'' #
     map (\<lambda>(_, cmd). P_out (indent (cmd_print 80 (cmd # pe_script_path env # pe_args env)) ''  '' @ [NL])) versions"

definition restart :: "pyenv \<Rightarrow> string \<Rightarrow> check_end" where
  "restart env cmd = (let args = cmd # pe_script_path env # pe_args env in
     case pe_execv env cmd args of
       None \<Rightarrow> C_exec cmd args
     | Some e \<Rightarrow> C_exit (''Failed to restart with '' @ cmd @ '': '' @ e))"

definition check_python :: "pyenv \<Rightarrow> int list \<Rightarrow> bool \<Rightarrow> bool \<Rightarrow> bool \<Rightarrow> (py_print list \<times> check_end) res" where
  "check_python env min_version show_alternatives bail_out success_on_error =
     (let cur_ver = take 3 (pe_version_info env); python_ver = ver_str cur_ver in
      if min_version \<le> cur_ver then Inr ([], C_return)
      else rbind (find_python env min_version) (\<lambda>(available_versions, out).
        case available_versions of
          [] \<Rightarrow> Inr (out @
             [P_out (''ERROR: Python version '' @ python_ver @ '' is not supported anymore'' @ [NL]),
              P_out (''       Can'' @ [CHR 0x27] @ ''t find a new version. This script may fail'')], C_return)
        | (_, new_python_cmd) # _ \<Rightarrow>
            (let out1 = out @ (if show_alternatives then alternatives env available_versions else []);
                 msg = ''Python '' @ python_ver @ '' not supported. Bailing out'' in
             if bail_out then
               (if success_on_error then Inr (out1 @ [P_err msg], C_exit_ok) else Inr (out1, C_exit msg))
             else Inr (out1 @ [P_out (''Python '' @ python_ver @ '' not supported. Changing to '' @ new_python_cmd)],
                       restart env new_python_cmd))))"

section \<open>Versions are read as they are printed\<close>

lemma int_str_int: "int_str (str_int i) = Some i"
proof (cases "i < 0")
  case True
  let ?s = "str_nat (nat (- i))"
  have d: "\<forall>c \<in> set ?s. is_digit c" and ne: "?s \<noteq> []" using str_nat_digits [of "nat (- i)"] by blast+
  have "\<not> is_space (CHR ''-'')" by code_simp
  then have st: "strip (CHR ''-'' # ?s) = CHR ''-'' # ?s"
    by (intro strip_digits) (use d digits_ascii in auto)
  have "filter is_digit ?s = ?s" using d by simp
  then show ?thesis using True
    unfolding str_int_def int_str_def Let_def
    by (simp add: st startswith_def int_digits_all [OF ne d] digits_str_nat)
qed (simp add: str_int_def int_str_nat)

lemma str_int_no_dot: "CHR ''.'' \<notin> set (str_int i)"
proof -
  have "CHR ''.'' \<notin> set (str_nat n)" for n using str_nat_digits [of n] digits_ascii by blast
  then show ?thesis by (simp add: str_int_def)
qed

lemma version_parts: "fold_res version_part acc (map str_int v) = Inr (acc @ v)"
  by (induction v arbitrary: acc) (simp_all add: version_part_def int_str_int)

text \<open>
  Parsing a version undoes printing it, for every version with at least one number; the empty one is
  not read back.
\<close>

lemma version_reads_back:
  "parse_version (ver_str v) = (if v = [] then Inl ValueError else Inr v)"
proof (cases "v = []")
  case True
  have "parse_version (ver_str []) = Inl ValueError" by code_simp
  then show ?thesis using True by simp
next
  case False
  then have "split_on (CHR ''.'') (ver_str v) = map str_int v"
    unfolding ver_str_def by (intro split_join) (simp_all add: str_int_no_dot)
  then show ?thesis using False by (simp add: parse_version_def version_parts)
qed

section \<open>A shell reads the command line back\<close>

text \<open>
  How a shell cuts a line into words: blanks separate them, quotes group, a backslash before a
  newline joins two lines. Other characters the shell gives a meaning to are refused.
\<close>

datatype sh_mode = Sh_plain | Sh_single | Sh_double

definition word_so_far :: "string option \<Rightarrow> string" where
  "word_so_far cur = (case cur of None \<Rightarrow> [] | Some w \<Rightarrow> w)"

fun sh_words :: "sh_mode \<Rightarrow> string option \<Rightarrow> string \<Rightarrow> string list option" where
  "sh_words m cur [] = (if m = Sh_plain then Some (case cur of None \<Rightarrow> [] | Some w \<Rightarrow> [w]) else None)"
| "sh_words Sh_plain cur (c # s) =
     (if c = CHR '' '' then map_option (\<lambda>ws. (case cur of None \<Rightarrow> ws | Some w \<Rightarrow> w # ws)) (sh_words Sh_plain None s)
      else if c = CHR 0x27 then sh_words Sh_single (Some (word_so_far cur)) s
      else if c = CHR 0x22 then sh_words Sh_double (Some (word_so_far cur)) s
      else if c = BSL \<and> startswith s [NL] then sh_words Sh_plain cur (drop 1 s)
      else if shell_safe c then sh_words Sh_plain (Some (word_so_far cur @ [c])) s
      else None)"
| "sh_words Sh_single cur (c # s) =
     (if c = CHR 0x27 then sh_words Sh_plain cur s else sh_words Sh_single (Some (word_so_far cur @ [c])) s)"
| "sh_words Sh_double cur (c # s) =
     (if c = CHR 0x22 then sh_words Sh_plain cur s
      else if c \<in> set (''$`'' @ [BSL]) then None
      else sh_words Sh_double (Some (word_so_far cur @ [c])) s)"

lemma word_so_far_simps [simp]: "word_so_far None = []" "word_so_far (Some w) = w"
  by (simp_all add: word_so_far_def)

lemma shell_safe_plain: "shell_safe c \<Longrightarrow> c \<noteq> CHR '' '' \<and> c \<noteq> CHR 0x27 \<and> c \<noteq> CHR 0x22 \<and> c \<noteq> BSL"
  by (auto simp: shell_safe_def is_word_def code_of_def)

lemma sh_safe_word: "list_all shell_safe w \<Longrightarrow> sh_words Sh_plain (Some v) (w @ s) = sh_words Sh_plain (Some (v @ w)) s"
proof (induction w arbitrary: v)
  case (Cons c w)
  then show ?case using shell_safe_plain [of c] by simp
qed simp

lemma replace_quote:
  "replace (c # s) [q] new = (if c = q then new else [c]) @ replace s [q] new" "replace [] [q] new = []"
  by (simp_all add: replace_def startswith_def)

lemma sh_quoted_word:
  "sh_words Sh_single (Some v) (replace w [CHR 0x27] [CHR 0x27, CHR 0x22, CHR 0x27, CHR 0x22, CHR 0x27] @ CHR 0x27 # s) =
   sh_words Sh_plain (Some (v @ w)) s"
  by (induction w arbitrary: v) (simp_all add: replace_quote)

lemma sh_quote: "sh_words Sh_plain None (quote w @ s) = sh_words Sh_plain (Some w) s"
proof -
  consider "w = []" | "w \<noteq> []" "list_all shell_safe w" | "w \<noteq> []" "\<not> list_all shell_safe w" by blast
  then show ?thesis
  proof cases
    case 1
    then show ?thesis by (simp add: quote_def)
  next
    case 2
    then obtain c u where w: "w = c # u" "shell_safe c" "list_all shell_safe u" by (cases w) auto
    then show ?thesis using 2 shell_safe_plain [of c] sh_safe_word [of u "[c]" s] by (simp add: quote_def)
  next
    case 3
    then show ?thesis using sh_quoted_word [of "[]" w s] by (simp add: quote_def)
  qed
qed

text \<open>A printed command, read so far: all its words but the last are complete.\<close>

definition reads :: "string \<Rightarrow> string list \<Rightarrow> bool" where
  "reads t ws \<longleftrightarrow> ws \<noteq> [] \<and>
     (\<forall>s. sh_words Sh_plain None (t @ s) = map_option ((@) (butlast ws)) (sh_words Sh_plain (Some (last ws)) s))"

lemma reads_blank: "reads t ws \<Longrightarrow> reads (t @ '' '' @ quote w) (ws @ [w])"
  unfolding reads_def by (auto simp: sh_quote option.map_comp o_def fun_eq_iff)
    (metis (no_types, lifting) append_butlast_last_id append_assoc append_Cons append_Nil map_option_cong)

lemma reads_newline: "reads t ws \<Longrightarrow> reads (t @ '' '' @ BSL # NL # ''  '' @ quote w) (ws @ [w])"
  unfolding reads_def by (auto simp: sh_quote startswith_def option.map_comp o_def fun_eq_iff)
    (metis (no_types, lifting) append_butlast_last_id append_assoc append_Cons append_Nil map_option_cong)

lemma join_snoc: "ls \<noteq> [] \<Longrightarrow> join sep (ls @ [l]) = join sep ls @ sep @ l"
  by (induction sep ls rule: join.induct) simp_all

lemma join_last: "ls \<noteq> [] \<Longrightarrow> join sep (butlast ls @ [last ls @ t]) = join sep ls @ t"
proof (induction ls rule: rev_induct)
  case (snoc l ls)
  then show ?case by (cases "ls = []") (simp_all add: join_snoc)
qed simp

lemma cmd_word_reads:
  assumes "reads (join (NL # ''  '') ls) ws" and "ls \<noteq> []"
  shows "reads (join (NL # ''  '') (cmd_word_step max_len ls w)) (ws @ [w])"
proof (cases "max_len = 0 \<or> length (last ls) + length (quote w) < max_len")
  case True
  then have "join (NL # ''  '') (cmd_word_step max_len ls w) = join (NL # ''  '') ls @ '' '' @ quote w"
    using assms(2) by (simp add: cmd_word_step_def join_last)
  then show ?thesis using reads_blank [OF assms(1)] by simp
next
  case False
  let ?sep = "NL # ''  ''" and ?l = "butlast ls @ [last ls @ '' '' @ [BSL]]"
  have "cmd_word_step max_len ls w = ?l @ [quote w]"
    using False assms(2) by (simp add: cmd_word_step_def)
  moreover have "join ?sep (?l @ [quote w]) = join ?sep ?l @ ?sep @ quote w" by (rule join_snoc) simp
  moreover have "join ?sep ?l = join ?sep ls @ '' '' @ [BSL]" by (rule join_last [OF assms(2)])
  ultimately have "join ?sep (cmd_word_step max_len ls w) = join ?sep ls @ '' '' @ BSL # NL # ''  '' @ quote w" by simp
  then show ?thesis using reads_newline [OF assms(1)] by simp
qed

lemma cmd_word_step_ne: "cmd_word_step max_len ls w \<noteq> []"
  by (simp add: cmd_word_step_def Let_def)

lemma cmd_lines_reads:
  "reads (join (NL # ''  '') ls) ws \<Longrightarrow> ls \<noteq> [] \<Longrightarrow> reads (join (NL # ''  '') (foldl (cmd_word_step max_len) ls cmd)) (ws @ cmd)"
proof (induction cmd arbitrary: ls ws)
  case (Cons w cmd)
  from Cons.IH [OF cmd_word_reads [OF Cons.prems] cmd_word_step_ne] show ?case by simp
qed simp

text \<open>
  C12. A shell that reads a printed command line, whatever its words and its width, gets the words of the
  command.
\<close>

theorem cmd_print_roundtrip: "sh_words Sh_plain None (cmd_print max_len cmd) = Some cmd"
proof (cases cmd)
  case Nil
  then show ?thesis by (simp add: cmd_print_def cmd_lines_def)
next
  case (Cons w ws)
  have "reads (quote w) [w]" by (simp add: reads_def sh_quote append_Nil [abs_def] option.map_ident)
  then have "reads (join (NL # ''  '') [quote w]) [w]" by simp
  from cmd_lines_reads [OF this, of max_len ws] have "reads (cmd_print max_len cmd) cmd"
    by (simp add: Cons cmd_print_def cmd_lines_def cmd_word_step_def Let_def)
  then have "sh_words Sh_plain None (cmd_print max_len cmd @ []) = map_option ((@) (butlast cmd)) (sh_words Sh_plain (Some (last cmd)) [])"
    unfolding reads_def by blast
  then show ?thesis by (simp add: Cons)
qed

text \<open>
  No line of a printed command is longer than two characters over the width (the blank and the
  backslash are not counted), unless it holds a single word that is.
\<close>

definition line_fits :: "nat \<Rightarrow> string list \<Rightarrow> string \<Rightarrow> bool" where
  "line_fits max_len cmd l \<longleftrightarrow> length l \<le> max_len + 2 \<or> (\<exists>w \<in> set cmd. l = quote w \<or> l = quote w @ '' '' @ [BSL])"

definition last_fits :: "nat \<Rightarrow> string list \<Rightarrow> string \<Rightarrow> bool" where
  "last_fits max_len cmd l \<longleftrightarrow> length l \<le> max_len \<or> (\<exists>w \<in> set cmd. l = quote w)"

lemma cmd_word_fits:
  assumes "max_len \<noteq> 0" and "w \<in> set cmd" and "list_all (line_fits max_len cmd) (butlast ls)" and "ls \<noteq> [] \<Longrightarrow> last_fits max_len cmd (last ls)"
  shows "list_all (line_fits max_len cmd) (butlast (cmd_word_step max_len ls w)) \<and> last_fits max_len cmd (last (cmd_word_step max_len ls w))"
proof (cases "ls = []")
  case True
  then show ?thesis using assms(2) by (auto simp: cmd_word_step_def Let_def last_fits_def)
next
  case False
  have "line_fits max_len cmd (last ls @ '' '' @ [BSL])"
    using assms(4) [OF False] by (auto simp: line_fits_def last_fits_def)
  then show ?thesis using False assms(1-3) by (auto simp: cmd_word_step_def Let_def last_fits_def butlast_append)
qed

lemma cmd_lines_fits:
  "max_len \<noteq> 0 \<Longrightarrow> set ws \<subseteq> set cmd \<Longrightarrow> list_all (line_fits max_len cmd) (butlast ls) \<Longrightarrow> (ls \<noteq> [] \<Longrightarrow> last_fits max_len cmd (last ls)) \<Longrightarrow>
   list_all (line_fits max_len cmd) (foldl (cmd_word_step max_len) ls ws)"
proof (induction ws arbitrary: ls)
  case Nil
  have "list_all (line_fits max_len cmd) ls" if "ls \<noteq> []"
  proof -
    have "line_fits max_len cmd (last ls)" using Nil.prems(4) [OF that] by (auto simp: line_fits_def last_fits_def)
    moreover have "ls = butlast ls @ [last ls]" using that by simp
    ultimately show ?thesis using Nil.prems(3) by (metis list_all_append list.pred_inject)
  qed
  then show ?case by (cases "ls = []") simp_all
next
  case (Cons w ws)
  then have "w \<in> set cmd" "set ws \<subseteq> set cmd" by auto
  from cmd_word_fits [OF Cons.prems(1) this(1) Cons.prems(3,4)] show ?case
    using Cons.IH [OF Cons.prems(1) \<open>set ws \<subseteq> set cmd\<close>] by simp
qed

theorem cmd_print_width:
  "max_len \<noteq> 0 \<Longrightarrow> list_all (line_fits max_len cmd) (cmd_lines max_len cmd)"
  using cmd_lines_fits [of max_len cmd cmd "[]"] by (simp add: cmd_lines_def)

theorem cmd_print_width_witness:
  "list_all (line_fits 10 [''abcd'', ''efgh'', ''ij'']) (cmd_lines 10 [''abcd'', ''efgh'', ''ij'']) \<and>
   cmd_lines 10 [''abcd'', ''efgh'', ''ij''] = [''abcd efgh '' @ [BSL], ''ij''] \<and> length (''abcd efgh '' @ [BSL]) = 11"
  using cmd_print_width [of 10 "[''abcd'', ''efgh'', ''ij'']"] by (simp, code_simp)

section \<open>The newest program is chosen\<close>

text \<open>A program of the path with a version: it is executable and reports that version.\<close>

definition offers :: "pyenv \<Rightarrow> string \<Rightarrow> int list \<Rightarrow> bool" where
  "offers env cmd v \<longleftrightarrow> cmd \<in> set (python_candidates env) \<and> pe_executable env cmd \<and> (\<exists>ps. get_python_version env cmd = Inr (v, ps))"

lemma try_python_set:
  assumes "try_python env mv (acc, out) cmd = Inr (acc', out')"
  shows "set acc' = set acc \<union> {(v, c). c = cmd \<and> pe_executable env cmd \<and> mv \<le> v \<and> (\<exists>ps. get_python_version env cmd = Inr (v, ps))}"
  using assms by (cases "get_python_version env cmd") (auto simp: try_python_def split: if_splits)

lemma fold_try_set:
  "fold_res (try_python env mv) (acc, out) cmds = Inr (acc', out') \<Longrightarrow>
   set acc' = set acc \<union> {(v, c). c \<in> set cmds \<and> pe_executable env c \<and> mv \<le> v \<and> (\<exists>ps. get_python_version env c = Inr (v, ps))}"
proof (induction cmds arbitrary: acc out)
  case (Cons cmd cmds)
  then obtain a o1 where 1: "try_python env mv (acc, out) cmd = Inr (a, o1)" "fold_res (try_python env mv) (a, o1) cmds = Inr (acc', out')"
    by (auto simp: rbind_Inr_iff)
  show ?case unfolding Cons.IH [OF 1(2)] try_python_set [OF 1(1)] by auto
qed simp

text \<open>
  The programs found are exactly those on the path that report at least the version asked for, the
  newest first.
\<close>

lemma find_python_exact:
  "find_python env mv = Inr (vs, out) \<Longrightarrow> sorted (rev vs) \<and> set vs = {(v, cmd). offers env cmd v \<and> mv \<le> v}"
  by (auto simp: find_python_def offers_def rbind_Inr_iff dest!: fold_try_set)

text \<open>
  C35. When the check replaces the running program, the running version is too old, and the program
  started is on the path, reports at least the version asked for, and no program on the path reports
  a newer one. It is started on the same script with the same arguments.
\<close>

theorem check_python_newest:
  assumes "check_python env mv show_alternatives bail_out success_on_error = Inr (out, C_exec cmd args)"
  shows "\<not> mv \<le> take 3 (pe_version_info env) \<and> \<not> bail_out \<and> args = cmd # pe_script_path env # pe_args env \<and>
    (\<exists>v. offers env cmd v \<and> mv \<le> v \<and> (\<forall>c v'. offers env c v' \<longrightarrow> v' \<le> v))"
proof -
  from assms obtain vs o1 where f: "find_python env mv = Inr (vs, o1)" and old: "\<not> mv \<le> take 3 (pe_version_info env)"
    by (cases "find_python env mv") (auto simp: check_python_def Let_def split: if_splits)
  from assms f old obtain v rest where vs: "vs = (v, cmd) # rest" and r: "\<not> bail_out" "restart env cmd = C_exec cmd args"
    by (auto simp: check_python_def Let_def restart_def split: if_splits list.splits option.splits)
  have srt: "sorted (rev vs)" and st: "set vs = {(v, cmd). offers env cmd v \<and> mv \<le> v}"
    using find_python_exact [OF f] by blast+
  have best: "v' \<le> v" if "offers env c v'" for c v'
  proof (cases "mv \<le> v'")
    case True
    then have "(v', c) \<in> set vs" using st that by blast
    moreover have "\<forall>x \<in> set rest. x \<le> (v, cmd)" using srt by (auto simp: vs sorted_append)
    ultimately have "(v', c) \<le> (v, cmd)" unfolding vs by auto
    then show ?thesis by (auto simp: less_eq_prod_def)
  next
    case False
    have "mv \<le> v" using st vs by auto
    then show ?thesis using False by simp
  qed
  have "offers env cmd v \<and> mv \<le> v" using st vs by auto
  moreover have "args = cmd # pe_script_path env # pe_args env"
    using r(2) by (auto simp: restart_def Let_def split: option.splits)
  ultimately show ?thesis using old r(1) best by blast
qed

definition sample_env :: pyenv where
  "sample_env = \<lparr>pe_path = Some ''/usr/bin'',
     pe_glob = (\<lambda>p. if p = ''/usr/bin/python3.[0-9][0-9]'' then [''/usr/bin/python3.11'', ''/usr/bin/python3.12''] else []),
     pe_executable = (\<lambda>c. True),
     pe_version_of = (\<lambda>c. if c = ''/usr/bin/python3.11'' then Some ''Python 3.11.4'' else Some ''Python 3.12.1''),
     pe_version_info = [3, 8, 2], pe_script_path = ''/s.py'', pe_args = [''-x''], pe_execv = (\<lambda>c as. None)\<rparr>"

theorem check_python_newest_witness:
  "\<not> [3, 9, 0] \<le> take 3 (pe_version_info sample_env) \<and>
   (\<exists>v. offers sample_env ''/usr/bin/python3.12'' v \<and> [3, 9, 0] \<le> v \<and> (\<forall>c v'. offers sample_env c v' \<longrightarrow> v' \<le> v))"
proof -
  have "\<exists>out. check_python sample_env [3, 9, 0] False False False =
      Inr (out, C_exec ''/usr/bin/python3.12'' [''/usr/bin/python3.12'', ''/s.py'', ''-x''])"
    by (rule exI, code_simp)
  then show ?thesis using check_python_newest [of sample_env "[3, 9, 0]" False False False] by blast
qed

end
