(* ===== verification/Doc_Build.thy ===== *)
theory Doc_Build
  imports Py_Version
begin

text \<open>
  \<^verbatim>\<open>test_doc_build.py\<close>: one virtual environment per Sphinx version, with requirements that build up from
  version to version, and a documentation build in each. The processes that run, the answers at the
  prompt, the environment and the clock are a record; what the script prints, writes and starts is
  collected in its state, which survives an exception.
\<close>

section \<open>Versions and requirements\<close>

type_synonym version = "int list"
type_synonym requirements = "(string, string) dict"

definition DEFAULT_VERSIONS_TO_TEST :: "version list" where
  "DEFAULT_VERSIONS_TO_TEST =
     [[3, 4, 3], [5, 3, 0], [6, 1, 1], [7, 2, 1], [7, 2, 6], [7, 4, 7], [7, 3, 0], [8, 1, 3], [8, 2, 3]]"

definition SPHINX_REQUIREMENTS :: "(version, requirements) dict" where
  "SPHINX_REQUIREMENTS = [
     ([3, 4, 3], [(''docutils'', ''0.16''), (''alabaster'', ''0.7.12''), (''babel'', ''2.8.0''), (''certifi'', ''2020.6.20''),
       (''idna'', ''2.10''), (''imagesize'', ''1.2.0''), (''Jinja2'', ''2.11.2''), (''MarkupSafe'', ''1.1.1''),
       (''packaging'', ''20.4''), (''Pygments'', ''2.6.1''), (''PyYAML'', ''5.1''), (''requests'', ''2.24.0''),
       (''snowballstemmer'', ''2.0.0''), (''sphinxcontrib-applehelp'', ''1.0.2''),
       (''sphinxcontrib-devhelp'', ''1.0.2''), (''sphinxcontrib-htmlhelp'', ''1.0.3''),
       (''sphinxcontrib-jsmath'', ''1.0.1''), (''sphinxcontrib-qthelp'', ''1.0.3''),
       (''sphinxcontrib-serializinghtml'', ''1.1.4''), (''urllib3'', ''1.25.9'')]),
     ([3, 5, 0], [(''alabaster'', ''0.7.13''), (''babel'', ''2.17.0''), (''certifi'', ''2025.6.15''), (''idna'', ''3.10''),
       (''imagesize'', ''1.4.1''), (''packaging'', ''25.0''), (''Pygments'', ''2.8.1''), (''requests'', ''2.32.4''),
       (''snowballstemmer'', ''3.0.1''), (''sphinxcontrib-applehelp'', ''1.0.4''),
       (''sphinxcontrib-htmlhelp'', ''2.0.1''), (''sphinxcontrib-serializinghtml'', ''1.1.5''),
       (''urllib3'', ''2.0.0'')]),
     ([4, 0, 0], [(''PyYAML'', ''5.1'')]),
     ([4, 1, 0], [(''docutils'', ''0.17''), (''Pygments'', ''2.19.1''), (''Jinja2'', ''3.0.3''), (''MarkupSafe'', ''2.0'')]),
     ([4, 3, 0], []),
     ([4, 4, 0], []),
     ([4, 5, 0], [(''docutils'', ''0.17.1'')]),
     ([5, 0, 0], []),
     ([5, 1, 0], []),
     ([5, 2, 0], [(''docutils'', ''0.18''), (''Jinja2'', ''3.1.2''), (''MarkupSafe'', ''2.0''), (''PyYAML'', ''5.3.1'')]),
     ([5, 3, 0], [(''docutils'', ''0.18.1'')]),
     ([6, 0, 0], []),
     ([6, 1, 0], []),
     ([6, 2, 0], [(''PyYAML'', ''5.4.1'')]),
     ([7, 0, 0], []),
     ([7, 1, 0], []),
     ([7, 2, 0], [(''docutils'', ''0.19''), (''PyYAML'', ''6.0.1''), (''sphinxcontrib-serializinghtml'', ''1.1.9'')]),
     ([7, 2, 6], [(''docutils'', ''0.20'')]),
     ([7, 3, 0], [(''alabaster'', ''0.7.14''), (''PyYAML'', ''6.0.1''), (''tomli'', ''2.0.1'')]),
     ([7, 4, 0], [(''docutils'', ''0.20.1''), (''PyYAML'', ''6.0.1'')]),
     ([8, 0, 0], [(''docutils'', ''0.21'')]),
     ([8, 1, 0], [(''docutils'', ''0.21.1''), (''PyYAML'', ''6.0.1''), (''sphinxcontrib-applehelp'', ''1.0.7''),
       (''sphinxcontrib-devhelp'', ''1.0.6''), (''sphinxcontrib-htmlhelp'', ''2.0.6''),
       (''sphinxcontrib-qthelp'', ''1.0.6'')]),
     ([8, 2, 0], [(''docutils'', ''0.21.2''), (''PyYAML'', ''6.0.1''), (''sphinxcontrib-serializinghtml'', ''1.1.9'')])]"

section \<open>The world outside\<close>

text \<open>What a process prints, line by line as it is read, on standard output or not, and its return code.\<close>

record proc =
  p_lines :: "(bool \<times> string) list"
  p_code :: int

text \<open>
  The \<open>n\<close>-th process started (none if it cannot be), the answer at the prompt before a version,
  whether a file can be written, the whole seconds a version takes to build.
\<close>

record world =
  w_exec :: "nat \<Rightarrow> string list \<Rightarrow> proc option"
  w_input :: "string \<Rightarrow> string option"
  w_writable :: "string \<Rightarrow> bool"
  w_environ :: "(string, string) dict"
  w_elapsed :: "string \<Rightarrow> int"
  w_realpath :: "string \<Rightarrow> string"
  w_which :: "string \<Rightarrow> bool"
  w_PYTHON :: string

definition min_python_bin :: "world \<Rightarrow> string" where
  "min_python_bin w =
     (case filter (w_which w) (map (\<lambda>i. ''python3.'' @ str_nat i) [9..<13]) of p # _ \<Rightarrow> p | [] \<Rightarrow> w_PYTHON w)"

definition PYTHON_VER_CHANGES :: "world \<Rightarrow> (version, string) dict" where
  "PYTHON_VER_CHANGES w = [([8, 0, 0], w_PYTHON w)]"

section \<open>State\<close>

datatype build_event =
    B_out string | B_err string | B_log string | B_prompt string | B_run "string list" "(string, string) dict option" | B_write string string

record bstate =
  bs_first_run :: bool
  bs_built_time :: "(string, string) dict"
  bs_calls :: nat
  bs_events :: "build_event list"

type_synonym 'a act = "bstate \<Rightarrow> 'a res \<times> bstate"

definition ret :: "'a \<Rightarrow> 'a act" where
  "ret x = (\<lambda>s. (Inr x, s))"

definition raise :: "py_err \<Rightarrow> 'a act" where
  "raise e = (\<lambda>s. (Inl e, s))"

definition bnd :: "'a act \<Rightarrow> ('a \<Rightarrow> 'b act) \<Rightarrow> 'b act" where
  "bnd m f = (\<lambda>s. case m s of (Inl e, s') \<Rightarrow> (Inl e, s') | (Inr x, s') \<Rightarrow> f x s')"

definition upd :: "(bstate \<Rightarrow> bstate) \<Rightarrow> unit act" where
  "upd f = (\<lambda>s. (Inr (), f s))"

definition emit_ev :: "build_event list \<Rightarrow> unit act" where
  "emit_ev evs = upd (\<lambda>s. s\<lparr>bs_events := bs_events s @ evs\<rparr>)"

section \<open>Commands\<close>

text \<open>\<^verbatim>\<open>AsyncCommands.log\<close>; \<open>fp\<close> says whether there is a log file.\<close>

definition log_events :: "bool \<Rightarrow> string \<Rightarrow> bool \<Rightarrow> bool \<Rightarrow> build_event list" where
  "log_events fp out0 verbose is_info =
     (let out = (if endswith out0 [NL] then butlast out0 else out0) in
      (if verbose then [if is_info then B_out out else B_err out] else []) @
      (if fp then [B_log (out @ [NL])] else []))"

definition ac_log :: "bool \<Rightarrow> string \<Rightarrow> bool \<Rightarrow> unit act" where
  "ac_log fp out verbose = emit_ev (log_events fp out verbose True)"

text \<open>\<^verbatim>\<open>AsyncCommands._read\<close>, of both streams together: every line is logged.\<close>

definition read_events :: "bool \<Rightarrow> bool \<Rightarrow> proc \<Rightarrow> build_event list" where
  "read_events fp verbose p = concat (map (\<lambda>(is_info, line). log_events fp line verbose is_info) (p_lines p))"

definition captured_text :: "bool \<Rightarrow> proc \<Rightarrow> string" where
  "captured_text is_info p = concat (map snd (filter (\<lambda>(i, _). i = is_info) (p_lines p)))"

text \<open>What \<^verbatim>\<open>AsyncCommands.run\<close> returns; \<open>R_output None\<close> is the attribute that is never assigned.\<close>

datatype run_result = R_output "string option" | R_completed int string string

definition start_proc :: "world \<Rightarrow> bool \<Rightarrow> string list \<Rightarrow> (string, string) dict option \<Rightarrow> bool \<Rightarrow> proc act" where
  "start_proc w fp cmd env verbose =
     bnd (ac_log fp (''$ '' @ join '' '' cmd) verbose) (\<lambda>_ s.
       (case w_exec w (bs_calls s) cmd of None \<Rightarrow> Inl OSError | Some p \<Rightarrow> Inr p,
        s\<lparr>bs_calls := bs_calls s + 1, bs_events := bs_events s @ [B_run cmd env]\<rparr>))"

definition ac_run ::
    "world \<Rightarrow> bool \<Rightarrow> string list \<Rightarrow> bool \<Rightarrow> bool \<Rightarrow> (string, string) dict option \<Rightarrow> bool \<Rightarrow> run_result act" where
  "ac_run w fp cmd capture_output check env verbose =
     bnd (start_proc w fp cmd env verbose) (\<lambda>p.
     bnd (emit_ev (read_events fp verbose p)) (\<lambda>_.
       if check \<and> 0 < p_code p then raise CalledProcessError
       else if capture_output then
         (if 0 < p_code p then
            bnd (emit_ev (log_events fp (''Error '' @ str_int (p_code p)) True False)) (\<lambda>_. ret (R_output (Some [])))
          else ret (R_output None))
       else ret (R_completed (p_code p) (captured_text True p) (captured_text False p))))"

section \<open>One version\<close>

record build_args =
  ba_versions :: "version list"
  ba_min_version :: "version option"
  ba_max_version :: "version option"
  ba_full :: bool
  ba_build :: bool
  ba_make_args :: "string list"
  ba_targets :: "string list"
  ba_output :: "string option"
  ba_req_file :: bool
  ba_log :: "string option"
  ba_verbose :: bool
  ba_wait_input :: bool

text \<open>\<^verbatim>\<open>{n:02d}\<close>\<close>

definition two_digits :: "int \<Rightarrow> string" where
  "two_digits n = (if 0 \<le> n \<and> n < 10 then CHR ''0'' # str_int n else str_int n)"

definition time_str :: "int \<Rightarrow> string" where
  "time_str elapsed =
     (let hours = elapsed div 3600; minutes = (elapsed mod 3600) div 60; seconds = (elapsed mod 3600) mod 60 in
      two_digits hours @ '':'' @ two_digits minutes @ '':'' @ two_digits seconds)"

definition confirm :: "world \<Rightarrow> build_args \<Rightarrow> string \<Rightarrow> unit act" where
  "confirm w a ver = (\<lambda>s.
     if \<not> bs_first_run s \<and> ba_wait_input a \<and> ba_build a then
       bnd (emit_ev [B_prompt (''Press Enter to continue or '' @ [CHR 0x27] @ ''a'' @ [CHR 0x27] @ '' to abort: '')]) (\<lambda>_.
         case w_input w ver of
           None \<Rightarrow> raise EOFError
         | Some r \<Rightarrow> if lower_str (strip r) = ''a'' then bnd (emit_ev [B_out ''Aborted.'']) (\<lambda>_. raise SystemExit) else ret ()) s
     else (Inr (), s\<lparr>bs_first_run := False\<rparr>))"

definition install_list :: "requirements \<Rightarrow> string \<Rightarrow> string list" where
  "install_list reqs ver = map (\<lambda>(pkg, verstr). pkg @ ''=='' @ verstr) reqs @ [''Sphinx=='' @ ver]"

definition write_file :: "world \<Rightarrow> string \<Rightarrow> string \<Rightarrow> unit act" where
  "write_file w path content = (if w_writable w path then emit_ev [B_write path content] else raise OSError)"

definition build_env :: "(string, string) dict \<Rightarrow> string \<Rightarrow> string \<Rightarrow> (string, string) dict res" where
  "build_env environ venv_dir bin_dir =
     (case dict_get environ ''PATH'' of
        None \<Rightarrow> Inl KeyError
      | Some path \<Rightarrow>
          (let env = dict_set (dict_set environ ''PATH'' (bin_dir @ '':'' @ path)) ''VIRTUAL_ENV'' venv_dir in
           Inr (if dict_has env ''PYTHONHOME'' then dict_del env ''PYTHONHOME'' else env)))"

definition make_cmd :: "world \<Rightarrow> build_args \<Rightarrow> string \<Rightarrow> string list" where
  "make_cmd w a bin_dir =
     [''make''] @
     (case ba_output a of
        Some (c # cs) \<Rightarrow> [''O='' @ c # cs, ''SPHINXBUILD='' @ w_realpath w (bin_dir @ ''/sphinx-build'')]
      | _ \<Rightarrow> []) @ ba_make_args a @ ba_targets a"

definition build_docs :: "world \<Rightarrow> build_args \<Rightarrow> bool \<Rightarrow> bool \<Rightarrow> string \<Rightarrow> string \<Rightarrow> unit act" where
  "build_docs w a fp verbose ver venv_dir =
     (let bin_dir = path_join venv_dir ''bin'' in
      case build_env (w_environ w) venv_dir bin_dir of
        Inl e \<Rightarrow> raise e
      | Inr env \<Rightarrow>
          bnd (ac_run w fp [''make'', ''cleandocs''] False True (Some env) True) (\<lambda>_.
          bnd (if verbose then ac_log fp (''. '' @ bin_dir @ ''/activate'') True else ret ()) (\<lambda>_.
          bnd (ac_run w fp (make_cmd w a bin_dir) False True (Some env) True) (\<lambda>_.
          bnd (if verbose then ac_log fp ''deactivate'' True else ret ()) (\<lambda>_.
          bnd (upd (\<lambda>s. s\<lparr>bs_built_time := dict_set (bs_built_time s) ver (time_str (w_elapsed w ver))\<rparr>)) (\<lambda>_.
          ac_log fp (''Finished doc build for Sphinx '' @ ver @ ''. Elapsed time: '' @ time_str (w_elapsed w ver)) True))))))"

definition result_stdout :: "run_result \<Rightarrow> string" where
  "result_stdout r = (case r of R_completed _ out _ \<Rightarrow> out | R_output _ \<Rightarrow> [])"

definition handle_version :: "world \<Rightarrow> build_args \<Rightarrow> bool \<Rightarrow> bool \<Rightarrow> version \<Rightarrow> requirements \<Rightarrow> string \<Rightarrow> unit act" where
  "handle_version w a fp verbose cur_ver reqs python_bin =
     (let ver = ver_str cur_ver; venv_dir = ''Sphinx_'' @ ver; pip = path_join venv_dir ''bin/pip'' in
      bnd (confirm w a ver) (\<lambda>_.
      bnd (ac_log fp (NL # ''Sphinx '' @ ver @ '' with '' @ python_bin) True) (\<lambda>_.
      bnd (ac_run w fp [python_bin, ''-m'', ''venv'', venv_dir] False True None verbose) (\<lambda>_.
      bnd (ac_run w fp ([pip, ''install''] @ install_list reqs ver) False True None verbose) (\<lambda>_.
      bnd (ac_run w fp [pip, ''freeze''] False True None False) (\<lambda>result.
      bnd (if ba_req_file a then write_file w (''requirements_'' @ ver @ ''.txt'') (result_stdout result) else ret ()) (\<lambda>_.
      if ba_build a then build_docs w a fp verbose ver venv_dir else ret ())))))))"

section \<open>All versions\<close>

definition given :: "version option \<Rightarrow> (version \<Rightarrow> bool) \<Rightarrow> bool" where
  "given m P = (case m of Some (x # xs) \<Rightarrow> P (x # xs) | _ \<Rightarrow> False)"

definition dict_update :: "('k, 'v) dict \<Rightarrow> ('k, 'v) dict \<Rightarrow> ('k, 'v) dict" where
  "dict_update d new = foldl (\<lambda>d (k, v). dict_set d k v) d new"

fun venv_loop :: "world \<Rightarrow> build_args \<Rightarrow> bool \<Rightarrow> bool \<Rightarrow> requirements \<Rightarrow> string \<Rightarrow> version list \<Rightarrow> unit act" where
  "venv_loop w a fp verbose reqs0 python0 [] = ret ()"
| "venv_loop w a fp verbose reqs0 python0 (cur_ver # vers) =
     (let reqs = (case dict_get SPHINX_REQUIREMENTS cur_ver of Some new_reqs \<Rightarrow> dict_update reqs0 new_reqs | None \<Rightarrow> reqs0);
          python_bin = (case dict_get (PYTHON_VER_CHANGES w) cur_ver of Some p \<Rightarrow> p | None \<Rightarrow> python0) in
      if cur_ver \<notin> set (ba_versions a) then venv_loop w a fp verbose reqs python_bin vers
      else if given (ba_min_version a) (\<lambda>m. cur_ver < m) then venv_loop w a fp verbose reqs python_bin vers
      else if given (ba_max_version a) (\<lambda>m. m < cur_ver) then ret ()
      else bnd (handle_version w a fp verbose cur_ver reqs python_bin) (\<lambda>_. venv_loop w a fp verbose reqs python_bin vers))"

definition all_versions :: "build_args \<Rightarrow> version list" where
  "all_versions a = sort (remdups (dict_keys SPHINX_REQUIREMENTS @ ba_versions a))"

definition summary :: "bool \<Rightarrow> unit act" where
  "summary fp = (\<lambda>s. emit_ev (log_events fp (NL # ''Summary:'') True True @
     concat (map (\<lambda>(ver, t). log_events fp (TAB # ''Sphinx '' @ ver @ '' elapsed time: '' @ t) True True) (sort (bs_built_time s)))) s)"

definition venv_run :: "world \<Rightarrow> build_args \<Rightarrow> unit act" where
  "venv_run w a =
     (let fp = (case ba_log a of Some (c # cs) \<Rightarrow> True | _ \<Rightarrow> False); verbose = ba_verbose a \<or> \<not> fp in
      bnd (if fp \<and> \<not> w_writable w (case ba_log a of Some l \<Rightarrow> l | None \<Rightarrow> []) then raise OSError else ret ()) (\<lambda>_.
      bnd (venv_loop w a fp verbose [] (min_python_bin w) (all_versions a)) (\<lambda>_.
      if ba_build a then summary fp else ret ())))"

definition venv_init :: bstate where
  "venv_init = \<lparr>bs_first_run = True, bs_built_time = [], bs_calls = 0, bs_events = []\<rparr>"

text \<open>\<^verbatim>\<open>main\<close>, after the arguments are parsed.\<close>

definition test_doc_build :: "world \<Rightarrow> build_args \<Rightarrow> unit res \<times> bstate" where
  "test_doc_build w a0 =
     (let a = (if ba_full a0 then a0\<lparr>ba_versions := ba_versions a0 @ dict_keys SPHINX_REQUIREMENTS\<rparr> else a0) in
      venv_run w a venv_init)"

end
