(* ===== verification/Build_Props.thy ===== *)
theory Build_Props
  imports Doc_Build
begin

text \<open>
  The loop over the Sphinx versions follows a plan: which versions, in which order, with which
  requirements and which Python. When no command fails, the plan is carried out to its end.
\<close>

section \<open>The plan\<close>

definition wanted :: "build_args \<Rightarrow> version \<Rightarrow> bool" where
  "wanted a v \<longleftrightarrow> v \<in> set (ba_versions a) \<and> \<not> given (ba_min_version a) (\<lambda>m. v < m) \<and> \<not> given (ba_max_version a) (\<lambda>m. m < v)"

definition planned :: "build_args \<Rightarrow> version list" where
  "planned a = filter (wanted a) (sort (remdups (ba_versions a)))"

definition merged :: "(version \<Rightarrow> bool) \<Rightarrow> requirements" where
  "merged P = foldl dict_update [] (map snd (filter (\<lambda>(u, _). P u) SPHINX_REQUIREMENTS))"

definition python_at :: "world \<Rightarrow> version \<Rightarrow> string" where
  "python_at w v = (if [8, 0, 0] \<le> v then w_PYTHON w else min_python_bin w)"

fun each :: "('a \<Rightarrow> unit act) \<Rightarrow> 'a list \<Rightarrow> unit act" where
  "each f [] = ret ()"
| "each f (x # xs) = bnd (f x) (\<lambda>_. each f xs)"

section \<open>Requirements add up\<close>

lemma requirements_sorted: "sorted (dict_keys SPHINX_REQUIREMENTS)" "distinct (dict_keys SPHINX_REQUIREMENTS)"
  by code_simp+

lemma filter_upto:
  "sorted (map fst T) \<Longrightarrow> distinct (map fst T) \<Longrightarrow>
   filter (\<lambda>(u, _). u \<le> v) T = filter (\<lambda>(u, _). u < v) T @ (case map_of T v of Some n \<Rightarrow> [(v, n)] | None \<Rightarrow> [])"
  for T :: "(version \<times> requirements) list"
proof (induction T)
  case (Cons x T)
  obtain u n where x: "x = (u, n)" by force
  have later: "u < u'" if "(u', n') \<in> set T" for u' n'
    using that Cons.prems by (force simp: x less_le)
  have none: "filter (\<lambda>(u, _). u \<le> v) T = []" "filter (\<lambda>(u, _). u < v) T = []" "u < v \<or> map_of T v = None \<or> u = v" if "v \<le> u"
    using later that by (force simp: filter_empty_conv map_of_eq_None_iff)+
  consider "u < v" | "u = v" | "v < u" by force
  then show ?case
  proof cases
    case 1
    then have "v \<noteq> u" "u \<le> v" by auto
    then show ?thesis using Cons 1 by (simp add: x)
  next
    case 2
    then show ?thesis using none by (simp add: x)
  next
    case 3
    then show ?thesis using none by (auto simp: x)
  qed
qed simp

lemma merged_step:
  "(case dict_get SPHINX_REQUIREMENTS v of Some new \<Rightarrow> dict_update (merged (\<lambda>u. u < v)) new | None \<Rightarrow> merged (\<lambda>u. u < v)) =
   merged (\<lambda>u. u \<le> v)"
  unfolding merged_def dict_get_def filter_upto [OF requirements_sorted [unfolded dict_keys_def]]
  by (simp split: option.split)

lemma merged_cong: "(\<And>u. u \<in> set (dict_keys SPHINX_REQUIREMENTS) \<Longrightarrow> P u = Q u) \<Longrightarrow> merged P = merged Q"
  unfolding merged_def by (rule arg_cong, rule filter_cong) (force simp: dict_keys_def)+

lemma eight_is_key: "[8, 0, 0] \<in> set (dict_keys SPHINX_REQUIREMENTS)"
  by code_simp

section \<open>The loop follows the plan\<close>

lemma keys_before:
  fixes u :: version
  assumes "sorted (v # vs)" and "distinct (v # vs)" and "u \<in> set (v # vs) \<or> (\<forall>v' \<in> set (v # vs). u < v')"
  shows "u \<notin> set (v # vs) \<longleftrightarrow> u < v" "u \<notin> set vs \<longleftrightarrow> u \<le> v"
proof -
  have lt: "v < v'" if "v' \<in> set vs" for v' using that assms(1,2) by (auto simp: less_le)
  consider "u = v" | "u \<in> set vs" | "\<forall>v' \<in> set (v # vs). u < v'" using assms(3) by auto
  then show "u \<notin> set (v # vs) \<longleftrightarrow> u < v" "u \<notin> set vs \<longleftrightarrow> u \<le> v"
    by (cases; use lt assms(2) in fastforce)+
qed

lemma not_over:
  assumes "given (ba_max_version a) (\<lambda>m. m < v)" and "\<forall>v' \<in> set vs. v < v'"
  shows "filter (wanted a) vs = []"
proof -
  obtain m ms where m: "ba_max_version a = Some (m # ms)" "m # ms < v"
    using assms(1) by (auto simp: given_def split: option.splits list.splits)
  have "\<not> wanted a v'" if "v' \<in> set vs" for v'
    using m assms(2) that less_trans [of "m # ms" v v'] by (auto simp: wanted_def given_def)
  then show ?thesis by (auto simp: filter_empty_conv)
qed

lemma loop_plan:
  assumes "sorted vs" and "distinct vs" and "\<forall>u \<in> set (dict_keys SPHINX_REQUIREMENTS). u \<in> set vs \<or> (\<forall>v \<in> set vs. u < v)"
  shows "venv_loop w a fp verbose (merged (\<lambda>u. u \<notin> set vs)) (if [8, 0, 0] \<in> set vs then min_python_bin w else w_PYTHON w) vs =
    each (\<lambda>v. handle_version w a fp verbose v (merged (\<lambda>u. u \<le> v)) (python_at w v)) (filter (wanted a) vs)"
  using assms
proof (induction vs)
  case (Cons v vs)
  define h where "h = (\<lambda>v. handle_version w a fp verbose v (merged (\<lambda>u. u \<le> v)) (python_at w v))"
  have lt: "\<forall>v' \<in> set vs. v < v'" using Cons.prems(1,2) by (auto simp: less_le)
  have keys: "u \<notin> set (v # vs) \<longleftrightarrow> u < v" "u \<notin> set vs \<longleftrightarrow> u \<le> v" if "u \<in> set (dict_keys SPHINX_REQUIREMENTS)" for u
    using keys_before [OF Cons.prems(1,2)] Cons.prems(3) that by blast+
  have old: "merged (\<lambda>u. u \<notin> set (v # vs)) = merged (\<lambda>u. u < v)" by (rule merged_cong) (rule keys(1))
  have new: "merged (\<lambda>u. u \<le> v) = merged (\<lambda>u. u \<notin> set vs)" by (rule merged_cong) (simp only: keys(2))
  have py: "(case dict_get (PYTHON_VER_CHANGES w) v of Some p \<Rightarrow> p
      | None \<Rightarrow> if [8, 0, 0] \<in> set (v # vs) then min_python_bin w else w_PYTHON w) = python_at w v"
    "python_at w v = (if [8, 0, 0] \<in> set vs then min_python_bin w else w_PYTHON w)"
    using keys [OF eight_is_key] by (auto simp: PYTHON_VER_CHANGES_def dict_get_def python_at_def)
  have "\<forall>u \<in> set (dict_keys SPHINX_REQUIREMENTS). u \<in> set vs \<or> (\<forall>v \<in> set vs. u < v)"
    using keys(2) lt by (meson order_le_less_trans)
  then have IH: "venv_loop w a fp verbose (merged (\<lambda>u. u \<le> v)) (python_at w v) vs = each h (filter (wanted a) vs)"
    unfolding new py(2) h_def using Cons.IH Cons.prems(1,2) by simp
  have run: "venv_loop w a fp verbose (merged (\<lambda>u. u \<notin> set (v # vs))) (if [8, 0, 0] \<in> set (v # vs) then min_python_bin w else w_PYTHON w) (v # vs) =
      (if v \<notin> set (ba_versions a) then each h (filter (wanted a) vs)
       else if given (ba_min_version a) (\<lambda>m. v < m) then each h (filter (wanted a) vs)
       else if given (ba_max_version a) (\<lambda>m. m < v) then ret ()
       else bnd (h v) (\<lambda>_. each h (filter (wanted a) vs)))"
    unfolding venv_loop.simps old merged_step py(1) Let_def IH by (simp only: h_def)
  show ?case unfolding run h_def [symmetric] using not_over [OF _ lt, of a] by (simp add: wanted_def [of a v])
qed simp

lemma all_versions_props:
  "sorted (all_versions a)" "distinct (all_versions a)" "set (all_versions a) = set (dict_keys SPHINX_REQUIREMENTS) \<union> set (ba_versions a)"
  by (simp_all add: all_versions_def)

lemma planned_all: "filter (wanted a) (all_versions a) = planned a"
  unfolding planned_def
proof (rule sorted_distinct_set_unique)
  show "set (filter (wanted a) (all_versions a)) = set (filter (wanted a) (sort (remdups (ba_versions a))))"
    by (auto simp: all_versions_props wanted_def)
qed (simp_all add: all_versions_props sorted_filter [of id, simplified])

lemma loop_all:
  "venv_loop w a fp verbose [] (min_python_bin w) (all_versions a) =
   each (\<lambda>v. handle_version w a fp verbose v (merged (\<lambda>u. u \<le> v)) (python_at w v)) (planned a)"
proof -
  have keys: "set (dict_keys SPHINX_REQUIREMENTS) \<subseteq> set (all_versions a)" by (simp add: all_versions_props)
  have "merged (\<lambda>u. u \<notin> set (all_versions a)) = merged (\<lambda>u. False)" by (rule merged_cong) (use keys in blast)
  also have "\<dots> = []" by (simp add: merged_def case_prod_unfold)
  finally have "merged (\<lambda>u. u \<notin> set (all_versions a)) = []" .
  moreover have "[8, 0, 0] \<in> set (all_versions a)" using keys eight_is_key by blast
  moreover have "\<forall>u \<in> set (dict_keys SPHINX_REQUIREMENTS). u \<in> set (all_versions a) \<or> (\<forall>v \<in> set (all_versions a). u < v)"
    using keys by blast
  ultimately show ?thesis using loop_plan [OF all_versions_props(1,2), of a w a fp verbose] by (simp add: planned_all)
qed

text \<open>
  C11. The loop handles exactly the versions asked for, between the bounds, each once and in ascending
  order. A version is handled with the requirements of every earlier version and its own, the newest
  winning, and from version 8 on with the running Python instead of the oldest one.
\<close>

theorem venv_loop_plan:
  "venv_loop w a fp verbose [] (min_python_bin w) (all_versions a) =
   each (\<lambda>v. handle_version w a fp verbose v (merged (\<lambda>u. u \<le> v)) (python_at w v)) (planned a)"
  by (rule loop_all)

section \<open>The newest requirement wins\<close>

lemma dict_update_get: "dict_wf new \<Longrightarrow> dict_get (dict_update d new) k = (case dict_get new k of Some s \<Rightarrow> Some s | None \<Rightarrow> dict_get d k)"
proof (induction new arbitrary: d)
  case (Cons x new)
  obtain k' v where x: "x = (k', v)" by force
  have wf: "dict_wf new" and k': "dict_get new k' = None"
    using Cons.prems by (auto simp: x dict_wf_def dict_get_def dict_keys_def map_of_eq_None_iff)
  have "dict_update d (x # new) = dict_update (dict_set d k' v) new" by (simp add: dict_update_def x)
  then show ?case using Cons.IH [OF wf, of "dict_set d k' v"] k'
    by (auto simp: x dict_get_def dict_set_get [unfolded dict_get_def] split: option.splits)
qed (simp add: dict_update_def dict_get_def)

lemma fold_update_get:
  "\<forall>new \<in> set ds. dict_wf new \<Longrightarrow> dict_get (foldl dict_update d ds) k =
   (case first_some (\<lambda>new. dict_get new k) (rev ds) of Some s \<Rightarrow> Some s | None \<Rightarrow> dict_get d k)"
  by (induction ds arbitrary: d) (auto simp: first_some_append dict_update_get split: option.splits)

lemma requirements_wf: "\<forall>(u, new) \<in> set SPHINX_REQUIREMENTS. dict_wf new"
  by code_simp

text \<open>
  A version is handled with the newest pin of a package: the one of the latest entry of the table,
  up to that version, that names the package.
\<close>

theorem newest_requirement:
  "dict_get (merged (\<lambda>u. u \<le> v)) pkg =
   first_some (\<lambda>(u, new). dict_get new pkg) (rev (filter (\<lambda>(u, _). u \<le> v) SPHINX_REQUIREMENTS))"
proof -
  let ?T = "filter (\<lambda>(u, _). u \<le> v) SPHINX_REQUIREMENTS"
  have "\<forall>new \<in> set (map snd ?T). dict_wf new" using requirements_wf by auto
  from fold_update_get [OF this, of "[]" pkg] show ?thesis
    by (simp add: merged_def rev_map first_some_map case_prod_unfold dict_get_def split: option.splits)
qed

section \<open>A run that no command stops\<close>

text \<open>
  Nothing stands in the way: every process starts and ends without a positive return code, files can
  be written, there is a path, and nobody aborts at the prompt.
\<close>

definition nothing_fails :: "world \<Rightarrow> bool" where
  "nothing_fails w \<longleftrightarrow> (\<forall>n cmd. \<exists>p. w_exec w n cmd = Some p \<and> p_code p \<le> 0) \<and> (\<forall>f. w_writable w f) \<and>
     (\<exists>path. dict_get (w_environ w) ''PATH'' = Some path) \<and> (\<forall>ver. \<exists>r. w_input w ver = Some r \<and> lower_str (strip r) \<noteq> ''a'')"

text \<open>An action that ends without an exception and leaves the recorded times as a function of what they were.\<close>

definition ends_with :: "'a act \<Rightarrow> ((string, string) dict \<Rightarrow> (string, string) dict) \<Rightarrow> bool" where
  "ends_with m g \<longleftrightarrow> (\<forall>s. \<exists>x s'. m s = (Inr x, s') \<and> bs_built_time s' = g (bs_built_time s))"

lemma ends_bnd: "ends_with m g \<Longrightarrow> (\<And>x. ends_with (f x) h) \<Longrightarrow> ends_with (bnd m f) (\<lambda>b. h (g b))"
  unfolding ends_with_def bnd_def by (metis (no_types, lifting) case_prod_conv sum.case(2))

lemma ends_bnd_id: "ends_with m (\<lambda>b. b) \<Longrightarrow> (\<And>x. ends_with (f x) h) \<Longrightarrow> ends_with (bnd m f) h"
  using ends_bnd [of m "\<lambda>b. b" f h] by simp

lemma ends_basic [simp]:
  "ends_with (ret x) (\<lambda>b. b)" "ends_with (emit_ev evs) (\<lambda>b. b)" "ends_with (ac_log fp out verbose) (\<lambda>b. b)" "ends_with (summary fp) (\<lambda>b. b)"
  by (simp_all add: ends_with_def ret_def emit_ev_def upd_def ac_log_def summary_def)

lemma ends_run:
  assumes "nothing_fails w"
  shows "ends_with (ac_run w fp cmd False True env verbose) (\<lambda>b. b)"
  unfolding ends_with_def
proof
  fix s :: bstate
  from assms obtain p where p: "w_exec w (bs_calls s) cmd = Some p" "\<not> 0 < p_code p"
    unfolding nothing_fails_def by (metis linorder_not_less)
  show "\<exists>x s'. ac_run w fp cmd False True env verbose s = (Inr x, s') \<and> bs_built_time s' = bs_built_time s"
    using p by (simp add: ac_run_def start_proc_def bnd_def ac_log_def emit_ev_def upd_def ret_def)
qed

lemma ends_confirm:
  assumes "nothing_fails w"
  shows "ends_with (confirm w a ver) (\<lambda>b. b)"
proof -
  from assms obtain r where r: "w_input w ver = Some r" "lower_str (strip r) \<noteq> ''a''"
    unfolding nothing_fails_def by blast
  show ?thesis unfolding ends_with_def confirm_def r(1) option.case
    using r(2) by (simp add: bnd_def emit_ev_def upd_def ret_def)
qed

lemma ends_write: "nothing_fails w \<Longrightarrow> ends_with (write_file w path content) (\<lambda>b. b)"
  by (simp add: write_file_def nothing_fails_def)

definition record_time :: "world \<Rightarrow> version \<Rightarrow> (string, string) dict \<Rightarrow> (string, string) dict" where
  "record_time w v b = dict_set b (ver_str v) (time_str (w_elapsed w (ver_str v)))"

lemma ends_build:
  assumes "nothing_fails w"
  shows "ends_with (build_docs w a fp verbose (ver_str v) dir) (record_time w v)"
proof -
  obtain path where "dict_get (w_environ w) ''PATH'' = Some path" using assms by (auto simp: nothing_fails_def)
  then obtain env where env: "build_env (w_environ w) dir (path_join dir ''bin'') = Inr env"
    by (simp add: build_env_def Let_def)
  have t: "ends_with (upd (\<lambda>s. s\<lparr>bs_built_time := dict_set (bs_built_time s) (ver_str v) (time_str (w_elapsed w (ver_str v)))\<rparr>)) (record_time w v)"
    by (simp add: ends_with_def upd_def record_time_def)
  have opt: "ends_with (if verbose then ac_log fp l True else ret ()) (\<lambda>b. b)" for l by simp
  show ?thesis unfolding build_docs_def Let_def env sum.case
    by (intro ends_bnd_id [OF ends_run [OF assms]] ends_bnd_id [OF opt]) (rule ends_bnd [OF t ends_basic(3)])
qed

lemma ends_handle:
  assumes "nothing_fails w"
  shows "ends_with (handle_version w a fp verbose v reqs py) (if ba_build a then record_time w v else (\<lambda>b. b))"
proof -
  have wr: "ends_with (if ba_req_file a then write_file w path content else ret ()) (\<lambda>b. b)" for path content
    using ends_write [OF assms] by simp
  have b: "ends_with (if ba_build a then build_docs w a fp verbose (ver_str v) dir else ret ()) (if ba_build a then record_time w v else (\<lambda>b. b))" for dir
    using ends_build [OF assms] by simp
  show ?thesis unfolding handle_version_def Let_def
    by (intro ends_bnd_id [OF ends_confirm [OF assms]] ends_bnd_id [OF ends_basic(3)] ends_bnd_id [OF ends_run [OF assms]] ends_bnd_id [OF wr] b)
qed

lemma ends_each:
  "(\<And>x. ends_with (f x) (g x)) \<Longrightarrow> ends_with (each f xs) (\<lambda>b. foldl (\<lambda>b x. g x b) b xs)"
proof (induction xs)
  case (Cons x xs)
  show ?case using ends_bnd [OF Cons.prems [of x] Cons.IH [OF Cons.prems]] by simp
qed simp

lemma ver_str_inj: "ver_str v = ver_str v' \<Longrightarrow> v = v'"
proof -
  assume "ver_str v = ver_str v'"
  moreover have "parse_version (ver_str u) = (if u = [] then Inl ValueError else Inr u)" for u
    by (rule version_reads_back)
  ultimately show "v = v'" by (metis sum.inject(2) sum.distinct(1))
qed

lemma record_times:
  "distinct vs \<Longrightarrow> \<forall>v \<in> set vs. ver_str v \<notin> set (dict_keys b) \<Longrightarrow>
   foldl (\<lambda>b v. record_time w v b) b vs = b @ map (\<lambda>v. (ver_str v, time_str (w_elapsed w (ver_str v)))) vs"
proof (induction vs arbitrary: b)
  case (Cons v vs)
  have new: "dict_set b k t = b @ [(k, t)]" if "k \<notin> set (dict_keys b)" for k and t :: string
    using that by (induction b) auto
  then have b: "record_time w v b = b @ [(ver_str v, time_str (w_elapsed w (ver_str v)))]"
    using Cons.prems by (simp add: record_time_def)
  have "\<forall>v' \<in> set vs. ver_str v' \<notin> set (dict_keys (record_time w v b))"
    using Cons.prems ver_str_inj by (auto simp: b dict_keys_def)
  then show ?case using Cons.IH [of "record_time w v b"] Cons.prems by (simp add: b)
qed simp

lemma planned_distinct: "distinct (planned a)"
  by (simp add: planned_def)

definition full_args :: "build_args \<Rightarrow> build_args" where
  "full_args a = (if ba_full a then a\<lparr>ba_versions := ba_versions a @ dict_keys SPHINX_REQUIREMENTS\<rparr> else a)"

lemma ends_venv_run:
  assumes "nothing_fails w"
  shows "ends_with (venv_run w a) (\<lambda>b. foldl (\<lambda>b v. (if ba_build a then record_time w v else (\<lambda>b. b)) b) b (planned a))"
proof -
  have 1: "ends_with (if fp \<and> \<not> w_writable w f then raise OSError else ret ()) (\<lambda>b. b)" for fp f
    using assms by (simp add: nothing_fails_def)
  have 2: "ends_with (venv_loop w a fp verbose [] (min_python_bin w) (all_versions a))
      (\<lambda>b. foldl (\<lambda>b v. (if ba_build a then record_time w v else (\<lambda>b. b)) b) b (planned a))" for fp verbose
    unfolding loop_all by (rule ends_each) (rule ends_handle [OF assms])
  have 3: "ends_with (if ba_build a then summary fp else ret ()) (\<lambda>b. b)" for fp by simp
  show ?thesis unfolding venv_run_def Let_def by (rule ends_bnd_id [OF 1], rule ends_bnd [OF 2 3])
qed


definition killed_world :: world where
  "killed_world = \<lparr>w_exec = (\<lambda>n cmd. Some \<lparr>p_lines = [], p_code = - 9\<rparr>), w_input = (\<lambda>v. Some []), w_writable = (\<lambda>f. True),
     w_environ = [(''PATH'', ''/bin'')], w_elapsed = (\<lambda>v. 61), w_realpath = (\<lambda>p. p), w_which = (\<lambda>p. True), w_PYTHON = ''python3''\<rparr>"

definition two_versions :: build_args where
  "two_versions = \<lparr>ba_versions = [[7, 2, 1], [3, 4, 3], [7, 2, 1]], ba_min_version = None, ba_max_version = None, ba_full = False,
     ba_build = True, ba_make_args = [], ba_targets = [''htmldocs''], ba_output = None, ba_req_file = False, ba_log = None,
     ba_verbose = False, ba_wait_input = False\<rparr>"


end
