(* ===== verification/Py_Args.thy ===== *)
theory Py_Args
  imports Kern_Re Py_Num
begin

text \<open>
  Command lines: what the scripts use of Python's \<^verbatim>\<open>argparse\<close>. Arguments are declared as actions; the
  strings of a command line are first told apart (options, values, \<^verbatim>\<open>--\<close>), then options and positional
  arguments are consumed alternately, and each use of an action changes the namespace. The texts of
  help and error messages are left out: what ends a run is a value of \<open>arg_exit\<close>.
\<close>

section \<open>Declarations\<close>

datatype arg_value =
    Av_none | Av_bool bool | Av_int int | Av_str string | Av_list "arg_value list" | Av_tuple "int list" | Av_func string

datatype nargs = N_zero | N_one | N_optional | N_star | N_plus | N_parser

datatype act_kind = K_store | K_store_true | K_append | K_count | K_boolean | K_help | K_parsers

text \<open>The conversion of a value gives none where it raises \<^verbatim>\<open>ValueError\<close> or \<^verbatim>\<open>ArgumentTypeError\<close>.\<close>

record arg_action =
  a_opts :: "string list"
  a_dest :: string
  a_kind :: act_kind
  a_nargs :: nargs
  a_type :: "string \<Rightarrow> arg_value option"
  a_choices :: "arg_value list option"
  a_default :: arg_value
  a_required :: bool

type_synonym namespace = "(string, arg_value) dict"

text \<open>A parser: its actions, the groups of options that exclude each other, the values of \<^verbatim>\<open>set_defaults\<close>.\<close>

record arg_parser =
  p_actions :: "arg_action list"
  p_exclusive :: "string list list"
  p_defaults :: namespace

definition type_str :: "string \<Rightarrow> arg_value option" where
  "type_str s = Some (Av_str s)"

definition type_int :: "string \<Rightarrow> arg_value option" where
  "type_int s = map_option Av_int (int_str s)"

text \<open>The name of an option's value: its first long name, else its first, with hyphens replaced.\<close>

definition dest_of :: "string list \<Rightarrow> string" where
  "dest_of os =
     (let nm = (case filter (\<lambda>s. startswith s ''--'') os of l # _ \<Rightarrow> l | [] \<Rightarrow> hd os) in
      map (\<lambda>c. if c = CHR ''-'' then CHR ''_'' else c) (lstrip_by (\<lambda>c. c = CHR ''-'') nm))"

definition opt_action :: "act_kind \<Rightarrow> nargs \<Rightarrow> arg_value \<Rightarrow> string list \<Rightarrow> arg_action" where
  "opt_action k n d os = \<lparr>a_opts = os, a_dest = dest_of os, a_kind = k, a_nargs = n, a_type = type_str, a_choices = None,
     a_default = d, a_required = False\<rparr>"

definition opt_store :: "string list \<Rightarrow> arg_action" where
  "opt_store = opt_action K_store N_one Av_none"

definition opt_true :: "string list \<Rightarrow> arg_action" where
  "opt_true = opt_action K_store_true N_zero (Av_bool False)"

definition opt_append :: "string list \<Rightarrow> arg_action" where
  "opt_append = opt_action K_append N_one Av_none"

definition opt_count :: "string list \<Rightarrow> arg_action" where
  "opt_count = opt_action K_count N_zero (Av_int 0)"

text \<open>\<^verbatim>\<open>BooleanOptionalAction\<close> adds the negative of every long option.\<close>

definition opt_boolean :: "bool \<Rightarrow> string list \<Rightarrow> arg_action" where
  "opt_boolean d os = (opt_action K_boolean N_zero (Av_bool d) os)
     \<lparr>a_opts := concat (map (\<lambda>s. if startswith s ''--'' then [s, ''--no-'' @ drop 2 s] else [s]) os)\<rparr>"

definition opt_help :: arg_action where
  "opt_help = opt_action K_help N_zero Av_none [''-h'', ''--help'']"

definition pos_action :: "nargs \<Rightarrow> string \<Rightarrow> arg_action" where
  "pos_action n d = \<lparr>a_opts = [], a_dest = d, a_kind = K_store, a_nargs = n, a_type = type_str, a_choices = None,
     a_default = Av_none, a_required = (n \<noteq> N_optional)\<rparr>"

definition sub_commands :: arg_action where
  "sub_commands = (pos_action N_parser [])\<lparr>a_kind := K_parsers, a_required := False\<rparr>"

text \<open>A parser has the help option before its own arguments.\<close>

definition parser_of :: "arg_action list \<Rightarrow> arg_parser" where
  "parser_of acts = \<lparr>p_actions = opt_help # acts, p_exclusive = [], p_defaults = []\<rparr>"

section \<open>Errors\<close>

datatype arg_exit =
    Help_shown
  | Ambiguous string "string list"
  | Ignored_explicit string string
  | Expected_arguments string
  | Invalid_value string string
  | Invalid_choice string
  | Not_allowed_with string string
  | Required_missing "string list"
  | Unrecognized "string list"
  | Script_error string

text \<open>\<open>Script_error\<close> is an error the script itself reports through its parser.
  Help ends the program with status 0, every error with status 2.\<close>

definition exit_status :: "arg_exit \<Rightarrow> nat" where
  "exit_status e = (if e = Help_shown then 0 else 2)"

type_synonym 'a parsed = "arg_exit + 'a"

definition pbind :: "'a parsed \<Rightarrow> ('a \<Rightarrow> 'b parsed) \<Rightarrow> 'b parsed" where
  "pbind x f = (case x of Inl e \<Rightarrow> Inl e | Inr v \<Rightarrow> f v)"

lemma pbind_simps [simp]:
  "pbind (Inl e) f = Inl e"
  "pbind (Inr v) f = f v"
  by (simp_all add: pbind_def)

lemma pbind_Inr_iff: "pbind x f = Inr w \<longleftrightarrow> (\<exists>v. x = Inr v \<and> f v = Inr w)"
  by (cases x) auto

lemma pbind_cong [fundef_cong]:
  "x = y \<Longrightarrow> (\<And>v. y = Inr v \<Longrightarrow> f v = g v) \<Longrightarrow> pbind x f = pbind y g"
  by (cases y) auto

fun fold_parsed :: "('s \<Rightarrow> 'x \<Rightarrow> 's parsed) \<Rightarrow> 's \<Rightarrow> 'x list \<Rightarrow> 's parsed" where
  "fold_parsed f s [] = Inr s"
| "fold_parsed f s (x # xs) = pbind (f s x) (\<lambda>s'. fold_parsed f s' xs)"

lemma fold_parsed_append: "fold_parsed f s (xs @ ys) = pbind (fold_parsed f s xs) (\<lambda>s'. fold_parsed f s' ys)"
proof (induction xs arbitrary: s)
  case Nil
  show ?case by simp
next
  case (Cons x xs)
  then show ?case by (cases "f s x") auto
qed

section \<open>Telling options from values\<close>

text \<open>
  An option as it stands on the command line: the action (none if the option is unknown), the full
  name, and what follows the name in the same string, with the separator.
\<close>

type_synonym option_tuple = "arg_action option \<times> string \<times> (string \<times> string) option"

datatype arg_class = C_opt option_tuple | C_arg | C_dash

text \<open>Every option string with its action, in the order of the declarations.\<close>

definition option_strings :: "arg_parser \<Rightarrow> (string \<times> arg_action) list" where
  "option_strings p = concat (map (\<lambda>a. map (\<lambda>s. (s, a)) (a_opts a)) (p_actions p))"

definition find_option :: "arg_parser \<Rightarrow> string \<Rightarrow> arg_action option" where
  "find_option p s = map_of (option_strings p) s"

text \<open>\<^verbatim>\<open>partition('=')\<close>; none without a separator.\<close>

definition cut_equals :: "string \<Rightarrow> (string \<times> string) option" where
  "cut_equals s = (let pre = takeWhile (\<lambda>c. c \<noteq> CHR ''='') s in
     if length pre < length s then Some (pre, drop (length pre + 1) s) else None)"

definition long_tuples :: "arg_parser \<Rightarrow> string \<Rightarrow> option_tuple list" where
  "long_tuples p s =
     (case (case cut_equals s of Some (pre, e) \<Rightarrow> (pre, Some (''='', e)) | None \<Rightarrow> (s, None)) of (pre, explicit) \<Rightarrow>
      map (\<lambda>(os, a). (Some a, os, explicit)) (filter (\<lambda>(os, a). startswith os pre) (option_strings p)))"

definition short_tuples :: "arg_parser \<Rightarrow> string \<Rightarrow> option_tuple list" where
  "short_tuples p s = concat (map (\<lambda>(os, a).
     if os = take 2 s then [(Some a, os, Some ([], drop 2 s))]
     else if startswith os s then [(Some a, os, None)] else []) (option_strings p))"

text \<open>\<^verbatim>\<open>_get_option_tuples\<close>, for a string of at least two characters that starts with a hyphen.\<close>

definition get_option_tuples :: "arg_parser \<Rightarrow> string \<Rightarrow> option_tuple list" where
  "get_option_tuples p s = (if s ! 1 = CHR ''-'' then long_tuples p s else short_tuples p s)"

definition negative_number :: regex where
  "negative_number = re (rx ''^-~d+$|^-~d*~.~d+$'')"

definition single_tuple :: "string \<Rightarrow> option_tuple list \<Rightarrow> option_tuple option parsed" where
  "single_tuple s ts = (case ts of
      [] \<Rightarrow> Inr (if re_match negative_number s \<noteq> None \<or> CHR '' '' \<in> set s then None else Some (None, s, None))
    | [t] \<Rightarrow> Inr (Some t)
    | _ \<Rightarrow> Inl (Ambiguous s (map (fst \<circ> snd) ts)))"

text \<open>\<^verbatim>\<open>_parse_optional\<close>: none for a value.\<close>

definition parse_optional :: "arg_parser \<Rightarrow> string \<Rightarrow> option_tuple option parsed" where
  "parse_optional p s =
     (if s = [] \<or> hd s \<noteq> CHR ''-'' then Inr None
      else (case find_option p s of
        Some a \<Rightarrow> Inr (Some (Some a, s, None))
      | None \<Rightarrow>
          if length s = 1 then Inr None
          else (case (case cut_equals s of
                Some (os, e) \<Rightarrow> map_option (\<lambda>a. (Some a, os, Some (''='', e))) (find_option p os)
              | None \<Rightarrow> None) of
              Some t \<Rightarrow> Inr (Some t)
            | None \<Rightarrow> single_tuple s (get_option_tuples p s))))"

fun classify :: "arg_parser \<Rightarrow> string list \<Rightarrow> (arg_class \<times> string) list parsed" where
  "classify p [] = Inr []"
| "classify p (s # ss) =
     (if s = ''--'' then Inr ((C_dash, s) # map (Pair C_arg) ss)
      else pbind (parse_optional p s) (\<lambda>t.
           pbind (classify p ss) (\<lambda>cs.
           Inr ((case t of Some tup \<Rightarrow> C_opt tup | None \<Rightarrow> C_arg, s) # cs))))"

section \<open>Numbers of arguments\<close>

fun is_opt :: "arg_class \<times> string \<Rightarrow> bool" where
  "is_opt (C_opt t, s) = True"
| "is_opt x = False"

lemma is_opt_iff: "is_opt x \<longleftrightarrow> (\<exists>t. fst x = C_opt t)"
  by (cases x rule: is_opt.cases) auto

fun is_arg :: "arg_class \<times> string \<Rightarrow> bool" where
  "is_arg (C_arg, s) = True"
| "is_arg x = False"

fun is_dash :: "arg_class \<times> string \<Rightarrow> bool" where
  "is_dash (C_dash, s) = True"
| "is_dash x = False"

text \<open>How many of the following strings an option takes: none if there are too few.\<close>

definition match_argument :: "nargs \<Rightarrow> (arg_class \<times> string) list \<Rightarrow> nat option" where
  "match_argument n rest = (let k = length (takeWhile is_arg rest) in
     case n of
       N_zero \<Rightarrow> Some 0
     | N_one \<Rightarrow> if 1 \<le> k then Some 1 else None
     | N_optional \<Rightarrow> Some (min 1 k)
     | N_star \<Rightarrow> Some k
     | N_plus \<Rightarrow> if 1 \<le> k then Some k else None
     | N_parser \<Rightarrow> if 1 \<le> k then Some (length rest) else None)"

text \<open>Whether a positional argument can take exactly these strings; \<^verbatim>\<open>--\<close> does not count.\<close>

definition takes :: "nargs \<Rightarrow> (arg_class \<times> string) list \<Rightarrow> bool" where
  "takes n w = (let xs = filter (\<lambda>x. \<not> is_dash x) w in
     case n of
       N_zero \<Rightarrow> xs = []
     | N_one \<Rightarrow> list_all is_arg xs \<and> length xs = 1
     | N_optional \<Rightarrow> list_all is_arg xs \<and> length xs \<le> 1
     | N_star \<Rightarrow> list_all is_arg xs
     | N_plus \<Rightarrow> list_all is_arg xs \<and> xs \<noteq> []
     | N_parser \<Rightarrow> xs \<noteq> [] \<and> is_arg (hd xs))"

text \<open>The first match of the patterns one after the other, each as long as the others allow.\<close>

fun match_all :: "nargs list \<Rightarrow> (arg_class \<times> string) list \<Rightarrow> nat list option" where
  "match_all [] rest = Some []"
| "match_all (n # ns) rest =
     first_some (\<lambda>k. if takes n (take k rest) then map_option (Cons k) (match_all ns (drop k rest)) else None)
       (rev [0..<Suc (length rest)])"

definition match_partial :: "nargs list \<Rightarrow> (arg_class \<times> string) list \<Rightarrow> nat list" where
  "match_partial ns rest =
     (case first_some (\<lambda>i. match_all (take i ns) rest) (rev [1..<Suc (length ns)]) of Some ks \<Rightarrow> ks | None \<Rightarrow> [])"

section \<open>Actions\<close>

record arg_state =
  s_ns :: namespace
  s_seen :: "string list"
  s_extras :: "string list"
  s_positionals :: "arg_action list"

text \<open>Actions are told apart by their destination.\<close>

definition get_value :: "arg_action \<Rightarrow> string \<Rightarrow> arg_value parsed" where
  "get_value a s = (case a_type a s of None \<Rightarrow> Inl (Invalid_value (a_dest a) s) | Some v \<Rightarrow> Inr v)"

definition check_value :: "arg_action \<Rightarrow> arg_value \<Rightarrow> arg_value parsed" where
  "check_value a v = (case a_choices a of
      Some cs \<Rightarrow> if v \<in> set cs then Inr v else Inl (Invalid_choice (a_dest a))
    | None \<Rightarrow> Inr v)"

fun get_list :: "arg_action \<Rightarrow> string list \<Rightarrow> arg_value list parsed" where
  "get_list a [] = Inr []"
| "get_list a (s # ss) = pbind (get_value a s) (\<lambda>v. pbind (get_list a ss) (\<lambda>vs. Inr (v # vs)))"

fun check_list :: "arg_action \<Rightarrow> arg_value list \<Rightarrow> arg_value list parsed" where
  "check_list a [] = Inr []"
| "check_list a (v # vs) = pbind (check_value a v) (\<lambda>v. pbind (check_list a vs) (\<lambda>vs. Inr (v # vs)))"

text \<open>\<^verbatim>\<open>_get_values\<close>; the first \<^verbatim>\<open>--\<close> is removed, except before a sub-command.\<close>

definition get_values :: "arg_action \<Rightarrow> string list \<Rightarrow> arg_value parsed" where
  "get_values a ss0 =
     (let ss = (if a_opts a = [] \<and> a_nargs a \<noteq> N_parser then remove1 ''--'' ss0 else ss0) in
      case (a_nargs a, ss) of
        (N_optional, []) \<Rightarrow> (case a_default a of Av_str d \<Rightarrow> pbind (get_value a d) (check_value a) | d \<Rightarrow> Inr d)
      | (N_optional, [s]) \<Rightarrow> pbind (get_value a s) (check_value a)
      | (N_one, [s]) \<Rightarrow> pbind (get_value a s) (check_value a)
      | (N_parser, _) \<Rightarrow> map_sum id Av_list (get_list a ss)
      | _ \<Rightarrow> map_sum id Av_list (pbind (get_list a ss) (check_list a)))"

fun str_of :: "arg_value \<Rightarrow> string" where
  "str_of (Av_str s) = s"
| "str_of v = []"

text \<open>
  What an action does with its values. \<open>sub\<close> parses the rest of the line with the parser of a
  sub-command, and gives its namespace and the strings it did not know.
\<close>

definition store_into :: "arg_state \<Rightarrow> string \<Rightarrow> arg_value \<Rightarrow> arg_state" where
  "store_into st d v = st\<lparr>s_ns := dict_set (s_ns st) d v\<rparr>"

definition run_action ::
    "(string \<Rightarrow> string list \<Rightarrow> (namespace \<times> string list) parsed) \<Rightarrow> arg_action \<Rightarrow> string \<Rightarrow> arg_value \<Rightarrow> arg_state \<Rightarrow> arg_state parsed" where
  "run_action sub a os v st = (case a_kind a of
      K_store \<Rightarrow> Inr (store_into st (a_dest a) v)
    | K_store_true \<Rightarrow> Inr (store_into st (a_dest a) (Av_bool True))
    | K_append \<Rightarrow> Inr (store_into st (a_dest a)
        (Av_list ((case dict_get (s_ns st) (a_dest a) of Some (Av_list vs) \<Rightarrow> vs | _ \<Rightarrow> []) @ [v])))
    | K_count \<Rightarrow> Inr (store_into st (a_dest a)
        (Av_int ((case dict_get (s_ns st) (a_dest a) of Some (Av_int n) \<Rightarrow> n | _ \<Rightarrow> 0) + 1)))
    | K_boolean \<Rightarrow> Inr (store_into st (a_dest a) (Av_bool (\<not> startswith os ''--no-'')))
    | K_help \<Rightarrow> Inl Help_shown
    | K_parsers \<Rightarrow> (case v of
        Av_list (Av_str name # rest) \<Rightarrow>
          pbind (sub name (map str_of rest)) (\<lambda>(ns, extras).
          Inr (st\<lparr>s_ns := foldl (\<lambda>m (d, x). dict_set m d x) (s_ns st) ns, s_extras := s_extras st @ extras\<rparr>))
      | _ \<Rightarrow> Inl (Invalid_choice [])))"

text \<open>
  The destinations an action excludes. An option on the command line always counts as given; only
  positional arguments can take their default, and none of them is in a group.
\<close>

definition conflicts :: "arg_parser \<Rightarrow> arg_action \<Rightarrow> string list" where
  "conflicts p a = remove1 (a_dest a) (concat (filter (\<lambda>g. a_dest a \<in> set g) (p_exclusive p)))"

definition take_action ::
    "arg_parser \<Rightarrow> (string \<Rightarrow> string list \<Rightarrow> (namespace \<times> string list) parsed) \<Rightarrow> arg_state \<Rightarrow> arg_action \<times> string list \<times> string \<Rightarrow>
     arg_state parsed" where
  "take_action p sub st x = (case x of (a, ss, os) \<Rightarrow>
     (let st1 = st\<lparr>s_seen := List.insert (a_dest a) (s_seen st)\<rparr> in
      pbind (get_values a ss) (\<lambda>v.
      case filter (\<lambda>d. d \<in> set (s_seen st)) (conflicts p a) of
        d # _ \<Rightarrow> Inl (Not_allowed_with (a_dest a) d)
      | [] \<Rightarrow> run_action sub a os v st1)))"

section \<open>Options\<close>

text \<open>
  The uses of options in one string: several options of one letter may stand together. The result
  also has the string left over, if a letter is unknown, and the number of strings taken after it.
\<close>

type_synonym uses = "(arg_action \<times> string list \<times> string) list \<times> string list \<times> nat"

definition next_explicit :: "string \<Rightarrow> (string \<times> string) option" where
  "next_explicit e = (case e of [] \<Rightarrow> None | c # cs \<Rightarrow> if c = CHR ''='' then Some (''='', cs) else Some ([], e))"

lemma next_explicit_length: "next_explicit e = Some (sep, e1) \<Longrightarrow> length e1 \<le> length e"
  by (auto simp: next_explicit_def split: list.splits if_splits)

definition plain_use :: "arg_action \<Rightarrow> string \<Rightarrow> (arg_class \<times> string) list \<Rightarrow> uses parsed" where
  "plain_use a os rest = (case match_argument (a_nargs a) rest of
      None \<Rightarrow> Inl (Expected_arguments (a_dest a))
    | Some n \<Rightarrow> Inr ([(a, map snd (take n rest), os)], [], n))"

function explicit_use :: "arg_parser \<Rightarrow> arg_action \<Rightarrow> string \<Rightarrow> string \<Rightarrow> string \<Rightarrow> (arg_class \<times> string) list \<Rightarrow> uses parsed" where
  "explicit_use p a os sep e rest =
     (if a_nargs a = N_zero then
        if os ! 1 \<noteq> CHR ''-'' \<and> e \<noteq> [] then
          if sep \<noteq> [] \<or> hd e = CHR ''-'' then Inl (Ignored_explicit (a_dest a) e)
          else (case find_option p [CHR ''-'', hd e] of
              None \<Rightarrow> Inr ([(a, [], os)], [CHR ''-'' # e], 0)
            | Some a1 \<Rightarrow>
                map_sum id (\<lambda>(us, ex, n). ((a, [], os) # us, ex, n))
                  (case next_explicit (tl e) of
                     None \<Rightarrow> plain_use a1 [CHR ''-'', hd e] rest
                   | Some (sep1, e1) \<Rightarrow> explicit_use p a1 [CHR ''-'', hd e] sep1 e1 rest))
        else Inl (Ignored_explicit (a_dest a) e)
      else Inr ([(a, [e], os)], [], 0))"
  by auto
termination
  by (relation "measure (\<lambda>(p, a, os, sep, e, rest). length e)")
    (auto dest!: next_explicit_length intro: le_less_trans)

definition consume_optional ::
    "arg_parser \<Rightarrow> (string \<Rightarrow> string list \<Rightarrow> (namespace \<times> string list) parsed) \<Rightarrow> option_tuple \<Rightarrow> string \<Rightarrow> (arg_class \<times> string) list \<Rightarrow>
     arg_state \<Rightarrow> (nat \<times> arg_state) parsed" where
  "consume_optional p sub t s rest st = (case t of
      (None, _, _) \<Rightarrow> Inr (0, st\<lparr>s_extras := s_extras st @ [s]\<rparr>)
    | (Some a, os, explicit) \<Rightarrow>
        pbind (case explicit of None \<Rightarrow> plain_use a os rest | Some (sep, e) \<Rightarrow> explicit_use p a os sep e rest) (\<lambda>(us, ex, n).
        pbind (fold_parsed (take_action p sub) (st\<lparr>s_extras := s_extras st @ ex\<rparr>) us) (\<lambda>st1.
        Inr (n, st1))))"

section \<open>Positional arguments\<close>

fun positional_uses :: "arg_action list \<Rightarrow> nat list \<Rightarrow> (arg_class \<times> string) list \<Rightarrow> (arg_action \<times> string list \<times> string) list" where
  "positional_uses (a # acts) (k # ks) rest = (a, map snd (take k rest), []) # positional_uses acts ks (drop k rest)"
| "positional_uses acts ks rest = []"

definition consume_positionals ::
    "arg_parser \<Rightarrow> (string \<Rightarrow> string list \<Rightarrow> (namespace \<times> string list) parsed) \<Rightarrow> (arg_class \<times> string) list \<Rightarrow> arg_state \<Rightarrow>
     (nat \<times> arg_state) parsed" where
  "consume_positionals p sub rest st =
     (let ks = match_partial (map a_nargs (s_positionals st)) rest in
      pbind (fold_parsed (take_action p sub) st (positional_uses (s_positionals st) ks rest)) (\<lambda>st1.
      Inr (sum_list ks, st1\<lparr>s_positionals := drop (length ks) (s_positionals st)\<rparr>)))"

section \<open>The loop\<close>

definition no_options :: "(arg_class \<times> string) list \<Rightarrow> bool" where
  "no_options rest = list_all (\<lambda>x. \<not> is_opt x) rest"

text \<open>Options and positional arguments in turn, until no option is left.\<close>

function arg_loop ::
    "arg_parser \<Rightarrow> (string \<Rightarrow> string list \<Rightarrow> (namespace \<times> string list) parsed) \<Rightarrow> (arg_class \<times> string) list \<Rightarrow> arg_state \<Rightarrow>
     ((arg_class \<times> string) list \<times> arg_state) parsed" where
  "arg_loop p sub rest st =
     (if no_options rest then Inr (rest, st)
      else (case fst (hd rest) of
          C_opt t \<Rightarrow>
            pbind (consume_optional p sub t (snd (hd rest)) (tl rest) st) (\<lambda>(n, st1). arg_loop p sub (drop n (tl rest)) st1)
        | _ \<Rightarrow>
            pbind (consume_positionals p sub rest st) (\<lambda>(n, st1).
              if 0 < n then arg_loop p sub (drop n rest) st1
              else arg_loop p sub (dropWhile (\<lambda>x. \<not> is_opt x) rest)
                (st1\<lparr>s_extras := s_extras st1 @ map snd (takeWhile (\<lambda>x. \<not> is_opt x) rest)\<rparr>))))"
  by pat_completeness auto
termination
proof -
  have ne: "\<not> no_options rest \<Longrightarrow> rest \<noteq> []" for rest by (auto simp: no_options_def)
  have dw: "length (dropWhile (\<lambda>x. \<not> is_opt x) rest) < length rest" if "rest \<noteq> []" "\<forall>t. fst (hd rest) \<noteq> C_opt t" for rest
    using that by (cases rest) (auto simp: is_opt_iff le_imp_less_Suc length_dropWhile_le)
  show ?thesis
    by (relation "measure (\<lambda>(p, sub, rest, st). length rest)") (auto dest!: ne intro!: dw)
qed

declare explicit_use.simps [simp del] arg_loop.simps [simp del]

section \<open>Parsing a command line\<close>

text \<open>Before the line is read: the defaults of the actions, then those of the parser.\<close>

definition set_missing :: "namespace \<Rightarrow> string \<times> arg_value \<Rightarrow> namespace" where
  "set_missing ns x = (if dict_has ns (fst x) then ns else dict_set ns (fst x) (snd x))"

definition stores :: "arg_action \<Rightarrow> bool" where
  "stores a \<longleftrightarrow> a_kind a \<notin> {K_help, K_parsers}"

definition initial_namespace :: "arg_parser \<Rightarrow> namespace" where
  "initial_namespace p =
     foldl set_missing [] (map (\<lambda>a. (a_dest a, a_default a)) (filter stores (p_actions p)) @ p_defaults p)"

text \<open>Afterwards: arguments that are missing, and defaults given as strings, which are converted.\<close>

definition missing_actions :: "arg_parser \<Rightarrow> arg_state \<Rightarrow> string list" where
  "missing_actions p st = map a_dest (filter (\<lambda>a. a_dest a \<notin> set (s_seen st) \<and> a_required a) (p_actions p))"

definition convert_default :: "arg_state \<Rightarrow> arg_action \<Rightarrow> arg_state parsed" where
  "convert_default st a =
     (if a_dest a \<in> set (s_seen st) \<or> a_required a \<or> \<not> stores a then Inr st
      else (case a_default a of
          Av_str d \<Rightarrow> pbind (get_value a d) (\<lambda>v. Inr (store_into st (a_dest a) v))
        | _ \<Rightarrow> Inr st))"

definition parse_known_args ::
    "arg_parser \<Rightarrow> (string \<Rightarrow> string list \<Rightarrow> (namespace \<times> string list) parsed) \<Rightarrow> string list \<Rightarrow> (namespace \<times> string list) parsed" where
  "parse_known_args p sub argv =
     pbind (classify p argv) (\<lambda>rest.
     pbind (arg_loop p sub rest \<lparr>s_ns = initial_namespace p, s_seen = [], s_extras = [],
         s_positionals = filter (\<lambda>a. a_opts a = []) (p_actions p)\<rparr>) (\<lambda>(rest1, st1).
     pbind (consume_positionals p sub rest1 st1) (\<lambda>(n, st2).
     pbind (fold_parsed convert_default st2 (p_actions p)) (\<lambda>st3.
     if missing_actions p st3 \<noteq> [] then Inl (Required_missing (missing_actions p st3))
     else Inr (s_ns st3, s_extras st3 @ map snd (drop n rest1))))))"

text \<open>The parser of a sub-command is looked up by its name; it has no sub-commands of its own.\<close>

definition no_sub :: "string \<Rightarrow> string list \<Rightarrow> (namespace \<times> string list) parsed" where
  "no_sub name rest = Inl (Invalid_choice name)"

definition sub_parser :: "(string \<times> arg_parser) list \<Rightarrow> string \<Rightarrow> string list \<Rightarrow> (namespace \<times> string list) parsed" where
  "sub_parser subs name rest = (case map_of subs name of
      None \<Rightarrow> Inl (Invalid_choice name)
    | Some p \<Rightarrow> parse_known_args p no_sub rest)"

definition parse_args :: "arg_parser \<Rightarrow> (string \<times> arg_parser) list \<Rightarrow> string list \<Rightarrow> namespace parsed" where
  "parse_args p subs argv =
     pbind (parse_known_args p (sub_parser subs) argv) (\<lambda>(ns, extras).
     if extras \<noteq> [] then Inl (Unrecognized extras) else Inr ns)"

end
