(* ===== verification/Args_Props.thy ===== *)
theory Args_Props
  imports Py_Args
begin

text \<open>
  Properties of the parser of command lines: what every use of an action keeps, the whole parse
  keeps; options that are not known end in an error; and a line of options written out by name has
  the meaning its options have one by one.
\<close>

section \<open>Known actions\<close>

text \<open>The options a string stands for are those of the parser.\<close>

fun known_class :: "arg_parser \<Rightarrow> arg_class \<times> string \<Rightarrow> bool" where
  "known_class p (C_opt (Some a, os, e), s) = (a \<in> set (p_actions p))"
| "known_class p x = True"

lemma find_option_known: "find_option p s = Some a \<Longrightarrow> a \<in> set (p_actions p)"
  by (auto simp: find_option_def option_strings_def dest!: map_of_SomeD)

lemma option_strings_known: "(s, a) \<in> set (option_strings p) \<Longrightarrow> a \<in> set (p_actions p)"
  by (auto simp: option_strings_def)

lemma get_option_tuples_known: "(oa, os, e) \<in> set (get_option_tuples p s) \<Longrightarrow> \<exists>a \<in> set (p_actions p). oa = Some a"
  by (auto simp: get_option_tuples_def long_tuples_def short_tuples_def dest!: option_strings_known split: option.splits if_splits prod.splits)

lemma parse_optional_known:
  assumes "parse_optional p s = Inr (Some t)"
  shows "known_class p (C_opt t, s)"
proof -
  have one: "known_class p (C_opt t, s)" if "single_tuple s (get_option_tuples p s) = Inr (Some t)"
  proof (cases "get_option_tuples p s")
    case Nil
    then show ?thesis using that by (auto simp: single_tuple_def split: if_splits)
  next
    case (Cons t' ts)
    then have "t' = t" using that by (cases ts) (auto simp: single_tuple_def)
    moreover obtain oa os e where t: "t = (oa, os, e)" by (cases t)
    ultimately have "(oa, os, e) \<in> set (get_option_tuples p s)" using Cons by simp
    from get_option_tuples_known [OF this] show ?thesis by (auto simp: t)
  qed
  show ?thesis using assms
    by (auto simp: parse_optional_def dest: find_option_known one split: if_splits option.splits prod.splits)
qed

lemma classify_known: "classify p ss = Inr cs \<Longrightarrow> list_all (known_class p) cs"
proof (induction ss arbitrary: cs)
  case (Cons s ss)
  show ?case
  proof (cases "s = ''--''")
    case True
    then show ?thesis using Cons.prems by (auto simp: list_all_iff)
  next
    case False
    then obtain t cs' where t: "parse_optional p s = Inr t" "classify p ss = Inr cs'"
      "cs = (case t of Some tup \<Rightarrow> C_opt tup | None \<Rightarrow> C_arg, s) # cs'"
      using Cons.prems by (auto simp: pbind_Inr_iff)
    have "known_class p (case t of Some tup \<Rightarrow> C_opt tup | None \<Rightarrow> C_arg, s)"
      using parse_optional_known t(1) by (cases t) auto
    then show ?thesis using Cons.IH t(2,3) by simp
  qed
qed simp

lemma explicit_use_known:
  "explicit_use p a os sep e rest = Inr (us, ex, n) \<Longrightarrow> a \<in> set (p_actions p) \<Longrightarrow> fst ` set us \<subseteq> set (p_actions p)"
proof (induction p a os sep e rest arbitrary: us ex n rule: explicit_use.induct)
  case (1 p a os sep e rest)
  show ?case
  proof (cases "a_nargs a = N_zero \<and> os ! 1 \<noteq> CHR ''-'' \<and> e \<noteq> [] \<and> \<not> (sep \<noteq> [] \<or> hd e = CHR ''-'')")
    case True
    show ?thesis
    proof (cases "find_option p [CHR ''-'', hd e]")
      case (Some a1)
      then have a1: "a1 \<in> set (p_actions p)" by (rule find_option_known)
      show ?thesis
      proof (cases "next_explicit (tl e)")
        case None
        then show ?thesis using 1(2,3) True Some a1
          by (auto simp: explicit_use.simps [of p a] plain_use_def split: option.splits)
      next
        case (Some se)
        obtain sep1 e1 where se: "se = (sep1, e1)" by force
        from 1(2) True \<open>find_option p [CHR ''-'', hd e] = Some a1\<close> Some se obtain us1
          where us1: "explicit_use p a1 [CHR ''-'', hd e] sep1 e1 rest = Inr (us1, ex, n)" "us = (a, [], os) # us1"
          by (cases "explicit_use p a1 [CHR ''-'', hd e] sep1 e1 rest") (auto simp: explicit_use.simps [of p a])
        from True have "a_nargs a = N_zero" "os ! 1 \<noteq> CHR ''-'' \<and> e \<noteq> []" "\<not> (sep \<noteq> [] \<or> hd e = CHR ''-'')" by simp_all
        from 1(1) [OF this \<open>find_option p [CHR ''-'', hd e] = Some a1\<close> Some se [symmetric] us1(1) a1] show ?thesis
          using us1(2) 1(3) by simp
      qed
    qed (use 1(2,3) True in \<open>auto simp: explicit_use.simps [of p a]\<close>)
  qed (use 1(2,3) in \<open>auto simp: explicit_use.simps [of p a] split: if_splits\<close>)
qed

lemma positional_uses_known: "set (map fst (positional_uses acts ks rest)) \<subseteq> set acts"
  by (induction acts ks rest rule: positional_uses.induct) auto

section \<open>The loop, case by case\<close>

lemma loop_case:
  assumes "no_options rest \<Longrightarrow> P" and "\<And>t s rest1. rest = (C_opt t, s) # rest1 \<Longrightarrow> P"
    and "\<not> no_options rest \<Longrightarrow> rest \<noteq> [] \<Longrightarrow> \<not> is_opt (hd rest) \<Longrightarrow> P"
  shows P
proof (cases rest)
  case (Cons x rest1)
  then show ?thesis using assms by (cases "no_options rest"; cases x rule: is_opt.cases) auto
qed (use assms in \<open>simp add: no_options_def\<close>)

lemma loop_done: "no_options rest \<Longrightarrow> arg_loop p sub rest st = Inr (rest, st)"
  by (simp add: arg_loop.simps)

lemma loop_option:
  "arg_loop p sub ((C_opt t, s) # rest1) st = pbind (consume_optional p sub t s rest1 st) (\<lambda>(n, st1). arg_loop p sub (drop n rest1) st1)"
  by (simp add: arg_loop.simps [of p sub "(C_opt t, s) # rest1"] no_options_def)

lemma loop_values:
  assumes "\<not> no_options rest" and "\<not> is_opt (hd rest)"
  shows "arg_loop p sub rest st = pbind (consume_positionals p sub rest st) (\<lambda>(n, st1).
     if 0 < n then arg_loop p sub (drop n rest) st1
     else arg_loop p sub (dropWhile (\<lambda>x. \<not> is_opt x) rest)
       (st1\<lparr>s_extras := s_extras st1 @ map snd (takeWhile (\<lambda>x. \<not> is_opt x) rest)\<rparr>))"
  using assms by (simp add: arg_loop.simps [of p sub rest] is_opt_iff split: arg_class.split)

lemma dropWhile_shorter: "rest \<noteq> [] \<Longrightarrow> \<not> is_opt (hd rest) \<Longrightarrow> length (dropWhile (\<lambda>x. \<not> is_opt x) rest) < length rest"
  by (cases rest) (simp_all add: le_imp_less_Suc length_dropWhile_le)

lemma list_all_drop: "list_all P xs \<Longrightarrow> list_all P (drop n xs)"
  by (auto simp: list_all_iff dest: in_set_dropD)

lemma list_all_dropWhile: "list_all P xs \<Longrightarrow> list_all P (dropWhile Q xs)"
  by (auto simp: list_all_iff dest: set_dropWhileD)

lemma take_action_Inr_iff:
  "take_action p sub st (a, ss, os) = Inr st' \<longleftrightarrow>
     (\<exists>v. get_values a ss = Inr v \<and> (\<forall>d \<in> set (conflicts p a). d \<notin> set (s_seen st)) \<and>
        run_action sub a os v (st\<lparr>s_seen := List.insert (a_dest a) (s_seen st)\<rparr>) = Inr st')"
proof (cases "filter (\<lambda>d. d \<in> set (s_seen st)) (conflicts p a)")
  case Nil
  then show ?thesis by (auto simp: take_action_def Let_def pbind_Inr_iff filter_empty_conv)
next
  case (Cons d ds)
  then have "d \<in> set (conflicts p a)" "d \<in> set (s_seen st)" by (auto dest: filter_eq_ConsD)
  then show ?thesis using Cons by (auto simp: take_action_def Let_def pbind_Inr_iff)
qed

text \<open>A run of an action changes the namespace, and the strings left over when it is a sub-command.\<close>

lemma run_action_cases:
  assumes "run_action sub a os v st = Inr st'"
  obtains x where "a_kind a \<notin> {K_help, K_parsers}" and "st' = store_into st (a_dest a) x"
  | name rest ns ex where "a_kind a = K_parsers" and "sub name rest = Inr (ns, ex)"
      and "st' = st\<lparr>s_ns := foldl (\<lambda>m (d, x). dict_set m d x) (s_ns st) ns, s_extras := s_extras st @ ex\<rparr>"
  using assms by (auto simp: run_action_def pbind_Inr_iff split: act_kind.splits arg_value.splits list.splits)

lemma take_action_positionals: "take_action p sub st u = Inr st' \<Longrightarrow> s_positionals st' = s_positionals st"
  by (cases u) (auto simp: take_action_Inr_iff store_into_def elim!: run_action_cases)

lemma fold_actions_positionals: "fold_parsed (take_action p sub) st us = Inr st' \<Longrightarrow> s_positionals st' = s_positionals st"
  by (induction us arbitrary: st) (auto simp: pbind_Inr_iff dest: take_action_positionals)

lemma consume_optional_positionals: "consume_optional p sub t s rest st = Inr (n, st') \<Longrightarrow> s_positionals st' = s_positionals st"
  by (cases t; cases "fst t") (auto simp: consume_optional_def pbind_Inr_iff dest!: fold_actions_positionals)

lemma consume_positionals_left: "consume_positionals p sub rest st = Inr (n, st') \<Longrightarrow> set (s_positionals st') \<subseteq> set (s_positionals st)"
  by (auto simp: consume_positionals_def Let_def pbind_Inr_iff dest: in_set_dropD)

section \<open>What a parse keeps\<close>

text \<open>
  The interface between the actions and the parse: a property of the state that storing a value of
  the parser and running a sub-command keep, and that does not depend on what was seen and on what
  is left to be read, is kept by the whole parse.
\<close>

definition merge_ns :: "namespace \<Rightarrow> namespace \<Rightarrow> namespace" where
  "merge_ns m ns = foldl (\<lambda>m (d, x). dict_set m d x) m ns"

definition first_state :: "arg_parser \<Rightarrow> arg_state" where
  "first_state p = \<lparr>s_ns = initial_namespace p, s_seen = [], s_extras = [], s_positionals = filter (\<lambda>a. a_opts a = []) (p_actions p)\<rparr>"

locale arg_invariant =
  fixes p :: arg_parser and sub :: "string \<Rightarrow> string list \<Rightarrow> (namespace \<times> string list) parsed" and inv :: "arg_state \<Rightarrow> bool"
  assumes store_keeps: "inv st \<Longrightarrow> a \<in> set (p_actions p) \<Longrightarrow> stores a \<Longrightarrow> inv (store_into st (a_dest a) v)"
    and sub_keeps: "inv st \<Longrightarrow> sub name rest = Inr (ns, ex) \<Longrightarrow> inv (st\<lparr>s_ns := merge_ns (s_ns st) ns, s_extras := s_extras st @ ex\<rparr>)"
    and seen_keeps: "inv st \<Longrightarrow> inv (st\<lparr>s_seen := ds\<rparr>)"
    and extras_keep: "inv st \<Longrightarrow> inv (st\<lparr>s_extras := s_extras st @ ex\<rparr>)"
    and positionals_keep: "inv st \<Longrightarrow> inv (st\<lparr>s_positionals := ps\<rparr>)"
begin

lemma action_keeps: "inv st \<Longrightarrow> a \<in> set (p_actions p) \<Longrightarrow> take_action p sub st (a, ss, os) = Inr st' \<Longrightarrow> inv st'"
  unfolding take_action_Inr_iff
proof (elim exE conjE)
  fix v
  let ?st = "st\<lparr>s_seen := List.insert (a_dest a) (s_seen st)\<rparr>"
  assume "inv st" and a: "a \<in> set (p_actions p)" and run: "run_action sub a os v ?st = Inr st'"
  from seen_keeps [OF this(1)] have seen: "inv ?st" .
  from run show "inv st'"
    by (cases rule: run_action_cases)
      (use store_keeps [OF seen a] sub_keeps [OF seen] in \<open>auto simp: stores_def merge_ns_def\<close>)
qed

lemma uses_keep:
  "inv st \<Longrightarrow> fst ` set us \<subseteq> set (p_actions p) \<Longrightarrow> fold_parsed (take_action p sub) st us = Inr st' \<Longrightarrow> inv st'"
proof (induction us arbitrary: st)
  case (Cons u us)
  obtain a ss os where u: "u = (a, ss, os)" by (cases u)
  then show ?case using Cons action_keeps [of st a ss os] by (auto simp: pbind_Inr_iff)
qed simp

lemma optional_keeps:
  assumes "inv st" and "known_class p (C_opt t, s)" and "consume_optional p sub t s rest st = Inr (n, st')"
  shows "inv st'"
proof -
  obtain oa os e where t: "t = (oa, os, e)" by (cases t)
  show ?thesis
  proof (cases oa)
    case None
    then show ?thesis using assms extras_keep by (auto simp: t consume_optional_def)
  next
    case (Some a)
    then have a: "a \<in> set (p_actions p)" using assms(2) by (simp add: t)
    define r where "r = (case e of None \<Rightarrow> plain_use a os rest | Some (sep, e) \<Rightarrow> explicit_use p a os sep e rest)"
    have "pbind r (\<lambda>(us, ex, n). pbind (fold_parsed (take_action p sub) (st\<lparr>s_extras := s_extras st @ ex\<rparr>) us) (\<lambda>st1. Inr (n, st1))) = Inr (n, st')"
      using assms(3) by (simp add: t Some consume_optional_def r_def)
    then obtain us ex where us: "r = Inr (us, ex, n)" "fold_parsed (take_action p sub) (st\<lparr>s_extras := s_extras st @ ex\<rparr>) us = Inr st'"
      by (auto simp: pbind_Inr_iff)
    have "fst ` set us \<subseteq> set (p_actions p)"
      using us(1) a explicit_use_known [of p a os _ _ rest us ex n]
      by (cases e) (auto simp: r_def plain_use_def split: option.splits)
    then show ?thesis using uses_keep [OF extras_keep [OF assms(1)] _ us(2)] by blast
  qed
qed

lemma consume_positionals_keeps:
  assumes "inv st" and "set (s_positionals st) \<subseteq> set (p_actions p)" and "consume_positionals p sub rest st = Inr (n, st')"
  shows "inv st' \<and> set (s_positionals st') \<subseteq> set (p_actions p)"
proof -
  obtain ks st1 where st1: "fold_parsed (take_action p sub) st (positional_uses (s_positionals st) ks rest) = Inr st1"
    "st' = st1\<lparr>s_positionals := drop (length ks) (s_positionals st)\<rparr>"
    using assms(3) by (auto simp: consume_positionals_def Let_def pbind_Inr_iff)
  have "inv st1" using uses_keep [OF assms(1) _ st1(1)] positional_uses_known [of "s_positionals st" ks rest] assms(2) by auto
  then show ?thesis using positionals_keep assms(2) set_drop_subset [of "length ks" "s_positionals st"] by (auto simp: st1(2))
qed

lemma loop_keeps:
  "arg_loop p sub rest st = Inr (rest', st') \<Longrightarrow> inv st \<Longrightarrow> set (s_positionals st) \<subseteq> set (p_actions p) \<Longrightarrow> list_all (known_class p) rest \<Longrightarrow>
   inv st' \<and> set (s_positionals st') \<subseteq> set (p_actions p)"
proof (induction "length rest" arbitrary: rest st rule: less_induct)
  case less
  note IH = less.hyps and run = less.prems(1) and inv = less.prems(2) and pos = less.prems(3) and known = less.prems(4)
  consider "no_options rest" | t s rest1 where "rest = (C_opt t, s) # rest1" | "\<not> no_options rest" "rest \<noteq> []" "\<not> is_opt (hd rest)"
    by (rule loop_case)
  then show ?case
  proof cases
    case 1
    then show ?thesis using run inv pos by (simp add: loop_done)
  next
    case 2
    then obtain n st1 where o: "consume_optional p sub t s rest1 st = Inr (n, st1)" "arg_loop p sub (drop n rest1) st1 = Inr (rest', st')"
      using run by (auto simp: loop_option pbind_Inr_iff)
    have "inv st1" using optional_keeps [OF inv _ o(1)] known 2 by simp
    then show ?thesis
      using IH [OF _ o(2)] o(1) pos known 2 list_all_drop [of "known_class p" rest1 n] by (simp add: consume_optional_positionals)
  next
    case 3
    then obtain n st1 where c: "consume_positionals p sub rest st = Inr (n, st1)"
      "(if 0 < n then arg_loop p sub (drop n rest) st1
        else arg_loop p sub (dropWhile (\<lambda>x. \<not> is_opt x) rest)
          (st1\<lparr>s_extras := s_extras st1 @ map snd (takeWhile (\<lambda>x. \<not> is_opt x) rest)\<rparr>)) = Inr (rest', st')"
      using run by (auto simp: loop_values pbind_Inr_iff)
    have st1: "inv st1" "set (s_positionals st1) \<subseteq> set (p_actions p)" using consume_positionals_keeps [OF inv pos c(1)] by simp_all
    show ?thesis
    proof (cases "0 < n")
      case True
      then show ?thesis using IH [of "drop n rest" st1] c(2) st1 3(2) known by (simp add: list_all_drop)
    next
      case False
      then show ?thesis using IH [of "dropWhile (\<lambda>x. \<not> is_opt x) rest"] c(2) st1 extras_keep dropWhile_shorter [OF 3(2,3)] known
        by (simp add: list_all_dropWhile)
    qed
  qed
qed

lemma convert_keeps:
  "inv st \<Longrightarrow> set acts \<subseteq> set (p_actions p) \<Longrightarrow> fold_parsed convert_default st acts = Inr st' \<Longrightarrow> inv st' \<and> s_extras st' = s_extras st"
proof (induction acts arbitrary: st)
  case (Cons a acts)
  then obtain st1 where st1: "convert_default st a = Inr st1" "fold_parsed convert_default st1 acts = Inr st'"
    by (auto simp: pbind_Inr_iff)
  have "st1 = st \<or> (stores a \<and> (\<exists>v. st1 = store_into st (a_dest a) v))"
    using st1(1) by (auto simp: convert_default_def pbind_Inr_iff split: if_splits arg_value.splits)
  then have "inv st1" "s_extras st1 = s_extras st" using Cons.prems store_keeps by (auto simp: store_into_def)
  then show ?case using Cons st1(2) by auto
qed simp

lemma parse_keeps:
  assumes "parse_known_args p sub argv = Inr (ns, ex)" and "inv (first_state p)"
  obtains st ex' where "inv st" and "ns = s_ns st" and "ex = s_extras st @ ex'"
proof -
  obtain rest rest1 st1 n st2 st3 where r: "classify p argv = Inr rest" "arg_loop p sub rest (first_state p) = Inr (rest1, st1)"
    "consume_positionals p sub rest1 st1 = Inr (n, st2)" "fold_parsed convert_default st2 (p_actions p) = Inr st3"
    "ns = s_ns st3" "ex = s_extras st3 @ map snd (drop n rest1)"
    using assms(1) by (auto simp: parse_known_args_def first_state_def pbind_Inr_iff split: if_splits)
  have "set (s_positionals (first_state p)) \<subseteq> set (p_actions p)" by (auto simp: first_state_def)
  from loop_keeps [OF r(2) assms(2) this classify_known [OF r(1)]] consume_positionals_keeps [OF _ _ r(3)]
  have "inv st2" by blast
  then have "inv st3" using convert_keeps [OF _ _ r(4)] by blast
  then show ?thesis using that r(5,6) by blast
qed

end

section \<open>Attributes are there\<close>

lemma merge_has: "dict_has (merge_ns m ns) d \<longleftrightarrow> dict_has m d \<or> d \<in> fst ` set ns"
  unfolding merge_ns_def by (induction ns arbitrary: m) (auto simp: dict_has_set)

interpretation has_key: arg_invariant p sub "\<lambda>st. dict_has (s_ns st) d" for p sub d
  by unfold_locales (auto simp: store_into_def dict_has_set merge_has)

lemma set_missing_has: "dict_has (foldl set_missing m xs) d \<longleftrightarrow> dict_has m d \<or> d \<in> fst ` set xs"
  by (induction xs arbitrary: m) (auto simp: set_missing_def dict_has_set)

lemma initial_has: "dict_has (initial_namespace p) d \<longleftrightarrow> d \<in> a_dest ` set (filter stores (p_actions p)) \<union> fst ` set (p_defaults p)"
proof -
  have "\<not> dict_has [] d" by (simp add: dict_has_def dict_get_def)
  then show ?thesis unfolding initial_namespace_def set_missing_has by (force simp: image_iff)
qed

text \<open>Every declared argument has a value in the namespace of a parse that succeeds.\<close>

lemma parse_has:
  assumes "parse_known_args p sub argv = Inr (ns, ex)" and "d \<in> a_dest ` set (filter stores (p_actions p)) \<union> fst ` set (p_defaults p)"
  shows "dict_has ns d"
  by (rule has_key.parse_keeps [OF assms(1), of d]) (use assms(2) in \<open>simp_all add: first_state_def initial_has\<close>)

section \<open>Unknown options\<close>

interpretation any_state: arg_invariant p sub "\<lambda>_. True" for p sub
  by unfold_locales simp_all

interpretation has_extras: arg_invariant p sub "\<lambda>st. s_extras st \<noteq> []" for p sub
  by unfold_locales (auto simp: store_into_def)

definition unknown :: "arg_class \<times> string \<Rightarrow> bool" where
  "unknown x \<longleftrightarrow> (\<exists>os e. fst x = C_opt (None, os, e))"

lemma unknown_opt: "unknown x \<Longrightarrow> is_opt x"
  by (auto simp: unknown_def is_opt_iff)

lemma takes_no_opt: "takes n w \<Longrightarrow> n \<noteq> N_parser \<Longrightarrow> x \<in> set w \<Longrightarrow> \<not> is_opt x"
proof -
  assume t: "takes n w" "n \<noteq> N_parser" and x: "x \<in> set w"
  have "list_all is_arg (filter (\<lambda>x. \<not> is_dash x) w)"
    using t by (cases n) (simp_all add: takes_def Let_def)
  then have "is_dash x \<or> is_arg x" using x by (simp only: list_all_iff set_filter) blast
  then show ?thesis by (cases x rule: is_opt.cases) auto
qed

lemma match_all_no_opt:
  "match_all ns rest = Some ks \<Longrightarrow> N_parser \<notin> set ns \<Longrightarrow> x \<in> set (take (sum_list ks) rest) \<Longrightarrow> \<not> is_opt x"
proof (induction ns arbitrary: rest ks)
  case (Cons n ns)
  from Cons.prems(1) obtain k ks' where k: "takes n (take k rest)" "match_all ns (drop k rest) = Some ks'" "ks = k # ks'"
    by (auto simp del: upt_Suc dest!: first_some_Some split: if_splits)
  then have "x \<in> set (take k rest) \<or> x \<in> set (take (sum_list ks') (drop k rest))" using Cons.prems(3) by (simp add: take_add)
  then show ?case using takes_no_opt [OF k(1)] Cons.IH [OF k(2)] Cons.prems(2) by (metis list.set_intros)
qed simp

lemma match_partial_no_opt:
  assumes "N_parser \<notin> set ns" and "x \<in> set (take (sum_list (match_partial ns rest)) rest)"
  shows "\<not> is_opt x"
proof (cases "first_some (\<lambda>i. match_all (take i ns) rest) (rev [1..<Suc (length ns)])")
  case None
  then show ?thesis using assms(2) by (simp add: match_partial_def)
next
  case (Some ks)
  then obtain i where "match_all (take i ns) rest = Some ks" by (auto dest: first_some_Some)
  moreover have "N_parser \<notin> set (take i ns)" using assms(1) by (auto dest: in_set_takeD)
  ultimately show ?thesis using match_all_no_opt assms(2) Some unfolding match_partial_def by fastforce
qed

lemma match_argument_no_opt: "match_argument n rest = Some k \<Longrightarrow> n \<noteq> N_parser \<Longrightarrow> x \<in> set (take k rest) \<Longrightarrow> \<not> is_opt x"
proof -
  assume m: "match_argument n rest = Some k" "n \<noteq> N_parser" and x: "x \<in> set (take k rest)"
  then have "k \<le> length (takeWhile is_arg rest)"
    by (cases n) (auto simp: match_argument_def Let_def min_def split: if_splits)
  then have "take k rest = take k (takeWhile is_arg rest)"
    by (metis append_eq_conv_conj take_append takeWhile_dropWhile_id diff_is_0_eq take_0 append_Nil2)
  then have "is_arg x" using x by (auto dest: in_set_takeD set_takeWhileD)
  then show ?thesis by (cases x rule: is_opt.cases) auto
qed

text \<open>Parsers without sub-commands.\<close>

definition flat :: "arg_parser \<Rightarrow> bool" where
  "flat p \<longleftrightarrow> N_parser \<notin> a_nargs ` set (p_actions p)"

lemma flatD: "flat p \<Longrightarrow> a \<in> set (p_actions p) \<Longrightarrow> a_nargs a \<noteq> N_parser"
  by (metis flat_def imageI)

lemma explicit_use_no_opt:
  "explicit_use p a os sep e rest = Inr (us, ex, n) \<Longrightarrow> flat p \<Longrightarrow> x \<in> set (take n rest) \<Longrightarrow> \<not> is_opt x"
proof (induction p a os sep e rest arbitrary: us ex n rule: explicit_use.induct)
  case (1 p a os sep e rest)
  show ?case
  proof (cases "n = 0")
    case False
    with 1(2) obtain a1 where a1: "a_nargs a = N_zero" "os ! 1 \<noteq> CHR ''-'' \<and> e \<noteq> []" "\<not> (sep \<noteq> [] \<or> hd e = CHR ''-'')"
      "find_option p [CHR ''-'', hd e] = Some a1"
      by (auto simp: explicit_use.simps [of p a] split: if_splits option.splits)
    show ?thesis
    proof (cases "next_explicit (tl e)")
      case None
      then obtain k where "match_argument (a_nargs a1) rest = Some k" "n = k"
        using 1(2) a1 by (auto simp: explicit_use.simps [of p a] plain_use_def split: option.splits)
      moreover have "a_nargs a1 \<noteq> N_parser" by (rule flatD [OF 1(3) find_option_known [OF a1(4)]])
      ultimately show ?thesis using match_argument_no_opt 1(4) by blast
    next
      case (Some se)
      obtain sep1 e1 where se: "se = (sep1, e1)" by force
      then obtain us1 where "explicit_use p a1 [CHR ''-'', hd e] sep1 e1 rest = Inr (us1, ex, n)"
        using 1(2) a1 Some by (cases "explicit_use p a1 [CHR ''-'', hd e] sep1 e1 rest") (auto simp: explicit_use.simps [of p a])
      from 1(1) [OF a1 Some se [symmetric] this 1(3,4)] show ?thesis .
    qed
  qed (use 1(4) in simp)
qed

lemma consume_optional_no_opt:
  assumes "consume_optional p sub t s rest st = Inr (n, st')" and "flat p" and "known_class p (C_opt t, s)" and "x \<in> set (take n rest)"
  shows "\<not> is_opt x"
proof -
  obtain oa os e where t: "t = (oa, os, e)" by (cases t)
  show ?thesis
  proof (cases oa)
    case None
    then show ?thesis using assms(1,4) by (auto simp: t consume_optional_def)
  next
    case (Some a)
    then have a: "a_nargs a \<noteq> N_parser" using flatD [OF assms(2)] assms(3) by (simp add: t)
    define r where "r = (case e of None \<Rightarrow> plain_use a os rest | Some (sep, e) \<Rightarrow> explicit_use p a os sep e rest)"
    have "pbind r (\<lambda>(us, ex, n). pbind (fold_parsed (take_action p sub) (st\<lparr>s_extras := s_extras st @ ex\<rparr>) us) (\<lambda>st1. Inr (n, st1))) = Inr (n, st')"
      using assms(1) by (simp add: t Some consume_optional_def r_def)
    then obtain us ex where us: "r = Inr (us, ex, n)" by (auto simp: pbind_Inr_iff)
    show ?thesis
    proof (cases e)
      case None
      then show ?thesis using us match_argument_no_opt [OF _ a assms(4)] by (auto simp: r_def plain_use_def split: option.splits)
    next
      case (Some se)
      then show ?thesis using us explicit_use_no_opt [OF _ assms(2,4)] by (cases se) (auto simp: r_def)
    qed
  qed
qed

lemma split_at: "x \<in> set rest \<Longrightarrow> x \<notin> set (take n rest) \<Longrightarrow> x \<in> set (drop n rest)"
  by (metis Un_iff append_take_drop_id set_append)

text \<open>An option that is not known stays until it is put with the strings left over.\<close>

lemma loop_unknown:
  assumes "flat p"
  shows "arg_loop p sub rest st = Inr (rest', st') \<Longrightarrow> set (s_positionals st) \<subseteq> set (p_actions p) \<Longrightarrow> list_all (known_class p) rest \<Longrightarrow>
    unknown x \<Longrightarrow> x \<in> set rest \<Longrightarrow> s_extras st' \<noteq> []"
proof (induction "length rest" arbitrary: rest st rule: less_induct)
  case less
  note IH = less.hyps and run = less.prems(1) and pos = less.prems(2) and known = less.prems(3) and x = less.prems(4,5)
  consider "no_options rest" | t s rest1 where "rest = (C_opt t, s) # rest1" | "\<not> no_options rest" "rest \<noteq> []" "\<not> is_opt (hd rest)"
    by (rule loop_case)
  then show ?case
  proof cases
    case 1
    then show ?thesis using x by (metis list_all_iff no_options_def unknown_opt)
  next
    case 2
    then obtain n st1 where o: "consume_optional p sub t s rest1 st = Inr (n, st1)" "arg_loop p sub (drop n rest1) st1 = Inr (rest', st')"
      using run by (auto simp: loop_option pbind_Inr_iff)
    have pos1: "set (s_positionals st1) \<subseteq> set (p_actions p)" using pos o(1) by (simp add: consume_optional_positionals)
    have known1: "list_all (known_class p) (drop n rest1)" using known 2 by (simp add: list_all_drop)
    show ?thesis
    proof (cases "x = (C_opt t, s)")
      case True
      then have "s_extras st1 \<noteq> []" using x(1) o(1) by (auto simp: unknown_def consume_optional_def)
      then show ?thesis using has_extras.loop_keeps [OF o(2) _ pos1 known1] by blast
    next
      case False
      then have "x \<in> set (drop n rest1)"
        using x 2 known consume_optional_no_opt [OF o(1) assms] unknown_opt [OF x(1)] split_at [of x rest1 n] by simp blast
      then show ?thesis using IH [OF _ o(2) pos1 known1] x(1) 2 by simp
    qed
  next
    case 3
    then obtain n st1 where c: "consume_positionals p sub rest st = Inr (n, st1)"
      "(if 0 < n then arg_loop p sub (drop n rest) st1
        else arg_loop p sub (dropWhile (\<lambda>x. \<not> is_opt x) rest)
          (st1\<lparr>s_extras := s_extras st1 @ map snd (takeWhile (\<lambda>x. \<not> is_opt x) rest)\<rparr>)) = Inr (rest', st')"
      using run by (auto simp: loop_values pbind_Inr_iff)
    have pos1: "set (s_positionals st1) \<subseteq> set (p_actions p)" 
      using pos consume_positionals_left [OF c(1)] by blast
    show ?thesis
    proof (cases "0 < n")
      case True
      have "\<forall>a \<in> set (s_positionals st). a_nargs a \<noteq> N_parser" using flatD [OF assms] pos by blast
      then have "N_parser \<notin> set (map a_nargs (s_positionals st))" by force
      moreover have "n = sum_list (match_partial (map a_nargs (s_positionals st)) rest)"
        using c(1) by (auto simp: consume_positionals_def Let_def pbind_Inr_iff)
      ultimately have "x \<in> set (drop n rest)"
        using match_partial_no_opt [of "map a_nargs (s_positionals st)" x rest] unknown_opt [OF x(1)] split_at [OF x(2)] by blast
      then show ?thesis using IH [of "drop n rest" st1] c(2) pos1 x(1) 3(2) known True by (simp add: list_all_drop)
    next
      case False
      have "x \<in> set (dropWhile (\<lambda>x. \<not> is_opt x) rest)"
        using unknown_opt [OF x(1)] x(2) by (metis Un_iff set_append set_takeWhileD takeWhile_dropWhile_id)
      then show ?thesis
        using IH [of "dropWhile (\<lambda>x. \<not> is_opt x) rest"] c(2) pos1 x(1) False dropWhile_shorter [OF 3(2,3)] known
        by (simp add: list_all_dropWhile)
    qed
  qed
qed

lemma unknown_rejected:
  assumes "flat p" and "classify p argv = Inr cs" and "x \<in> set cs" and "unknown x"
  shows "\<exists>e. parse_args p subs argv = Inl e"
proof (rule ccontr)
  assume "\<nexists>e. parse_args p subs argv = Inl e"
  then obtain ns where "parse_args p subs argv = Inr ns" by (cases "parse_args p subs argv") auto
  then obtain rest1 st1 n st2 st3 where r: "arg_loop p (sub_parser subs) cs (first_state p) = Inr (rest1, st1)"
    "consume_positionals p (sub_parser subs) rest1 st1 = Inr (n, st2)" "fold_parsed convert_default st2 (p_actions p) = Inr st3"
    "s_extras st3 @ map snd (drop n rest1) = []"
    using assms(2) by (auto simp: parse_args_def parse_known_args_def first_state_def pbind_Inr_iff split: if_splits)
  have pos: "set (s_positionals (first_state p)) \<subseteq> set (p_actions p)" by (auto simp: first_state_def)
  have "s_extras st1 \<noteq> []" by (rule loop_unknown [OF assms(1) r(1) pos classify_known [OF assms(2)] assms(4,3)])
  moreover have "set (s_positionals st1) \<subseteq> set (p_actions p)"
    using any_state.loop_keeps [OF r(1) _ pos classify_known [OF assms(2)]] by blast
  ultimately have "s_extras st2 \<noteq> []" using has_extras.consume_positionals_keeps [OF _ _ r(2)] by blast
  then show False using has_extras.convert_keeps [OF _ _ r(3)] r(4) by auto
qed

section \<open>Sub-commands\<close>

interpretation ns_wf: arg_invariant p sub "\<lambda>st. dict_wf (s_ns st)" for p sub
proof unfold_locales
  fix st :: arg_state and ns :: namespace and ex
  assume "dict_wf (s_ns st)"
  then have "dict_wf (merge_ns m ns)" if "dict_wf m" for m
    using that by (induction ns arbitrary: m) (auto simp: merge_ns_def dict_wf_set)
  then show "dict_wf (s_ns (st\<lparr>s_ns := merge_ns (s_ns st) ns, s_extras := s_extras st @ ex\<rparr>))"
    using \<open>dict_wf (s_ns st)\<close> by simp
qed (simp_all add: store_into_def dict_wf_set)

lemma initial_wf: "dict_wf (initial_namespace p)"
proof -
  have "dict_wf (foldl set_missing m xs)" if "dict_wf m" for m xs
    using that by (induction xs arbitrary: m) (auto simp: set_missing_def dict_wf_set)
  then show ?thesis by (simp add: initial_namespace_def dict_wf_def)
qed

lemma parse_wf: "parse_known_args p sub argv = Inr (ns, ex) \<Longrightarrow> dict_wf ns"
  by (rule ns_wf.parse_keeps [of p sub argv ns ex]) (simp_all add: first_state_def initial_wf)

lemma merge_get:
  assumes "dict_wf ns"
  shows "dict_get (merge_ns m ns) d = (case dict_get ns d of Some v \<Rightarrow> Some v | None \<Rightarrow> dict_get m d)"
  using assms
proof (induction ns arbitrary: m)
  case (Cons x ns)
  obtain k v where x: "x = (k, v)" by force
  have "dict_wf ns" and k: "k \<notin> fst ` set ns" using Cons.prems by (auto simp: dict_wf_def dict_keys_def x)
  have "dict_get ns k = None" using k by (simp add: dict_get_def map_of_eq_None_iff)
  moreover have "dict_get ((k, v) # ns) d = (if d = k then Some v else dict_get ns d)" by (simp add: dict_get_def)
  moreover have "merge_ns m (x # ns) = merge_ns (dict_set m k v) ns" by (simp add: merge_ns_def x)
  ultimately show ?case using Cons.IH [OF \<open>dict_wf ns\<close>, of "dict_set m k v"]
    by (cases "d = k") (simp_all add: x dict_set_get split: option.split)
qed (simp add: merge_ns_def dict_get_def)

definition dests :: "arg_parser \<Rightarrow> string set" where
  "dests p = a_dest ` set (filter stores (p_actions p))"

text \<open>A destination that is not declared keeps its value where there are no sub-commands.\<close>

lemma parse_fixed:
  assumes "parse_known_args p no_sub argv = Inr (ns, ex)" and "d \<notin> dests p"
  shows "dict_get ns d = dict_get (initial_namespace p) d"
proof -
  have "arg_invariant p no_sub (\<lambda>st. dict_get (s_ns st) d = dict_get (initial_namespace p) d)"
    using assms(2) by unfold_locales (auto simp: store_into_def dict_set_get dests_def no_sub_def)
  from arg_invariant.parse_keeps [OF this assms(1)] show ?thesis by (auto simp: first_state_def)
qed

lemma initial_default:
  assumes "p_defaults p = [(d, v)]" and "d \<notin> dests p"
  shows "dict_get (initial_namespace p) d = Some v"
proof -
  have "\<not> dict_has (foldl set_missing [] (map (\<lambda>a. (a_dest a, a_default a)) (filter stores (p_actions p)))) d"
    using assms(2) by (auto simp: set_missing_has dests_def) (auto simp: dict_has_def dict_get_def)
  then show ?thesis using assms(1) by (simp add: initial_namespace_def set_missing_def dict_set_get)
qed

text \<open>
  The function a sub-command sets identifies it: when the namespace has one, it is the one of a
  sub-command whose arguments all have a value.
\<close>

definition func_parsers :: "(string \<times> arg_parser) list \<Rightarrow> bool" where
  "func_parsers subs \<longleftrightarrow> (\<forall>(name, q) \<in> set subs. \<exists>v. p_defaults q = [(''func'', v)] \<and> ''func'' \<notin> dests q)"

definition func_ok :: "(string \<times> arg_parser) list \<Rightarrow> namespace \<Rightarrow> bool" where
  "func_ok subs ns \<longleftrightarrow> (case dict_get ns ''func'' of
      None \<Rightarrow> True
    | Some v \<Rightarrow> \<exists>(name, q) \<in> set subs. p_defaults q = [(''func'', v)] \<and> (\<forall>d \<in> dests q. dict_has ns d))"

lemma sub_parser_func:
  assumes "func_parsers subs" and "sub_parser subs name rest = Inr (ns, ex)"
  shows "func_ok subs (merge_ns m ns)"
proof -
  obtain q where q: "map_of subs name = Some q" "parse_known_args q no_sub rest = Inr (ns, ex)"
    using assms(2) by (auto simp: sub_parser_def split: option.splits)
  then have "(name, q) \<in> set subs" by (simp add: map_of_SomeD)
  moreover obtain v where v: "p_defaults q = [(''func'', v)]" "''func'' \<notin> dests q"
    using assms(1) calculation by (auto simp: func_parsers_def)
  moreover have "dict_get (merge_ns m ns) ''func'' = Some v"
    using parse_fixed [OF q(2) v(2)] initial_default [OF v] by (simp add: merge_get [OF parse_wf [OF q(2)]])
  moreover have "\<forall>d \<in> dests q. dict_has (merge_ns m ns) d"
  proof
    fix d
    assume "d \<in> dests q"
    then have "dict_has ns d" by (intro parse_has [OF q(2)]) (simp add: dests_def)
    then show "dict_has (merge_ns m ns) d" by (auto simp: dict_has_def merge_get [OF parse_wf [OF q(2)]])
  qed
  ultimately show ?thesis unfolding func_ok_def by auto
qed

lemma parse_func:
  assumes "parse_args p subs argv = Inr ns" and "func_parsers subs" and "''func'' \<notin> dests p" and "p_defaults p = []"
  shows "func_ok subs ns"
proof -
  obtain ex where known: "parse_known_args p (sub_parser subs) argv = Inr (ns, ex)"
    using assms(1) by (auto simp: parse_args_def pbind_Inr_iff split: if_splits)
  have "arg_invariant p (sub_parser subs) (\<lambda>st. func_ok subs (s_ns st))"
  proof unfold_locales
    fix st :: arg_state and a v
    assume "func_ok subs (s_ns st)" "a \<in> set (p_actions p)" "stores a"
    moreover from this have "a_dest a \<noteq> ''func''" using assms(3) unfolding dests_def by (metis (mono_tags, lifting) filter_set image_eqI mem_Collect_eq set_filter)
    ultimately show "func_ok subs (s_ns (store_into st (a_dest a) v))"
      unfolding func_ok_def store_into_def by (auto simp: dict_set_get dict_has_set split: option.splits)
  qed (auto intro: sub_parser_func [OF assms(2)])
  moreover have "func_ok subs (s_ns (first_state p))"
  proof -
    have "\<not> dict_has (initial_namespace p) ''func''" using assms(3,4) by (simp add: initial_has dests_def)
    then show ?thesis by (simp add: func_ok_def first_state_def dict_has_def)
  qed
  ultimately show ?thesis using arg_invariant.parse_keeps [OF _ known] by metis
qed

end
