(* ===== verification/Doc_Tools.thy ===== *)
theory Doc_Tools
  imports Man_Format Py_Lines Kdoc_Files
begin

text \<open>
  The small tools: \<^verbatim>\<open>enrich_formatter.py\<close> (help texts), \<^verbatim>\<open>latex_fonts.py\<close> with \<^verbatim>\<open>check-variable-fonts.py\<close>
  (variable CJK fonts), and the command lines of \<^verbatim>\<open>get_feat.py\<close> and \<^verbatim>\<open>get_abi.py\<close>, whose parsers are modules
  that are not part of the repository and appear as records of functions.
\<close>

section \<open>Help texts\<close>

definition RE_MARKUP :: regex where "RE_MARKUP = re (rx ''~`~`(.+?)~`~`'')"

definition bold :: "string \<Rightarrow> string" where
  "bold t = [CHR 0x1B] @ ''[1m'' @ t @ [CHR 0x1B] @ ''[0m''"

definition enrich_text :: "bool \<Rightarrow> string \<Rightarrow> string" where
  "enrich_text tty txt =
     (if tty \<and> txt \<noteq> [] then
        (case re_scan RE_MARKUP txt of (segs, tail) \<Rightarrow>
           sub_segs (\<lambda>(pre, t, g). bold (case g 1 of Some x \<Rightarrow> x | None \<Rightarrow> [])) segs @ tail)
      else txt)"

definition fill_text :: "bool \<Rightarrow> string \<Rightarrow> string \<Rightarrow> string" where
  "fill_text tty txt ind = join [NL] (map (\<lambda>line. ind @ line) (splitlines (enrich_text tty txt)))"

record action =
  ac_option_strings :: "string list"
  ac_no_args :: bool
  ac_dest :: string

definition positional :: "bool \<Rightarrow> action \<Rightarrow> string" where
  "positional tty a = enrich_text tty (''``'' @ upper_str (ac_dest a) @ ''``'')"

definition usage_part :: "bool \<Rightarrow> action \<Rightarrow> string" where
  "usage_part tty a = (case ac_option_strings a of
      option # _ \<Rightarrow> ''['' @ option @ (if ac_no_args a then [] else '' '' @ upper_str (ac_dest a)) @ '']''
    | [] \<Rightarrow> positional tty a)"

definition format_usage :: "bool \<Rightarrow> string \<Rightarrow> action list \<Rightarrow> string option \<Rightarrow> string" where
  "format_usage tty prg actions pre =
     (case pre of Some (c # cs) \<Rightarrow> c # cs | _ \<Rightarrow> ''usage: '') @ '' '' @ prg @ '' '' @ join '' '' (map (usage_part tty) actions) @ [NL]"

definition format_action_invocation :: "bool \<Rightarrow> action \<Rightarrow> string" where
  "format_action_invocation tty a = (if ac_option_strings a = [] then positional tty a else join '', '' (ac_option_strings a))"

section \<open>Fonts\<close>

definition re_cjk :: regex where "re_cjk = re (rx ''([^:]+):~s*Noto~s+(Sans|Sans Mono|Serif) CJK'')"

definition font_environ :: "(string, string) dict \<Rightarrow> (string \<Rightarrow> string) \<Rightarrow> string option \<Rightarrow> (string, string) dict" where
  "font_environ environ expanduser deny_vf0 =
     (let deny_vf = (case deny_vf0 of
          Some (c # cs) \<Rightarrow> c # cs
        | _ \<Rightarrow> (case dict_get environ ''FONTS_CONF_DENY_VF'' of Some d \<Rightarrow> d | None \<Rightarrow> ''~/deny-vf'')) in
      dict_set environ ''XDG_CONFIG_HOME'' (expanduser deny_vf))"

text \<open>What \<^verbatim>\<open>fc-list\<close> does in an environment: it is not installed, it fails, or it prints its list.\<close>

datatype fc_result = Fc_missing | Fc_failed | Fc_output string

definition font_of :: "string \<Rightarrow> string list" where
  "font_of line =
     (if \<not> contains line ''variable=True'' then []
      else (case re_search re_cjk line of Some m \<Rightarrow> [m_str m 1] | None \<Rightarrow> []))"

definition get_noto_cjk_vf_fonts :: "((string, string) dict \<Rightarrow> fc_result) \<Rightarrow> (string, string) dict \<Rightarrow> string list res" where
  "get_noto_cjk_vf_fonts fc_list environ = (case fc_list environ of
      Fc_missing \<Rightarrow> Inl OSError
    | Fc_failed \<Rightarrow> Inl SystemExit
    | Fc_output out \<Rightarrow> Inr (sort (remdups (concat (map font_of (splitlines out))))))"

definition font_hint :: string where
  "font_hint = [NL] @ ''For CJK pages in PDF, they need to be hidden from XeTeX by denylisting.'' @ [NL] @
     ''Or, CJK pages can be skipped by uninstalling texlive-xecjk.'' @ [NL, NL] @
     ''For more info on denylisting, other options, and variable font, run:'' @ [NL, NL] @
     ''    tools/docs/check-variable-fonts.py -h'' @ [NL]"

definition font_check :: "((string, string) dict \<Rightarrow> fc_result) \<Rightarrow> (string, string) dict \<Rightarrow> string option res" where
  "font_check fc_list environ =
     rbind (get_noto_cjk_vf_fonts fc_list environ) (\<lambda>fs.
     let fonts = indent (join [NL] fs) ''    '' in
     Inr (if fonts = [] then None
          else Some (replicate 77 (CHR ''='') @ [NL] @ ''XeTeX is confused by \"variable font\" files listed below:'' @ [NL] @
            fonts @ [NL] @ font_hint @ replicate 77 (CHR ''=''))))"

text \<open>The script prints the message, if there is one, and exits with status 1 either way.\<close>

definition check_variable_fonts ::
    "((string, string) dict \<Rightarrow> fc_result) \<Rightarrow> (string, string) dict \<Rightarrow> (string \<Rightarrow> string) \<Rightarrow> string option \<Rightarrow> (string list \<times> nat) res" where
  "check_variable_fonts fc_list environ expanduser deny_vf =
     rbind (font_check fc_list (font_environ environ expanduser deny_vf)) (\<lambda>msg.
     Inr (case msg of Some (c # cs) \<Rightarrow> [c # cs] | _ \<Rightarrow> [], 1))"

section \<open>Feature lists\<close>

record 'p feature_api =
  fa_parse :: "string \<Rightarrow> nat \<Rightarrow> bool \<Rightarrow> 'p"
  fa_pprint :: "'p \<Rightarrow> string"
  fa_arch_table :: "'p \<Rightarrow> string \<Rightarrow> string option \<Rightarrow> string"
  fa_feature :: "'p \<Rightarrow> string \<Rightarrow> string"
  fa_matrix :: "'p \<Rightarrow> string"
  fa_list :: "'p \<Rightarrow> string \<Rightarrow> string option \<Rightarrow> string"

datatype feat_command = F_current | F_rest | F_list | F_validate

record feat_args =
  fg_directory :: string
  fg_debug :: nat
  fg_enable_fname :: bool
  fg_arch :: "string option"
  fg_feat :: "string option"
  fg_func :: "feat_command option"

definition some_text :: "string option \<Rightarrow> string option" where
  "some_text x = (case x of Some (c # cs) \<Rightarrow> Some (c # cs) | _ \<Rightarrow> None)"

text \<open>The architecture from \<^verbatim>\<open>uname -m\<close>, which may fail.\<close>

definition get_current_arch :: "string option \<Rightarrow> string res" where
  "get_current_arch uname = (case uname of
      None \<Rightarrow> Inl CalledProcessError
    | Some out \<Rightarrow> (let arch = strip out in
        Inr (if arch \<in> {''x86_64'', ''i386''} then ''x86'' else if arch = ''s390x'' then ''s390'' else arch)))"

definition run_parser :: "'p feature_api \<Rightarrow> feat_args \<Rightarrow> 'p \<times> string list" where
  "run_parser api args =
     (let feat = fa_parse api (fg_directory args) (fg_debug args) (fg_enable_fname args) in
      (feat, if 2 < fg_debug args then [fa_pprint api feat] else []))"

definition run_rest :: "'p feature_api \<Rightarrow> feat_args \<Rightarrow> string list" where
  "run_rest api args = (case run_parser api args of (feat, out) \<Rightarrow>
     out @ [case some_text (fg_arch args) of
         Some arch \<Rightarrow> fa_arch_table api feat arch (fg_feat args)
       | None \<Rightarrow> (case some_text (fg_feat args) of
             Some f \<Rightarrow> fa_feature api feat f
           | None \<Rightarrow> fa_matrix api feat)])"

definition run_current :: "'p feature_api \<Rightarrow> string option \<Rightarrow> feat_args \<Rightarrow> string list res" where
  "run_current api uname args = rbind (get_current_arch uname) (\<lambda>arch. Inr (run_rest api (args\<lparr>fg_arch := Some arch\<rparr>)))"

definition run_list :: "'p feature_api \<Rightarrow> string option \<Rightarrow> feat_args \<Rightarrow> string list res" where
  "run_list api uname args =
     rbind (case some_text (fg_arch args) of Some arch \<Rightarrow> Inr arch | None \<Rightarrow> get_current_arch uname) (\<lambda>arch.
     Inr (case run_parser api args of (feat, out) \<Rightarrow> out @ [fa_list api feat arch (fg_feat args)]))"

definition get_feat :: "'p feature_api \<Rightarrow> string option \<Rightarrow> feat_args \<Rightarrow> string list res" where
  "get_feat api uname args = (case fg_func args of
      Some F_current \<Rightarrow> run_current api uname args
    | Some F_rest \<Rightarrow> Inr (run_rest api args)
    | Some F_list \<Rightarrow> run_list api uname args
    | Some F_validate \<Rightarrow> Inr (snd (run_parser api args))
    | None \<Rightarrow> Inl SystemExit)"

section \<open>Kernel interfaces\<close>

text \<open>A parser after \<^verbatim>\<open>parse_abi\<close>, what its methods print or yield, and the check of undefined symbols.\<close>

record 'p abi_api =
  aa_parse :: "string \<Rightarrow> int \<Rightarrow> 'p"
  aa_check_issues :: "'p \<Rightarrow> string list"
  aa_doc :: "'p \<Rightarrow> bool \<Rightarrow> bool \<Rightarrow> (string \<times> string \<times> string) list"
  aa_search :: "'p \<Rightarrow> string \<Rightarrow> string list"
  aa_undefined :: "string \<Rightarrow> int \<Rightarrow> string option \<Rightarrow> bool \<Rightarrow> string \<Rightarrow> bool \<Rightarrow> bool \<Rightarrow> int \<Rightarrow> int \<Rightarrow> string list"

datatype abi_command =
    A_rest bool bool bool | A_validate | A_search string | A_undefined "string option" bool string bool bool int int

definition abi_rest :: "'p abi_api \<Rightarrow> string \<Rightarrow> int \<Rightarrow> bool \<Rightarrow> bool \<Rightarrow> bool \<Rightarrow> string list" where
  "abi_rest api dir debug enable_lineno raw_text no_file =
     (let parser = aa_parse api dir debug in
      aa_check_issues api parser @
      concat (map (\<lambda>(body, fname, ln). (if enable_lineno then [''.. LINENO '' @ fname @ ''#'' @ ln @ [NL, NL]] else []) @ [body])
        (aa_doc api parser raw_text (\<not> no_file))))"

definition abi_validate :: "'p abi_api \<Rightarrow> string \<Rightarrow> int \<Rightarrow> string list" where
  "abi_validate api dir debug = aa_check_issues api (aa_parse api dir debug)"

definition abi_search :: "'p abi_api \<Rightarrow> string \<Rightarrow> int \<Rightarrow> string \<Rightarrow> string list" where
  "abi_search api dir debug expression = aa_search api (aa_parse api dir debug) expression"

definition abi_undefined ::
    "'p abi_api \<Rightarrow> string \<Rightarrow> int \<Rightarrow> string option \<Rightarrow> bool \<Rightarrow> string \<Rightarrow> bool \<Rightarrow> bool \<Rightarrow> int \<Rightarrow> int \<Rightarrow> string list" where
  "abi_undefined api dir debug search_string show_hints sysfs_dir dry_run found jobs max_chunk_size =
     aa_undefined api dir debug search_string show_hints sysfs_dir dry_run found jobs max_chunk_size"

definition get_abi :: "'p abi_api \<Rightarrow> string \<Rightarrow> int \<Rightarrow> abi_command option \<Rightarrow> string list res" where
  "get_abi api dir debug func = (case func of
      Some (A_rest enable_lineno raw_text no_file) \<Rightarrow> Inr (abi_rest api dir debug enable_lineno raw_text no_file)
    | Some A_validate \<Rightarrow> Inr (abi_validate api dir debug)
    | Some (A_search expression) \<Rightarrow> Inr (abi_search api dir debug expression)
    | Some (A_undefined search_string show_hints sysfs_dir dry_run found jobs max_chunk_size) \<Rightarrow>
        Inr (abi_undefined api dir debug search_string show_hints sysfs_dir dry_run found jobs max_chunk_size)
    | None \<Rightarrow> Inl SystemExit)"

section \<open>Fonts are reported exactly\<close>

lemma cjk_group: "re_search re_cjk line = Some m \<Longrightarrow> m_str m 1 \<noteq> []"
proof -
  assume m: "re_search re_cjk line = Some m"
  have "sure 1 re_cjk" by code_simp
  from re_search_sure [OF m this] obtain t where t: "m_group m 1 = Some t" by auto
  have "\<forall>b \<in> set (bodies 1 re_cjk). 0 < min_len b" by code_simp
  with re_search_group [OF m _ t] lang_min_len have "t \<noteq> []" by fastforce
  then show ?thesis using t by (simp add: m_str_def)
qed

text \<open>
  The check reports variable fonts exactly: the fonts are those of the lines of \<^verbatim>\<open>fc-list\<close> that are
  variable and name a Noto CJK family, each once and sorted; there is a message exactly when there is
  such a line.
\<close>

theorem font_check_exact:
  assumes "fc_list environ = Fc_output out"
  shows "\<exists>fonts. get_noto_cjk_vf_fonts fc_list environ = Inr fonts \<and> sorted fonts \<and> distinct fonts \<and>
      set fonts = {m_str m 1 | m. \<exists>line \<in> set (splitlines out). contains line ''variable=True'' \<and> re_search re_cjk line = Some m} \<and>
      (\<exists>msg. font_check fc_list environ = Inr msg \<and> (msg = None \<longleftrightarrow> fonts = []))"
proof -
  define fonts where "fonts = sort (remdups (concat (map font_of (splitlines out))))"
  have g: "get_noto_cjk_vf_fonts fc_list environ = Inr fonts" by (simp add: get_noto_cjk_vf_fonts_def assms fonts_def)
  have st: "set fonts = {m_str m 1 | m. \<exists>line \<in> set (splitlines out). contains line ''variable=True'' \<and> re_search re_cjk line = Some m}"
    by (auto simp: fonts_def font_of_def split: if_splits option.splits) force+
  have "[] \<notin> set fonts" using cjk_group unfolding st by force
  then have "join [NL] fonts = [] \<longleftrightarrow> fonts = []"
    by (cases "([NL], fonts)" rule: join.cases) auto
  then have "\<exists>msg. font_check fc_list environ = Inr msg \<and> (msg = None \<longleftrightarrow> fonts = [])"
    by (simp add: font_check_def g Let_def indent_blank)
  moreover have "sorted fonts" "distinct fonts" by (simp_all add: fonts_def)
  ultimately show ?thesis using g st by blast
qed

definition sample_fc :: "(string, string) dict \<Rightarrow> fc_result" where
  "sample_fc environ = Fc_output ''/a: Noto Serif CJK:variable=True''"

theorem font_check_exact_witness:
  "get_noto_cjk_vf_fonts sample_fc [] = Inr [''/a''] \<and> (\<exists>m. font_check sample_fc [] = Inr (Some m))"
proof -
  have g: "get_noto_cjk_vf_fonts sample_fc [] = Inr [''/a'']" by code_simp
  obtain out where "sample_fc [] = Fc_output out" unfolding sample_fc_def by simp
  from font_check_exact [of sample_fc "[]", OF this] obtain fonts msg where f: "get_noto_cjk_vf_fonts sample_fc [] = Inr fonts"
    "font_check sample_fc [] = Inr msg" "msg = None \<longleftrightarrow> fonts = []" by blast
  then have "fonts = [''/a'']" using g by simp
  then show ?thesis using g f(2,3) by (cases msg) simp_all
qed

end
