(* ===== verification/Trans_Update.thy ===== *)
theory Trans_Update
  imports Doc_Paths Data_Structs
begin

text \<open>
  \<^verbatim>\<open>checktransupdate.py\<close>: which commits a translation has to catch up with. What \<^verbatim>\<open>git log\<close> prints, and the
  point in time a date stands for, are arguments, bundled in a record; so are the files that exist.
  The set-up of the logging module and the parsing of the command line are left out.
\<close>

section \<open>Paths\<close>

fun index_of :: "'a \<Rightarrow> 'a list \<Rightarrow> nat res" where
  "index_of x [] = Inl ValueError"
| "index_of x (y # ys) = (if x = y then Inr 0 else rbind (index_of x ys) (\<lambda>n. Inr (Suc n)))"

definition get_origin_path :: "string \<Rightarrow> string res" where
  "get_origin_path file_path =
     (let paths = split_on (CHR ''/'') file_path in
      rbind (index_of ''translations'' paths) (\<lambda>tidx. Inr (join ''/'' (take tidx paths @ drop (tidx + 2) paths))))"

text \<open>The path of the translation of a file, in \<^verbatim>\<open>main\<close>.\<close>

definition translation_path :: "string \<Rightarrow> string \<Rightarrow> string res" where
  "translation_path locale file_path =
     (let parts = split_on (CHR ''/'') file_path in
      rbind (index_of ''Documentation'' parts) (\<lambda>kindex.
      Inr (join ''/'' (take (kindex + 1) parts @ [''translations'', locale] @ drop (kindex + 1) parts))))"

section \<open>Commits\<close>

record git =
  g_latest :: "string \<Rightarrow> string \<Rightarrow> string"
  g_between :: "string \<Rightarrow> string \<Rightarrow> string \<Rightarrow> string"
  g_pretty :: "string \<Rightarrow> string"
  g_date :: "string \<Rightarrow> int option"

record commit =
  c_hash :: string
  c_author_date :: int
  c_commit_date :: int
  c_message :: "string list"

definition date_of :: "git \<Rightarrow> string \<Rightarrow> int res" where
  "date_of git s = (case g_date git s of Some n \<Rightarrow> Inr n | None \<Rightarrow> Inl ValueError)"

text \<open>Two lines of output without a third one are an \<open>IndexError\<close>.\<close>

definition get_latest_commit_from :: "git \<Rightarrow> string \<Rightarrow> string \<Rightarrow> commit option res" where
  "get_latest_commit_from git file_path commit =
     (let result = split_on NL (g_latest git file_path commit) in
      if length result \<le> 1 then Inr None
      else rbind (date_of git (result ! 1)) (\<lambda>a.
        if length result \<le> 2 then Inl IndexError
        else rbind (date_of git (result ! 2)) (\<lambda>c.
          Inr (Some \<lparr>c_hash = result ! 0, c_author_date = a, c_commit_date = c, c_message = drop 4 result\<rparr>))))"

text \<open>The loop back to a commit that is not younger than the translation; it need not end.\<close>

definition too_young :: "int \<Rightarrow> commit option \<Rightarrow> bool" where
  "too_young date oc = (case oc of None \<Rightarrow> False | Some c \<Rightarrow> c_author_date c > date)"

partial_function (option) origin_loop :: "git \<Rightarrow> string \<Rightarrow> int \<Rightarrow> commit option \<Rightarrow> commit option res option" where
  "origin_loop git origin_path date oc =
     (if too_young date oc then
        (if isl (get_latest_commit_from git origin_path (c_hash (the oc) @ ''^''))
         then Some (get_latest_commit_from git origin_path (c_hash (the oc) @ ''^''))
         else origin_loop git origin_path date (projr (get_latest_commit_from git origin_path (c_hash (the oc) @ ''^''))))
      else Some (Inr oc))"

definition get_origin_from_trans :: "git \<Rightarrow> string \<Rightarrow> commit \<Rightarrow> commit option res option" where
  "get_origin_from_trans git origin_path t = (case get_latest_commit_from git origin_path (c_hash t) of
      Inl e \<Rightarrow> Some (Inl e)
    | Inr oc \<Rightarrow> origin_loop git origin_path (c_author_date t) oc)"

definition pat_update_to :: regex where "pat_update_to = re ''update to commit ([0-9a-f]{12})''"
definition pat_update_translation :: regex where
  "pat_update_translation = re ''Update the translation through commit ([0-9a-f]{12})''"

definition line_hash :: "string \<Rightarrow> string option" where
  "line_hash line = (case re_search pat_update_to line of
      Some m \<Rightarrow> Some (m_str m 1)
    | None \<Rightarrow> (case re_search pat_update_translation line of Some m \<Rightarrow> Some (m_str m 1) | None \<Rightarrow> None))"

definition get_origin_from_trans_smartly :: "git \<Rightarrow> string \<Rightarrow> commit \<Rightarrow> commit option res" where
  "get_origin_from_trans_smartly git origin_path t = (case first_some line_hash (c_message t) of
      None \<Rightarrow> Inr None
    | Some h \<Rightarrow> get_latest_commit_from git origin_path h)"

definition get_commits_count_between :: "git \<Rightarrow> string \<Rightarrow> string \<Rightarrow> string \<Rightarrow> string list" where
  "get_commits_count_between git opath commit1 commit2 = filter (\<lambda>x. x \<noteq> []) (split_on NL (g_between git opath commit1 commit2))"

definition valid_commit :: "git \<Rightarrow> string \<Rightarrow> bool" where
  "valid_commit git commit = (\<not> contains (g_pretty git commit) ''Merge tag'')"

section \<open>One file\<close>

datatype tu_msg = TU_error string | TU_info string

text \<open>What there is to report when the origin of the translation is known.\<close>

definition report_commits :: "git \<Rightarrow> string \<Rightarrow> string \<Rightarrow> commit \<Rightarrow> commit \<Rightarrow> tu_msg list" where
  "report_commits git file_path opath from_t from_head =
     (if c_hash from_head = c_hash from_t then []
      else (let valid = filter (valid_commit git) (get_commits_count_between git opath (c_hash from_t) (c_hash from_head)) in
        [TU_info file_path] @ map (\<lambda>c. TU_info (''commit '' @ g_pretty git c)) valid @
        [TU_info (str_nat (length valid) @ '' commits needs resolving in total'' @ [NL])]))"

definition check_origin :: "git \<Rightarrow> string \<Rightarrow> string \<Rightarrow> commit \<Rightarrow> commit option res \<Rightarrow> tu_msg list res" where
  "check_origin git file_path opath from_head r = rbind r (\<lambda>oc. (case oc of
      None \<Rightarrow> Inr [TU_error (''Error: Cannot find the latest origin commit for '' @ file_path)]
    | Some from_t \<Rightarrow> Inr (report_commits git file_path opath from_t from_head)))"

definition check_commits :: "git \<Rightarrow> string \<Rightarrow> string \<Rightarrow> commit option \<Rightarrow> commit option \<Rightarrow> tu_msg list res option" where
  "check_commits git file_path opath o_head t_head = (case (o_head, t_head) of
      (Some from_head, Some t) \<Rightarrow>
        (case get_origin_from_trans_smartly git opath t of
           Inr None \<Rightarrow> map_option (check_origin git file_path opath from_head) (get_origin_from_trans git opath t)
         | r \<Rightarrow> Some (check_origin git file_path opath from_head r))
    | _ \<Rightarrow> Some (Inr [TU_error (''Cannot find the latest commit for '' @ file_path)]))"

definition check_per_file :: "git \<Rightarrow> (string \<Rightarrow> bool) \<Rightarrow> string \<Rightarrow> tu_msg list res option" where
  "check_per_file git isfile file_path = (case get_origin_path file_path of
      Inl e \<Rightarrow> Some (Inl e)
    | Inr opath \<Rightarrow>
      if \<not> isfile opath then Some (Inr [TU_error (''Cannot find the origin path for '' @ file_path)])
      else (case get_latest_commit_from git opath ''HEAD'' of
          Inl e \<Rightarrow> Some (Inl e)
        | Inr o_head \<Rightarrow> (case get_latest_commit_from git file_path ''HEAD'' of
            Inl e \<Rightarrow> Some (Inl e)
          | Inr t_head \<Rightarrow> check_commits git file_path opath o_head t_head)))"

section \<open>Files\<close>

fun node_size :: "node \<Rightarrow> nat" where
  "node_size (N_dir es) = Suc (sum_list (map (\<lambda>(n, nd). node_size nd) es))"
| "node_size nd = 1"

definition is_dir :: "node \<Rightarrow> bool" where
  "is_dir nd = (case nd of N_dir _ \<Rightarrow> True | _ \<Rightarrow> False)"

definition entries :: "node \<Rightarrow> (string \<times> node) list" where
  "entries nd = (case nd of N_dir es \<Rightarrow> es | _ \<Rightarrow> [])"

definition dir_files :: "string \<Rightarrow> string \<Rightarrow> (string \<times> node) list \<Rightarrow> string list" where
  "dir_files pwd ext es = filter (\<lambda>p. endswith p ext) (map (\<lambda>e. path_join pwd (fst e)) (filter (\<lambda>e. \<not> is_dir (snd e)) es))"

definition sub_dirs :: "string \<Rightarrow> (string \<times> node) list \<Rightarrow> (string \<times> node) list" where
  "sub_dirs pwd es = map (\<lambda>e. (path_join pwd (fst e), snd e)) (filter (\<lambda>e. is_dir (snd e)) es)"

definition stack_size :: "(string \<times> node) list \<Rightarrow> nat" where
  "stack_size es = sum_list (map (\<lambda>e. node_size (snd e)) es)"

lemma stack_size_simps [simp]:
  "stack_size [] = 0" "stack_size (e # es) = node_size (snd e) + stack_size es" "stack_size (es @ fs) = stack_size es + stack_size fs"
  "stack_size (rev es) = stack_size es"
  by (simp_all add: stack_size_def sum_list_rev rev_map [symmetric])

lemma sub_dirs_size: "stack_size (sub_dirs pwd es) \<le> stack_size es"
  by (induction es) (auto simp: sub_dirs_def stack_size_def)

lemma entries_size: "stack_size (entries nd) < node_size nd"
  by (cases nd) (simp_all add: entries_def stack_size_def case_prod_unfold)

text \<open>The directories of a stack, the last one first; links are taken for what they lead to.\<close>

function list_files :: "string list \<Rightarrow> string \<Rightarrow> (string \<times> node) list \<Rightarrow> string list" where
  "list_files excl ext [] = []"
| "list_files excl ext ((pwd, nd) # stack) =
     (if basename pwd \<in> set excl then list_files excl ext stack
      else dir_files pwd ext (entries nd) @ list_files excl ext (rev (sub_dirs pwd (entries nd)) @ stack))"
  by pat_completeness auto
termination
proof (relation "measure (\<lambda>(excl, ext, stack). stack_size stack)", goal_cases)
  case (2 excl ext pwd nd stack)
  show ?case using entries_size [of nd] by simp
next
  case (3 excl ext pwd nd stack)
  show ?case using sub_dirs_size [of pwd "entries nd"] entries_size [of nd] by simp
qed simp

declare list_files.simps [simp del]

definition list_files_with_excluding_folders :: "string \<Rightarrow> node \<Rightarrow> string list \<Rightarrow> string \<Rightarrow> string list" where
  "list_files_with_excluding_folders folder nd excl ext = list_files excl ext [(folder, nd)]"

section \<open>The whole check\<close>

definition is_file :: "(string \<Rightarrow> node option) \<Rightarrow> string \<Rightarrow> bool" where
  "is_file fs p = (case fs p of Some (N_file _) \<Rightarrow> True | _ \<Rightarrow> False)"

definition official_step ::
    "(string \<Rightarrow> node option) \<Rightarrow> string list \<Rightarrow> string \<Rightarrow> string \<Rightarrow> bool \<Rightarrow> string list \<times> tu_msg list \<Rightarrow> string \<Rightarrow> (string list \<times> tu_msg list) res" where
  "official_step fs cwd linux_path loc print_missing acc f = (case acc of (files, msgs) \<Rightarrow>
     rbind (translation_path loc f) (\<lambda>new_file.
       if is_file fs new_file then Inr (files @ [new_file], msgs)
       else if print_missing then
         rbind (relpath cwd f linux_path) (\<lambda>rel.
           Inr (files, msgs @ [TU_info rel, TU_info (''No translation in the locale of '' @ loc @ [NL])]))
       else Inr (files, msgs)))"

definition given_files :: "(string \<Rightarrow> node option) \<Rightarrow> string \<Rightarrow> string list" where
  "given_files fs f = (case fs f of
      Some (N_file _) \<Rightarrow> [f]
    | Some (N_dir es) \<Rightarrow> list_files_with_excluding_folders f (N_dir es) [] ''rst''
    | _ \<Rightarrow> [])"

definition select_files ::
    "(string \<Rightarrow> node option) \<Rightarrow> string list \<Rightarrow> string \<Rightarrow> string \<Rightarrow> bool \<Rightarrow> string list \<Rightarrow> (string list \<times> tu_msg list) res" where
  "select_files fs cwd linux_path loc print_missing files =
     (if files = [] then
        (let doc = path_join linux_path ''Documentation'' in
         case fs doc of
           Some (N_dir es) \<Rightarrow> fold_res (official_step fs cwd linux_path loc print_missing) ([], [])
             (list_files_with_excluding_folders doc (N_dir es) [''translations'', ''output''] ''rst'')
         | _ \<Rightarrow> Inl OSError)
      else Inr (concat (map (given_files fs) files), []))"

fun check_files :: "git \<Rightarrow> (string \<Rightarrow> bool) \<Rightarrow> tu_msg list \<Rightarrow> string list \<Rightarrow> tu_msg list res option" where
  "check_files git isfile msgs [] = Some (Inr msgs)"
| "check_files git isfile msgs (f # files) = (case check_per_file git isfile f of
      None \<Rightarrow> None
    | Some (Inl e) \<Rightarrow> Some (Inl e)
    | Some (Inr ms) \<Rightarrow> check_files git isfile (msgs @ ms) files)"

text \<open>\<^verbatim>\<open>main\<close>: paths become relative to the root of the sources, which is the working directory of the checks.\<close>

definition trans_main ::
    "git \<Rightarrow> (string \<Rightarrow> node option) \<Rightarrow> (string \<Rightarrow> bool) \<Rightarrow> string list \<Rightarrow> string \<Rightarrow> string \<Rightarrow> bool \<Rightarrow> string list \<Rightarrow> tu_msg list res option" where
  "trans_main git fs isfile_at_root cwd linux_path loc print_missing args =
     (case rbind (select_files fs cwd linux_path loc print_missing args) (\<lambda>(files, msgs).
         rbind (fold_res (\<lambda>acc f. rbind (relpath cwd f linux_path) (\<lambda>rel. Inr (acc @ [rel]))) [] files) (\<lambda>rels. Inr (rels, msgs))) of
        Inl e \<Rightarrow> Some (Inl e)
      | Inr (rels, msgs) \<Rightarrow> check_files git isfile_at_root msgs rels)"

section \<open>The translation of a file leads back to it\<close>

lemma index_of_Inr: "index_of x xs = Inr n \<Longrightarrow> n < length xs \<and> xs ! n = x \<and> x \<notin> set (take n xs)"
  by (induction xs arbitrary: n) (auto simp: rbind_Inr_iff split: if_splits)

lemma index_of_append: "x \<notin> set us \<Longrightarrow> index_of x (us @ x # vs) = Inr (length us)"
  by (induction us) auto

text \<open>
  The path of a translation leads back to the file it translates: the origin of the path that is
  made for a file and a locale is that file, unless the file itself lies below a directory called
  \<^verbatim>\<open>translations\<close> outside of the documentation.
\<close>

theorem origin_of_translation:
  assumes "translation_path locale file_path = Inr tp" and "CHR ''/'' \<notin> set locale"
    and "index_of ''Documentation'' (split_on (CHR ''/'') file_path) = Inr k"
    and "''translations'' \<notin> set (take k (split_on (CHR ''/'') file_path))"
  shows "get_origin_path tp = Inr file_path"
proof -
  define ps where "ps = split_on (CHR ''/'') file_path"
  define us vs where "us = take (k + 1) ps" and "vs = drop (k + 1) ps"
  have k: "k < length ps" "ps ! k = ''Documentation''" using index_of_Inr [OF assms(3)] by (simp_all add: ps_def)
  have tp: "tp = join ''/'' (us @ [''translations'', locale] @ vs)"
    using assms(1) unfolding translation_path_def Let_def assms(3) rbind_simps us_def vs_def ps_def by simp
  have "\<forall>c \<in> set ps. CHR ''/'' \<notin> set c" using split_on_no_sep ps_def by blast
  then have "\<forall>c \<in> set (us @ [''translations'', locale] @ vs). CHR ''/'' \<notin> set c"
    using assms(2) by (auto simp: us_def vs_def dest: in_set_takeD in_set_dropD)
  from split_join [OF _ this] have split: "split_on (CHR ''/'') tp = us @ [''translations'', locale] @ vs" unfolding tp by simp
  have "us = take k ps @ [''Documentation'']" using k by (simp add: us_def take_Suc_conv_app_nth)
  then have "''translations'' \<notin> set us" using assms(4) by (simp add: ps_def)
  from index_of_append [OF this, of "locale # vs"]
  have "index_of ''translations'' (split_on (CHR ''/'') tp) = Inr (length us)" unfolding split by simp
  moreover have "join ''/'' (us @ vs) = file_path" unfolding us_def vs_def append_take_drop_id ps_def by (rule join_split_on)
  ultimately show ?thesis unfolding get_origin_path_def Let_def split by simp
qed

theorem origin_of_translation_witness:
  "get_origin_path ''../Documentation/translations/zh_CN/x/y.rst'' = Inr ''../Documentation/x/y.rst''"
proof (rule origin_of_translation)
  show "translation_path ''zh_CN'' ''../Documentation/x/y.rst'' = Inr ''../Documentation/translations/zh_CN/x/y.rst''" by code_simp
  show "index_of ''Documentation'' (split_on (CHR ''/'') ''../Documentation/x/y.rst'') = Inr 1" by code_simp
qed code_simp+

section \<open>The loop ends\<close>

text \<open>
  Walking back from a commit ends, if the parent of a commit has fewer ancestors: \<open>depth\<close> bounds how
  many commits of the file come before one. The commit it stops at is not younger than the
  translation.
\<close>

lemma origin_loop_ends:
  assumes "\<And>h c. get_latest_commit_from git path (h @ ''^'') = Inr (Some c) \<Longrightarrow> depth (c_hash c) < (depth h :: nat)"
  shows "\<exists>r. origin_loop git path date oc = Some r \<and> (\<forall>c. r = Inr (Some c) \<longrightarrow> c_author_date c \<le> date)"
proof (cases oc)
  case None
  then show ?thesis by (simp add: origin_loop.simps too_young_def)
next
  case (Some c)
  have "\<exists>r. origin_loop git path date (Some c) = Some r \<and> (\<forall>c. r = Inr (Some c) \<longrightarrow> c_author_date c \<le> date)"
  proof (induction "depth (c_hash c)" arbitrary: c rule: less_induct)
    case less
    let ?r = "get_latest_commit_from git path (c_hash c @ ''^'')"
    show ?case
    proof (cases "c_author_date c > date")
      case True
      then have step: "origin_loop git path date (Some c) =
          (if isl ?r then Some ?r else origin_loop git path date (projr ?r))"
        by (simp add: origin_loop.simps [of git path date "Some c"] too_young_def)
      show ?thesis
      proof (cases ?r)
        case (Inl e)
        then show ?thesis unfolding step by simp
      next
        case (Inr oc1)
        show ?thesis
        proof (cases oc1)
          case None
          then show ?thesis unfolding step by (simp add: Inr origin_loop.simps [of git path date None] too_young_def)
        next
          case (Some c1)
          then have "depth (c_hash c1) < depth (c_hash c)" using assms Inr by blast
          from less [OF this] show ?thesis unfolding step by (simp add: Inr Some)
        qed
      qed
    qed (simp add: origin_loop.simps [of git path date "Some c"] too_young_def)
  qed
  then show ?thesis by (simp add: Some)
qed

text \<open>A history of two commits, the younger one from after the translation.\<close>

definition sample_git :: git where
  "sample_git = \<lparr>g_latest = (\<lambda>path rev.
       if rev = ''bb^'' then ''aa'' @ [NL] @ ''1'' @ [NL] @ ''1'' @ [NL, NL] @ ''m'' else []),
     g_between = (\<lambda>path a b. []), g_pretty = (\<lambda>c. []), g_date = (\<lambda>s. Some (int (digits_val 0 s)))\<rparr>"

lemma check_per_file_ends:
  assumes "\<And>path h c. get_latest_commit_from git path (h @ ''^'') = Inr (Some c) \<Longrightarrow> depth path (c_hash c) < (depth path h :: nat)"
  shows "\<exists>r. check_per_file git isfile f = Some r"
proof -
  have "\<exists>r. get_origin_from_trans git path t = Some r" for path t
  proof (cases "get_latest_commit_from git path (c_hash t)")
    case (Inr oc)
    then show ?thesis using origin_loop_ends [of git path "depth path" "c_author_date t" oc] assms
      by (auto simp: get_origin_from_trans_def)
  qed (simp add: get_origin_from_trans_def)
  then have "\<exists>r. check_commits git f path oh th = Some r" for path oh th
    unfolding check_commits_def by (cases oh; cases th) (auto split: sum.split option.split)
  then show ?thesis unfolding check_per_file_def by (auto split: sum.split)
qed

text \<open>
  The whole check ends, for any choice of files, if in the history of every file the parent of a
  commit has fewer ancestors: \<open>depth\<close> bounds how many commits of a file come before one. So the walk
  back to the commit a translation was made from, the only loop without a bound of its own, always
  returns.
\<close>

lemma trans_main_ends:
  assumes "\<And>path h c. get_latest_commit_from git path (h @ ''^'') = Inr (Some c) \<Longrightarrow> depth path (c_hash c) < (depth path h :: nat)"
  shows "\<exists>r. trans_main git fs isfile cwd linux_path loc print_missing args = Some r"
proof -
  have "\<exists>r. check_files git isfile msgs files = Some r" for msgs files
  proof (induction files arbitrary: msgs)
    case (Cons f files)
    obtain r where "check_per_file git isfile f = Some r" using check_per_file_ends assms by blast
    then show ?case using Cons by (cases r) simp_all
  qed simp
  then show ?thesis unfolding trans_main_def by (auto split: sum.split)
qed

text \<open>A history with such a bound.\<close>

lemma sample_depth:
  assumes "get_latest_commit_from sample_git path (h @ ''^'') = Inr (Some c)"
  shows "(if c_hash c = ''bb'' then 1 else 0) < (if h = ''bb'' then 1 else 0 :: nat)"
proof -
  have "h = ''bb''"
  proof (rule ccontr)
    assume "h \<noteq> ''bb''"
    then have "g_latest sample_git path (h @ ''^'') = []" by (auto simp: sample_git_def)
    then show False using assms by (simp add: get_latest_commit_from_def)
  qed
  moreover have "get_latest_commit_from sample_git path ''bb^'' = get_latest_commit_from sample_git ''f'' ''bb^''"
    by (simp add: get_latest_commit_from_def sample_git_def)
  moreover have "map_sum id (map_option c_hash) (get_latest_commit_from sample_git ''f'' ''bb^'') = Inr (Some ''aa'')" by code_simp
  ultimately show ?thesis using assms by auto
qed

section \<open>The files found\<close>

text \<open>The files below a directory, as a relation: no directory on the way has a name that is excluded.\<close>

inductive doc_in :: "string list \<Rightarrow> string \<Rightarrow> string \<Rightarrow> node \<Rightarrow> string \<Rightarrow> bool" for excl ext where
  doc_file: "basename pwd \<notin> set excl \<Longrightarrow> (n, nd) \<in> set es \<Longrightarrow> (\<forall>es'. nd \<noteq> N_dir es') \<Longrightarrow> endswith (path_join pwd n) ext \<Longrightarrow>
    doc_in excl ext pwd (N_dir es) (path_join pwd n)"
| doc_dir: "basename pwd \<notin> set excl \<Longrightarrow> (n, N_dir es') \<in> set es \<Longrightarrow> doc_in excl ext (path_join pwd n) (N_dir es') p \<Longrightarrow>
    doc_in excl ext pwd (N_dir es) p"

lemma is_dir_iff: "is_dir nd \<longleftrightarrow> (\<exists>es. nd = N_dir es)"
  by (cases nd) (simp_all add: is_dir_def)

lemma dir_files_iff:
  "p \<in> set (dir_files pwd ext es) \<longleftrightarrow> (\<exists>n nd. (n, nd) \<in> set es \<and> \<not> is_dir nd \<and> p = path_join pwd n \<and> endswith p ext)"
  unfolding dir_files_def set_filter set_map by (auto simp only: image_iff mem_Collect_eq Bex_def split_paired_Ex fst_conv snd_conv)

lemma sub_dirs_iff:
  "(q, nd) \<in> set (sub_dirs pwd es) \<longleftrightarrow> (\<exists>n. (n, nd) \<in> set es \<and> is_dir nd \<and> q = path_join pwd n)"
  unfolding sub_dirs_def set_filter set_map
  by (auto simp only: image_iff mem_Collect_eq Bex_def split_paired_Ex fst_conv snd_conv prod.inject)

lemma entries_dir [simp]: "entries (N_dir es) = es"
  by (simp add: entries_def)

lemma entries_none: "\<not> is_dir nd \<Longrightarrow> entries nd = []"
  by (cases nd) (simp_all add: is_dir_def entries_def)

lemma doc_in_iff:
  "doc_in excl ext pwd nd p \<longleftrightarrow> basename pwd \<notin> set excl \<and>
     (p \<in> set (dir_files pwd ext (entries nd)) \<or> (\<exists>(q, nd') \<in> set (sub_dirs pwd (entries nd)). doc_in excl ext q nd' p))"
  (is "?l \<longleftrightarrow> ?r")
proof
  assume ?l
  then show ?r
  proof cases
    case (doc_file n nd1 es)
    have "\<not> is_dir nd1" using doc_file by (simp only: is_dir_iff) blast
    then have "p \<in> set (dir_files pwd ext (entries nd))"
      unfolding dir_files_iff doc_file(1) entries_dir using doc_file by blast
    then show ?thesis using doc_file(3) by blast
  next
    case (doc_dir n es' es)
    have "is_dir (N_dir es')" by (simp add: is_dir_def)
    then have "(path_join pwd n, N_dir es') \<in> set (sub_dirs pwd (entries nd))"
      unfolding sub_dirs_iff doc_dir(1) entries_dir using doc_dir by blast
    then show ?thesis using doc_dir by blast
  qed
next
  assume r: ?r
  then have b: "basename pwd \<notin> set excl" by blast
  show ?l
  proof (cases "is_dir nd")
    case True
    then obtain es where nd: "nd = N_dir es" by (auto simp only: is_dir_iff)
    from r consider "p \<in> set (dir_files pwd ext es)" | q nd' where "(q, nd') \<in> set (sub_dirs pwd es)" "doc_in excl ext q nd' p"
      unfolding nd entries_dir by blast
    then show ?thesis
    proof cases
      case 1
      then obtain n nd1 where 1: "(n, nd1) \<in> set es" "\<not> is_dir nd1" "p = path_join pwd n" "endswith p ext"
        unfolding dir_files_iff by blast
      have "\<forall>es'. nd1 \<noteq> N_dir es'" using 1(2) unfolding is_dir_iff by blast
      then show ?thesis unfolding nd 1(3) using doc_in.doc_file [OF b 1(1)] 1 by blast
    next
      case 2
      then obtain n es' where "(n, N_dir es') \<in> set es" "nd' = N_dir es'" "q = path_join pwd n"
        unfolding sub_dirs_iff is_dir_iff by blast
      then show ?thesis unfolding nd using doc_in.doc_dir [OF b] 2(2) by blast
    qed
  next
    case False
    then show ?thesis using r by (simp add: entries_none dir_files_def sub_dirs_def)
  qed
qed

lemma list_files_set: "set (list_files excl ext stack) = {p. \<exists>(pwd, nd) \<in> set stack. doc_in excl ext pwd nd p}"
proof (induction excl ext stack rule: list_files.induct)
  case (1 excl ext)
  show ?case by (simp add: list_files.simps)
next
  case (2 excl ext pwd nd stack)
  show ?case
  proof (cases "basename pwd \<in> set excl")
    case True
    then have "\<not> doc_in excl ext pwd nd p" for p by (subst doc_in_iff) simp
    then show ?thesis using 2 True by (auto simp: list_files.simps)
  next
    case False
    have "doc_in excl ext pwd nd p \<longleftrightarrow>
        p \<in> set (dir_files pwd ext (entries nd)) \<or> (\<exists>(q, nd') \<in> set (sub_dirs pwd (entries nd)). doc_in excl ext q nd' p)" for p
      using False by (subst doc_in_iff) simp
    then show ?thesis using "2.IH"(2) [OF False] False by (auto simp: list_files.simps)
  qed
qed

text \<open>
  Listing a folder, with its stack of directories still to visit, ends and finds exactly the files
  with the suffix that no excluded directory contains.
\<close>

theorem list_files_exact:
  "set (list_files_with_excluding_folders folder nd excl ext) = {p. doc_in excl ext folder nd p}"
  by (simp add: list_files_with_excluding_folders_def list_files_set)

end
