(* ===== verification/Renames.thy ===== *)
theory Renames
  imports Doc_Paths Man_Format "HOL-Library.Product_Lexorder"
begin

text \<open>
  \<^verbatim>\<open>gen-renames.py\<close> and \<^verbatim>\<open>gen-redirects.py\<close>: from the history of a repository to the redirects of renamed
  pages, and the pages that redirect. The lines \<^verbatim>\<open>git\<close> prints, and the paths that exist, are arguments.
\<close>

section \<open>Renames\<close>

definition normalize :: "string \<Rightarrow> string res" where
  "normalize path =
     (if startswith path ''Documentation/'' \<and> endswith path ''.rst'' then Inr (take (length path - 18) (drop 14 path))
      else Inl AssertionError)"

text \<open>\<^verbatim>\<open>s.split(x, n)\<close>.\<close>

fun split_max :: "nat \<Rightarrow> char \<Rightarrow> string \<Rightarrow> string list" where
  "split_max 0 x s = [s]"
| "split_max (Suc n) x s = (case dropWhile (\<lambda>c. c \<noteq> x) s of
      [] \<Rightarrow> [s]
    | _ # r \<Rightarrow> takeWhile (\<lambda>c. c \<noteq> x) s # split_max n x r)"

text \<open>What a line of the log says.\<close>

datatype log_event = E_rename string string | E_delete string | E_other

definition read_log_line :: "string \<Rightarrow> log_event res" where
  "read_log_line line =
     (if startswith line ''R'' then
        (case split_max 2 TAB (drop 1 line) of
           [_, old, new] \<Rightarrow>
             if endswith old ''.rst'' \<and> endswith new ''.rst'' then
               rbind (normalize old) (\<lambda>o1. rbind (normalize new) (\<lambda>n1. Inr (E_rename o1 n1)))
             else Inr E_other
         | _ \<Rightarrow> Inl ValueError)
      else if startswith line ''D'' then
        (case split_max 1 TAB line of
           [_, old] \<Rightarrow> if endswith old ''.rst'' then rbind (normalize old) (\<lambda>o1. Inr (E_delete o1)) else Inr E_other
         | _ \<Rightarrow> Inl ValueError)
      else Inr E_other)"

text \<open>The hs a file had, in order, under its present name.\<close>

type_synonym histories = "(string, string list) dict"

definition rename_file :: "string \<Rightarrow> string \<Rightarrow> histories \<Rightarrow> histories" where
  "rename_file old new hs = (case dict_get hs old of
      None \<Rightarrow> dict_set hs new [old, new]
    | Some ns \<Rightarrow> dict_set (dict_del hs old) new (ns @ [new]))"

fun apply_event :: "histories \<Rightarrow> log_event \<Rightarrow> histories" where
  "apply_event hs (E_rename old new) = rename_file old new hs"
| "apply_event hs (E_delete old) = (if dict_has hs old then dict_del hs old else hs)"
| "apply_event hs E_other = hs"

definition rename_log_line :: "histories \<Rightarrow> string \<Rightarrow> histories res" where
  "rename_log_line hs line = rbind (read_log_line line) (\<lambda>ev. Inr (apply_event hs ev))"

definition current_step :: "string list \<Rightarrow> string \<Rightarrow> string list res" where
  "current_step files line =
     (if endswith line ''.rst'' then rbind (normalize line) (\<lambda>f. Inr (List.insert f files)) else Inr files)"

definition redirects_of :: "string list \<Rightarrow> histories \<Rightarrow> (string \<times> string) list" where
  "redirects_of current hs =
     concat (map (\<lambda>(_, ns). map (\<lambda>old. (old, last ns)) (filter (\<lambda>old. old \<noteq> last ns \<and> old \<notin> set current) (butlast ns))) hs)"

definition gen_renames :: "string list \<Rightarrow> string list \<Rightarrow> (string \<times> string) list res" where
  "gen_renames log tree =
     rbind (fold_res rename_log_line [] log) (\<lambda>hs.
     rbind (fold_res current_step [] tree) (\<lambda>current.
     Inr (sort (redirects_of current hs))))"

definition rename_line :: "string \<times> string \<Rightarrow> string" where
  "rename_line on = fst on @ '' '' @ snd on"

section \<open>Redirects\<close>

definition redirect_parts :: "string \<Rightarrow> (string \<times> string) res" where
  "redirect_parts line = (case split_max 2 (CHR '' '') (rstrip_by (\<lambda>c. c = NL) line) of
      [old, new] \<Rightarrow> Inr (old, new)
    | _ \<Rightarrow> Inl ValueError)"

datatype page_action = Warn string | Makedirs string | Write_page string string

definition redirect_page :: "string \<Rightarrow> string \<Rightarrow> string" where
  "redirect_page rel new_name = join [NL]
     [''<!DOCTYPE html>'', [], ''<html lang=\"en\">'', ''<head>'', ''    <title>This page has moved</title>'',
      ''    <meta http-equiv=\"refresh\" content=\"0; url='' @ rel @ ''\">'', ''</head>'', ''<body>'',
      ''<p>This page has moved to <a href=\"'' @ rel @ ''\">'' @ new_name @ ''</a>.</p>'', ''</body>'', ''</html>''] @ [NL]"

text \<open>The directories a path lies in.\<close>

definition ancestors :: "string \<Rightarrow> string list" where
  "ancestors p = map (\<lambda>n. (if startswith p ''/'' then ''/'' else []) @ join ''/'' (take n (comps p))) [1..<Suc (length (comps p))]"

text \<open>What exists so far, and what is done; one line of the input.\<close>

definition redirect_line ::
    "string list \<Rightarrow> string \<Rightarrow> string list \<times> page_action list \<Rightarrow> string \<Rightarrow> (string list \<times> page_action list) res" where
  "redirect_line cwd output st line = (case st of (existing, actions) \<Rightarrow>
     rbind (redirect_parts line) (\<lambda>(old_name, new_name).
     let old_html = path_join output (old_name @ ''.html'');
         new_html = path_join output (new_name @ ''.html'') in
     if new_html \<notin> set existing then
       Inr (existing, actions @ [Warn (''warning: target does not exist: '' @ new_html @ '' (redirect from '' @ old_html @ '')'')])
     else
       (let dir = dirname old_html;
            made = (dir \<notin> set existing);
            existing1 = (if made then existing @ ancestors dir else existing) in
        rbind (relpath cwd new_name (dirname old_name)) (\<lambda>rel.
        Inr (existing1 @ [old_html],
          actions @ (if made then [Makedirs dir] else []) @ [Write_page old_html (redirect_page (rel @ ''.html'') new_name)])))))"

definition gen_redirects :: "string list \<Rightarrow> string \<Rightarrow> string list \<Rightarrow> string list \<Rightarrow> (string list \<times> page_action list) res" where
  "gen_redirects cwd output existing lines = fold_res (redirect_line cwd output) (existing, []) lines"

section \<open>Renames follow the log\<close>

definition log_renames :: "string list \<Rightarrow> (string \<times> string) set" where
  "log_renames log = {(old, new). \<exists>line \<in> set log. read_log_line line = Inr (E_rename old new)}"

text \<open>The hs of a file lead from one to the next by renames of the log, and end in its key.\<close>

definition history_ok :: "(string \<times> string) set \<Rightarrow> string \<times> string list \<Rightarrow> bool" where
  "history_ok R kn \<longleftrightarrow> snd kn \<noteq> [] \<and> last (snd kn) = fst kn \<and> successively (\<lambda>a b. (a, b) \<in> R) (snd kn)"

definition names_ok :: "(string \<times> string) set \<Rightarrow> histories \<Rightarrow> bool" where
  "names_ok R hs \<longleftrightarrow> list_all (history_ok R) hs"

lemma history_mono: "history_ok R kn \<Longrightarrow> R \<subseteq> S \<Longrightarrow> history_ok S kn"
  unfolding history_ok_def by (metis (no_types, lifting) subsetD successively_mono)

lemma names_ok_set: "names_ok R hs \<Longrightarrow> history_ok R (k, ns) \<Longrightarrow> names_ok R (dict_set hs k ns)"
  unfolding names_ok_def by (induction hs k ns rule: dict_set.induct) auto

lemma names_ok_del: "names_ok R hs \<Longrightarrow> names_ok R (dict_del hs k)"
  unfolding names_ok_def by (induction hs k rule: dict_del.induct) auto

lemma names_ok_get: "names_ok R hs \<Longrightarrow> dict_get hs k = Some ns \<Longrightarrow> history_ok R (k, ns)"
  by (auto simp: names_ok_def dict_get_def list_all_iff dest: map_of_SomeD)

lemma rename_ok:
  assumes "names_ok R hs" and "(old, new) \<in> R"
  shows "names_ok R (rename_file old new hs)"
proof (cases "dict_get hs old")
  case None
  then show ?thesis using assms by (auto simp: rename_file_def history_ok_def intro: names_ok_set)
next
  case (Some ns)
  then have "history_ok R (new, ns @ [new])"
    using names_ok_get [OF assms(1) Some] assms(2) by (auto simp: history_ok_def successively_append_iff)
  then show ?thesis using Some assms(1) by (simp add: rename_file_def names_ok_set names_ok_del)
qed

lemma log_line_safe:
  assumes "names_ok (log_renames log) hs" and "line \<in> set log"
  shows "safe {ValueError, AssertionError} (names_ok (log_renames log)) (rename_log_line hs line)"
proof (cases "read_log_line line")
  case (Inl e)
  then have "e \<in> {ValueError, AssertionError}"
    by (auto simp: read_log_line_def normalize_def rbind_Inl_iff rbind_Inr_iff split: if_splits list.splits)
  then show ?thesis using Inl by (simp add: rename_log_line_def)
next
  case (Inr ev)
  show ?thesis
  proof (cases ev)
    case (E_rename old new)
    then have "(old, new) \<in> log_renames log" using Inr assms(2) by (auto simp: log_renames_def)
    then show ?thesis using Inr E_rename assms(1) by (simp add: rename_log_line_def rename_ok)
  qed (use Inr assms(1) in \<open>simp_all add: rename_log_line_def names_ok_del\<close>)
qed

lemma history_step: "successively (\<lambda>a b. (a, b) \<in> R) (a # ns) \<Longrightarrow> ns \<noteq> [] \<Longrightarrow> (a, last ns) \<in> R\<^sup>+"
proof (induction ns arbitrary: a)
  case (Cons b ns)
  show ?case
  proof (cases "ns = []")
    case True
    then show ?thesis using Cons.prems by (simp add: r_into_trancl')
  next
    case False
    then have "(b, last ns) \<in> R\<^sup>+" using Cons.IH [of b] Cons.prems by simp
    then show ?thesis using Cons.prems False by (auto intro: trancl_into_trancl2)
  qed
qed simp

lemma history_trancl:
  assumes "successively (\<lambda>a b. (a, b) \<in> R) ns" and "old \<in> set (butlast ns)"
  shows "(old, last ns) \<in> R\<^sup>+"
proof -
  obtain us vs where "butlast ns = us @ old # vs" using split_list [OF assms(2)] by blast
  moreover have "ns = butlast ns @ [last ns]" using assms(2) by (cases ns rule: rev_cases) auto
  ultimately have "ns = us @ old # vs @ [last ns]" by simp
  then have "successively (\<lambda>a b. (a, b) \<in> R) (old # vs @ [last ns])"
    using assms(1) by (metis successively_append_iff)
  then show ?thesis using history_step [of R old "vs @ [last ns]"] by simp
qed

lemma current_step_set:
  "fold_res current_step files tree = Inr cur \<Longrightarrow>
   set cur = set files \<union> {f. \<exists>line \<in> set tree. endswith line ''.rst'' \<and> normalize line = Inr f}"
proof (induction tree arbitrary: files)
  case (Cons line tree)
  then show ?case by (auto simp: current_step_def rbind_Inr_iff split: if_splits)
qed simp

text \<open>
  C39. Every redirect follows the history: its page was renamed, in one or more steps of the log, to the
  page it leads to; it never leads to itself, and never hides a page of the current tree. The
  program stops with \<open>ValueError\<close> or \<open>AssertionError\<close>, or prints the redirects in order.
\<close>

theorem renames_follow_log:
  "case gen_renames log tree of
     Inl e \<Rightarrow> e = ValueError \<or> e = AssertionError
   | Inr rs \<Rightarrow> sorted rs \<and> (\<forall>(old, new) \<in> set rs. old \<noteq> new \<and> (old, new) \<in> (log_renames log)\<^sup>+ \<and>
       \<not> (\<exists>line \<in> set tree. endswith line ''.rst'' \<and> normalize line = Inr old))"
proof -
  have log: "safe {ValueError, AssertionError} (names_ok (log_renames log)) (fold_res rename_log_line [] log)"
    by (rule safe_fold_res) (auto simp: log_line_safe names_ok_def)
  have "safe {ValueError, AssertionError} (\<lambda>_. True) (fold_res current_step [] tree)"
    by (rule safe_fold_res) (auto simp: current_step_def normalize_def)
  then have tree: "safe {ValueError, AssertionError} (\<lambda>cur. fold_res current_step [] tree = Inr cur) (fold_res current_step [] tree)"
    by (cases "fold_res current_step [] tree") auto
  have red: "old \<noteq> new \<and> (old, new) \<in> (log_renames log)\<^sup>+ \<and> old \<notin> set cur"
    if "names_ok (log_renames log) hs" "(old, new) \<in> set (redirects_of cur hs)" for old new cur hs
    using that by (auto simp: redirects_of_def names_ok_def list_all_iff history_ok_def intro!: history_trancl)
  have "safe {ValueError, AssertionError} (\<lambda>rs. sorted rs \<and> (\<forall>(old, new) \<in> set rs. old \<noteq> new \<and> (old, new) \<in> (log_renames log)\<^sup>+ \<and>
       \<not> (\<exists>line \<in> set tree. endswith line ''.rst'' \<and> normalize line = Inr old))) (gen_renames log tree)"
    unfolding gen_renames_def
    by (rule safe_rbind [OF log], rule safe_rbind [OF tree]) (auto dest: red current_step_set)
  then show ?thesis by (auto simp: safe_def split: sum.splits)
qed

definition sample_log :: "string list" where
  "sample_log = [''R100'' @ [TAB] @ ''Documentation/a.rst'' @ [TAB] @ ''Documentation/b.rst'',
     ''R100'' @ [TAB] @ ''Documentation/b.rst'' @ [TAB] @ ''Documentation/c.rst'']"

theorem renames_follow_log_witness:
  "gen_renames sample_log [''Documentation/c.rst''] = Inr [(''a'', ''c''), (''b'', ''c'')] \<and>
   (''a'', ''c'') \<in> (log_renames sample_log)\<^sup>+ \<and> (''b'', ''c'') \<in> (log_renames sample_log)\<^sup>+"
proof -
  have g: "gen_renames sample_log [''Documentation/c.rst''] = Inr [(''a'', ''c''), (''b'', ''c'')]" by code_simp
  show ?thesis using renames_follow_log [of sample_log "[''Documentation/c.rst'']"] unfolding g by simp
qed

lemma split_max_none: "x \<notin> set a \<Longrightarrow> split_max n x a = [a]"
proof (cases n)
  case (Suc m)
  assume "x \<notin> set a"
  then have "dropWhile (\<lambda>c. c \<noteq> x) a = []" by (auto simp: dropWhile_eq_Nil_conv)
  then show ?thesis unfolding Suc split_max.simps by (simp only: list.case)
qed simp

lemma split_max_at:
  assumes "x \<notin> set a"
  shows "split_max (Suc n) x (a @ x # b) = a # split_max n x b"
proof -
  have "dropWhile (\<lambda>c. c \<noteq> x) (a @ x # b) = x # b" "takeWhile (\<lambda>c. c \<noteq> x) (a @ x # b) = a"
    using assms by (induction a) auto
  then show ?thesis unfolding split_max.simps by (simp only: list.case)
qed

lemma rstrip_newline: "NL \<notin> set new \<Longrightarrow> rstrip_by (\<lambda>c. c = NL) (old @ '' '' @ new @ [NL]) = old @ '' '' @ new"
  by (cases new rule: rev_cases) (auto simp: rstrip_by_def lstrip_by_def)

text \<open>
  The redirect pages read what the renames print: a line printed for two names without blanks and
  line ends is split into the same names.
\<close>

theorem redirect_reads_rename:
  assumes "CHR '' '' \<notin> set old" and "CHR '' '' \<notin> set new" and "NL \<notin> set new"
  shows "redirect_parts (rename_line (old, new) @ [NL]) = Inr (old, new)"
proof -
  have "split_max 2 (CHR '' '') (old @ '' '' @ new) = [old, new]"
    using split_max_at [OF assms(1), of "Suc 0" new] split_max_none [OF assms(2)] by (simp only: numeral_2_eq_2 append_Cons append_Nil)
  then show ?thesis using rstrip_newline [OF assms(3), of old]
    by (simp only: redirect_parts_def rename_line_def fst_conv snd_conv append_assoc list.case)
qed

theorem redirect_reads_rename_witness: "redirect_parts (rename_line (''a/b'', ''c'') @ [NL]) = Inr (''a/b'', ''c'')"
  by (rule redirect_reads_rename) simp_all

text \<open>
  The link of a redirect page leads to the new page: followed from the directory of the old page,
  it ends at the new one.
\<close>

theorem redirect_link_resolves:
  assumes "list_all plain_part cwd" and "new \<noteq> []" and "relpath cwd new start = Inr rel"
  shows "foldl norm_step (abs_comps cwd start) (comps rel) = abs_comps cwd new"
  using assms by (rule relpath_resolves)

theorem redirect_link_resolves_witness:
  "foldl norm_step (abs_comps [''w''] ''a/b'') (comps ''../../c/d'') = abs_comps [''w''] ''c/d''"
  by (rule redirect_link_resolves) code_simp+

text \<open>
  A page may get two redirects: when a new file takes an old name and is renamed in turn, both
  targets are printed, and the page written last wins.
\<close>

theorem two_redirects:
  "gen_renames [''R100'' @ [TAB] @ ''Documentation/a.rst'' @ [TAB] @ ''Documentation/b.rst'',
     ''R100'' @ [TAB] @ ''Documentation/a.rst'' @ [TAB] @ ''Documentation/c.rst''] [] = Inr [(''a'', ''b''), (''a'', ''c'')]"
  by code_simp

end
