(* ===== verification/Commands.thy ===== *)
theory Commands
  imports Py_Args Doc_Tools Trans_Update Doc_Build Data_Structs Renames
begin

text \<open>
  The command lines of the scripts: the arguments each script declares, and its main program from the
  strings after the name of the script to what it does.
\<close>

section \<open>Reading a namespace\<close>

text \<open>How a run ends before the script does anything, or the result of the script.\<close>

datatype 'a run = Exits arg_exit | Runs "'a res"

definition with_args :: "namespace parsed \<Rightarrow> (namespace \<Rightarrow> 'a res) \<Rightarrow> 'a run" where
  "with_args x f = (case x of Inl e \<Rightarrow> Exits e | Inr ns \<Rightarrow> Runs (f ns))"

text \<open>An attribute that is not there raises \<open>AttributeError\<close>; the value is then used at its type.\<close>

definition ns_get :: "namespace \<Rightarrow> string \<Rightarrow> arg_value res" where
  "ns_get ns d = attr (dict_get ns d)"

fun as_bool :: "arg_value \<Rightarrow> bool" where
  "as_bool (Av_bool b) = b"
| "as_bool v = False"

fun as_int :: "arg_value \<Rightarrow> int" where
  "as_int (Av_int n) = n"
| "as_int v = 0"

fun as_str :: "arg_value \<Rightarrow> string option" where
  "as_str (Av_str s) = Some s"
| "as_str v = None"

fun as_tuple :: "arg_value \<Rightarrow> int list option" where
  "as_tuple (Av_tuple t) = Some t"
| "as_tuple v = None"

fun as_list :: "arg_value \<Rightarrow> arg_value list" where
  "as_list (Av_list vs) = vs"
| "as_list v = []"

definition get_bool :: "namespace \<Rightarrow> string \<Rightarrow> bool res" where
  "get_bool ns d = rbind (ns_get ns d) (\<lambda>v. Inr (as_bool v))"

definition get_int :: "namespace \<Rightarrow> string \<Rightarrow> int res" where
  "get_int ns d = rbind (ns_get ns d) (\<lambda>v. Inr (as_int v))"

definition get_str :: "namespace \<Rightarrow> string \<Rightarrow> string option res" where
  "get_str ns d = rbind (ns_get ns d) (\<lambda>v. Inr (as_str v))"

definition get_strs :: "namespace \<Rightarrow> string \<Rightarrow> string list res" where
  "get_strs ns d = rbind (ns_get ns d) (\<lambda>v. Inr (map str_of (as_list v)))"

definition arg_text :: "string option \<Rightarrow> string" where
  "arg_text x = (case x of Some s \<Rightarrow> s | None \<Rightarrow> [])"

section \<open>get_feat.py\<close>

definition DEFAULT_DIR :: string where
  "DEFAULT_DIR = ''Documentation/features''"

definition parse_arch :: arg_action where
  "parse_arch = opt_store [''--arch'']"

definition parse_feat :: arg_action where
  "parse_feat = opt_store [''--feat'', ''--feature'']"

definition with_func :: "string \<Rightarrow> arg_parser \<Rightarrow> arg_parser" where
  "with_func f p = p\<lparr>p_defaults := [(''func'', Av_func f)]\<rparr>"

definition current_args :: arg_parser where
  "current_args = with_func ''run_current'' (parser_of [parse_feat])"

definition rest_args :: arg_parser where
  "rest_args = with_func ''run_rest'' (parser_of [parse_arch, parse_feat])"

definition list_args :: arg_parser where
  "list_args = with_func ''run_list'' (parser_of [parse_arch, parse_feat])"

definition validate_args :: arg_parser where
  "validate_args = with_func ''run_parser'' (parser_of [])"

definition feat_parser :: arg_parser where
  "feat_parser = parser_of
     [opt_count [''-d'', ''--debug''],
      (opt_store [''--directory'', ''--dir''])\<lparr>a_default := Av_str DEFAULT_DIR\<rparr>,
      opt_true [''--enable-fname''],
      sub_commands]"

definition feat_parse_args :: "string list \<Rightarrow> namespace parsed" where
  "feat_parse_args = parse_args feat_parser
     [(''current'', current_args), (''rest'', rest_args), (''list'', list_args), (''validate'', validate_args)]"

definition feat_func :: "namespace \<Rightarrow> feat_command option" where
  "feat_func ns = (case dict_get ns ''func'' of
      Some (Av_func f) \<Rightarrow> map_of [(''run_current'', F_current), (''run_rest'', F_rest), (''run_list'', F_list), (''run_parser'', F_validate)] f
    | _ \<Rightarrow> None)"

text \<open>The attributes a command reads; \<^verbatim>\<open>run_current\<close> sets the architecture before it is read.\<close>

definition feat_args_of :: "namespace \<Rightarrow> feat_args res" where
  "feat_args_of ns =
     rbind (get_str ns ''directory'') (\<lambda>directory.
     rbind (get_int ns ''debug'') (\<lambda>debug.
     rbind (get_bool ns ''enable_fname'') (\<lambda>enable_fname.
     rbind (if feat_func ns \<in> {Some F_rest, Some F_list} then get_str ns ''arch'' else Inr None) (\<lambda>arch.
     rbind (if feat_func ns = Some F_validate then Inr None else get_str ns ''feat'') (\<lambda>feat.
     Inr \<lparr>fg_directory = arg_text directory, fg_debug = nat debug, fg_enable_fname = enable_fname, fg_arch = arch, fg_feat = feat,
       fg_func = feat_func ns\<rparr>)))))"

definition get_feat_main :: "'p feature_api \<Rightarrow> string option \<Rightarrow> string list \<Rightarrow> string list run" where
  "get_feat_main api uname argv = with_args (feat_parse_args argv) (\<lambda>ns.
     if feat_func ns = None then Inl SystemExit else rbind (feat_args_of ns) (get_feat api uname))"

section \<open>get_abi.py\<close>

definition abi_rest_args :: arg_parser where
  "abi_rest_args = with_func ''AbiRest'' (parser_of
     [opt_true [''--enable-lineno''], opt_true [''--raw''], opt_true [''--no-file''], opt_store [''--show-hints'']])"

definition abi_validate_args :: arg_parser where
  "abi_validate_args = with_func ''AbiValidate'' (parser_of [])"

definition abi_search_args :: arg_parser where
  "abi_search_args = with_func ''AbiSearch'' (parser_of [pos_action N_one ''expression''])"

definition abi_undefined_args :: arg_parser where
  "abi_undefined_args = with_func ''AbiUndefined'' (parser_of
     [(opt_store [''-S'', ''--sysfs-dir''])\<lparr>a_default := Av_str ''/sys''\<rparr>,
      opt_store [''-s'', ''--search-string''],
      opt_true [''-H'', ''--show-hints''],
      (opt_store [''-j'', ''--jobs'', ''--max-workers''])\<lparr>a_type := type_int, a_default := Av_int 1\<rparr>,
      (opt_store [''-c'', ''--max-chunk-size''])\<lparr>a_type := type_int, a_default := Av_int 50\<rparr>,
      opt_true [''-f'', ''--found''],
      opt_true [''-d'', ''--dry-run'']])"

text \<open>The directory \<^verbatim>\<open>ABI_DIR\<close> comes from a module that is not in the repository.\<close>

definition abi_parser :: "string \<Rightarrow> arg_parser" where
  "abi_parser abi_dir = parser_of
     [(opt_store [''-d'', ''--debug''])\<lparr>a_type := type_int, a_default := Av_int 0\<rparr>,
      (opt_store [''-D'', ''--dir''])\<lparr>a_default := Av_str abi_dir\<rparr>,
      sub_commands]"

definition abi_parse_args :: "string \<Rightarrow> string list \<Rightarrow> namespace parsed" where
  "abi_parse_args abi_dir = parse_args (abi_parser abi_dir)
     [(''rest'', abi_rest_args), (''validate'', abi_validate_args), (''search'', abi_search_args), (''undefined'', abi_undefined_args)]"

definition abi_rest_of :: "namespace \<Rightarrow> abi_command res" where
  "abi_rest_of ns =
     rbind (get_bool ns ''enable_lineno'') (\<lambda>lineno.
     rbind (get_bool ns ''raw'') (\<lambda>raw_text.
     rbind (get_bool ns ''no_file'') (\<lambda>no_file.
     Inr (A_rest lineno raw_text no_file))))"

definition abi_undefined_of :: "namespace \<Rightarrow> abi_command res" where
  "abi_undefined_of ns =
     rbind (get_str ns ''search_string'') (\<lambda>search_string.
     rbind (get_bool ns ''show_hints'') (\<lambda>hints.
     rbind (get_str ns ''sysfs_dir'') (\<lambda>sysfs_dir.
     rbind (get_bool ns ''dry_run'') (\<lambda>dry_run.
     rbind (get_bool ns ''found'') (\<lambda>found.
     rbind (get_int ns ''jobs'') (\<lambda>jobs.
     rbind (get_int ns ''max_chunk_size'') (\<lambda>chunk.
     Inr (A_undefined search_string hints (arg_text sysfs_dir) dry_run found jobs chunk))))))))"

definition abi_command_of :: "namespace \<Rightarrow> abi_command option res" where
  "abi_command_of ns = (case dict_get ns ''func'' of
      Some (Av_func f) \<Rightarrow>
        rbind (if f = ''AbiRest'' then abi_rest_of ns
               else if f = ''AbiValidate'' then Inr A_validate
               else if f = ''AbiSearch'' then rbind (get_str ns ''expression'') (\<lambda>e. Inr (A_search (arg_text e)))
               else abi_undefined_of ns) (\<lambda>c. Inr (Some c))
    | _ \<Rightarrow> Inr None)"

definition get_abi_main :: "'p abi_api \<Rightarrow> string \<Rightarrow> string list \<Rightarrow> string list run" where
  "get_abi_main api abi_dir argv = with_args (abi_parse_args abi_dir argv) (\<lambda>ns.
     rbind (get_str ns ''dir'') (\<lambda>dir.
     rbind (get_int ns ''debug'') (\<lambda>debug.
     rbind (abi_command_of ns) (\<lambda>command.
     get_abi api (arg_text dir) debug command))))"

section \<open>checktransupdate.py\<close>

text \<open>A locale is valid if its directory of translations exists.\<close>

definition valid_locales :: "(string \<Rightarrow> node option) \<Rightarrow> string \<Rightarrow> string \<Rightarrow> arg_value option" where
  "valid_locales fs linux_path loc = (case fs (linux_path @ ''/Documentation/translations/'' @ loc) of
      Some (N_dir _) \<Rightarrow> Some (Av_str loc)
    | _ \<Rightarrow> None)"

definition log_choices :: "string list" where
  "log_choices = [''DEBUG'', ''INFO'', ''WARNING'', ''ERROR'', ''CRITICAL'']"

definition trans_parser :: "(string \<Rightarrow> node option) \<Rightarrow> string \<Rightarrow> arg_parser" where
  "trans_parser fs linux_path = parser_of
     [(opt_store [''-l'', ''--locale''])\<lparr>a_default := Av_str ''zh_CN'', a_type := valid_locales fs linux_path\<rparr>,
      opt_boolean True [''--print-missing-translations''],
      (opt_store [''--log''])\<lparr>a_default := Av_str ''INFO'', a_choices := Some (map Av_str log_choices)\<rparr>,
      (opt_store [''--logfile''])\<lparr>a_default := Av_str ''checktransupdate.log''\<rparr>,
      pos_action N_star ''files'']"

definition log_level :: "string \<Rightarrow> nat" where
  "log_level name = (case map_of [(''DEBUG'', 10), (''INFO'', 20), (''WARNING'', 30), (''ERROR'', 40), (''CRITICAL'', 50)] (upper_str name) of
      Some n \<Rightarrow> n
    | None \<Rightarrow> 20)"

text \<open>\<^verbatim>\<open>DmesgFormatter\<close>: the time, here in microseconds, as seconds with six digits, at least ten wide.\<close>

definition dmesg_format :: "nat \<Rightarrow> string \<Rightarrow> string" where
  "dmesg_format usec m =
     (let frac = str_nat (usec mod 1000000);
          t = str_nat (usec div 1000000) @ ''.'' @ replicate (6 - length frac) (CHR ''0'') @ frac in
      ''['' @ replicate (10 - length t) (CHR '' '') @ t @ ''] '' @ m)"

fun msg_level :: "tu_msg \<Rightarrow> nat" where
  "msg_level (TU_error m) = 40"
| "msg_level (TU_info m) = 20"

fun msg_text :: "tu_msg \<Rightarrow> string" where
  "msg_text (TU_error m) = m"
| "msg_text (TU_info m) = m"

text \<open>
  \<^verbatim>\<open>config_logging\<close>: the messages of the level and above go to the console and then to the log file. Each
  of the two handlers formats the message itself and so asks for the time: \<open>clock\<close> gives the answers in
  order. The file is named by the argument.
\<close>

record log_output =
  lo_console :: "string list"
  lo_file_name :: string
  lo_file :: "string list"

definition config_logging :: "(nat \<Rightarrow> nat) \<Rightarrow> nat \<Rightarrow> string \<Rightarrow> tu_msg list \<Rightarrow> log_output" where
  "config_logging clock level log_file msgs =
     (let shown = enumerate 0 (filter (\<lambda>m. level \<le> msg_level m) msgs) in
      \<lparr>lo_console = map (\<lambda>(i, m). dmesg_format (clock (2 * i)) (msg_text m)) shown,
       lo_file_name = log_file,
       lo_file = map (\<lambda>(i, m). dmesg_format (clock (2 * i + 1)) (msg_text m)) shown\<rparr>)"

text \<open>\<^verbatim>\<open>main\<close> passes the level and not the name of the log file.\<close>

definition checktransupdate ::
    "git \<Rightarrow> (string \<Rightarrow> node option) \<Rightarrow> (string \<Rightarrow> bool) \<Rightarrow> string list \<Rightarrow> string \<Rightarrow> (nat \<Rightarrow> nat) \<Rightarrow> string list \<Rightarrow> log_output run option" where
  "checktransupdate git fs isfile cwd linux_path clock argv =
     (case parse_args (trans_parser fs linux_path) [] argv of
        Inl e \<Rightarrow> Some (Exits e)
      | Inr ns \<Rightarrow>
          (case rbind (get_str ns ''log'') (\<lambda>level.
                rbind (get_str ns ''locale'') (\<lambda>loc.
                rbind (get_bool ns ''print_missing_translations'') (\<lambda>print_missing.
                rbind (get_strs ns ''files'') (\<lambda>files.
                Inr (arg_text level, arg_text loc, print_missing, files))))) of
             Inl e \<Rightarrow> Some (Runs (Inl e))
           | Inr (level, loc, print_missing, files) \<Rightarrow>
               map_option (\<lambda>r. Runs (rbind r (\<lambda>msgs. Inr (config_logging clock (log_level level) ''checktransupdate.log'' msgs))))
                 (trans_main git fs isfile cwd linux_path loc print_missing files)))"

section \<open>parse-headers.py\<close>

definition headers_parser :: arg_parser where
  "headers_parser = parser_of
     [opt_count [''-d'', ''--debug''], opt_true [''-t'', ''--toc''],
      pos_action N_one ''file_in'', pos_action N_one ''file_out'', pos_action N_optional ''file_rules'']"

text \<open>\<^verbatim>\<open>debug_print\<close>: the references of each kind of symbol, in the order of their names.\<close>

definition debug_ref :: "string \<times> string \<times> nat \<Rightarrow> string" where
  "debug_ref x = (case x of (symbol, ref, ln) \<Rightarrow>
     ''  #'' @ str_nat ln @ replicate (5 - length (str_nat ln)) (CHR '' '') @ '' '' @ symbol @ '' -> '' @ ref)"

definition debug_print :: "int \<Rightarrow> ds \<Rightarrow> string list" where
  "debug_print debug d =
     (if debug = 0 then []
      else concat (map (\<lambda>(c_type, refs). if refs = [] then [] else [c_type @ '':''] @ map debug_ref (sort_key fst refs) @ [[]]) (ds_symbols d)))"

definition open_file :: "(string \<Rightarrow> string list option) \<Rightarrow> string \<Rightarrow> string list res" where
  "open_file files name = (case files name of Some ls \<Rightarrow> Inr ls | None \<Rightarrow> Inl OSError)"

text \<open>What is printed, the name of the file written and its text.\<close>

definition parse_headers_main :: "(string \<Rightarrow> string list option) \<Rightarrow> string list \<Rightarrow> (string list \<times> string \<times> string) run" where
  "parse_headers_main files argv = with_args (parse_args headers_parser [] argv) (\<lambda>ns.
     rbind (get_int ns ''debug'') (\<lambda>debug.
     rbind (get_str ns ''file_in'') (\<lambda>file_in.
     rbind (get_str ns ''file_rules'') (\<lambda>file_rules.
     rbind (case some_text file_rules of None \<Rightarrow> Inr None | Some f \<Rightarrow> rbind (open_file files f) (\<lambda>ls. Inr (Some ls))) (\<lambda>rules.
     rbind (open_file files (arg_text file_in)) (\<lambda>lines.
     rbind (parse_header lines rules ds_init) (\<lambda>d.
     rbind (get_str ns ''file_out'') (\<lambda>file_out.
     rbind (get_bool ns ''toc'') (\<lambda>toc.
     rbind (write_output (arg_text file_in) toc d) (\<lambda>t.
     Inr (debug_print debug d, arg_text file_out, t)))))))))))"

section \<open>test_doc_build.py\<close>

text \<open>\<^verbatim>\<open>parse_version\<close>: the numbers between the dots, if all of them are.\<close>

definition build_version :: "string \<Rightarrow> arg_value option" where
  "build_version s = (case parse_version s of Inr v \<Rightarrow> Some (Av_tuple v) | Inl e \<Rightarrow> None)"

definition MAKE_TARGETS :: "string list" where
  "MAKE_TARGETS = [''htmldocs'', ''texinfodocs'', ''infodocs'', ''latexdocs'', ''pdfdocs'', ''epubdocs'', ''xmldocs'']"

definition build_parser :: arg_parser where
  "build_parser = parser_of
     [(opt_action K_store N_star (Av_list (map Av_tuple DEFAULT_VERSIONS_TO_TEST)) [''-V'', ''--versions''])\<lparr>a_type := build_version\<rparr>,
      (opt_store [''--min-version'', ''--min''])\<lparr>a_type := build_version\<rparr>,
      (opt_store [''--max-version'', ''--max''])\<lparr>a_type := build_version\<rparr>,
      opt_true [''-f'', ''--full''],
      opt_true [''-b'', ''--build''],
      opt_action K_store N_star Av_none [''-a'', ''--make-args''],
      (opt_action K_store N_plus (Av_list [Av_str (hd MAKE_TARGETS)]) [''-t'', ''--targets''])\<lparr>a_choices := Some (map Av_str MAKE_TARGETS)\<rparr>,
      opt_store [''-o'', ''--output''],
      opt_true [''-r'', ''--req-file''],
      opt_store [''-l'', ''--log''],
      opt_true [''-v'', ''--verbose''],
      opt_true [''-i'', ''--wait-input'']]"

definition build_args_of :: "namespace \<Rightarrow> build_args res" where
  "build_args_of ns =
     rbind (get_strs ns ''make_args'') (\<lambda>make_args.
     rbind (get_bool ns ''full'') (\<lambda>full.
     rbind (ns_get ns ''versions'') (\<lambda>versions.
     rbind (ns_get ns ''min_version'') (\<lambda>min_version.
     rbind (ns_get ns ''max_version'') (\<lambda>max_version.
     rbind (get_bool ns ''build'') (\<lambda>build.
     rbind (get_strs ns ''targets'') (\<lambda>targets.
     rbind (get_str ns ''output'') (\<lambda>output.
     rbind (get_bool ns ''req_file'') (\<lambda>req_file.
     rbind (get_str ns ''log'') (\<lambda>log.
     rbind (get_bool ns ''verbose'') (\<lambda>verbose.
     rbind (get_bool ns ''wait_input'') (\<lambda>wait_input.
     Inr \<lparr>ba_versions = map (\<lambda>v. case as_tuple v of Some t \<Rightarrow> t | None \<Rightarrow> []) (as_list versions),
       ba_min_version = as_tuple min_version, ba_max_version = as_tuple max_version, ba_full = full, ba_build = build,
       ba_make_args = make_args, ba_targets = targets, ba_output = output, ba_req_file = req_file, ba_log = log,
       ba_verbose = verbose, ba_wait_input = wait_input\<rparr>))))))))))))"

definition test_doc_build_main :: "world \<Rightarrow> string list \<Rightarrow> (unit res \<times> bstate) run" where
  "test_doc_build_main w argv = with_args (parse_args build_parser [] argv) (\<lambda>ns.
     rbind (build_args_of ns) (\<lambda>a. Inr (test_doc_build w a)))"

section \<open>The other scripts\<close>

definition renames_parser :: arg_parser where
  "renames_parser = parser_of [(opt_store [''--rev''])\<lparr>a_default := Av_str ''HEAD''\<rparr>]"

definition renames_commands :: "string \<Rightarrow> string list \<times> string list" where
  "renames_commands rv =
     ([''git'', ''log'', ''--reverse'', ''--oneline'', ''--find-renames'', ''--diff-filter=RD'', ''--name-status'',
       ''--format=commit %H'', ''v4.8..'' @ rv, ''--'', ''Documentation/''],
      [''git'', ''ls-tree'', ''-r'', ''--name-only'', rv, ''Documentation/''])"

text \<open>What \<^verbatim>\<open>git\<close> prints for a command, or that it fails.\<close>

definition check_output :: "(string list \<Rightarrow> string list option) \<Rightarrow> string list \<Rightarrow> string list res" where
  "check_output git cmd = (case git cmd of Some ls \<Rightarrow> Inr ls | None \<Rightarrow> Inl CalledProcessError)"

definition gen_renames_main :: "(string list \<Rightarrow> string list option) \<Rightarrow> string list \<Rightarrow> string list run" where
  "gen_renames_main git argv = with_args (parse_args renames_parser [] argv) (\<lambda>ns.
     rbind (get_str ns ''rev'') (\<lambda>rv.
     rbind (check_output git (fst (renames_commands (arg_text rv)))) (\<lambda>log.
     rbind (check_output git (snd (renames_commands (arg_text rv)))) (\<lambda>tree.
     rbind (gen_renames log tree) (\<lambda>rs. Inr (map rename_line rs))))))"

definition redirects_parser :: arg_parser where
  "redirects_parser = parser_of [opt_store [''-o'', ''--output'']]"

text \<open>Without the option, joining the first line's name to the missing directory raises \<open>TypeError\<close>.\<close>

definition gen_redirects_main :: "string list \<Rightarrow> string list \<Rightarrow> string list \<Rightarrow> string list \<Rightarrow> (string list \<times> page_action list) run" where
  "gen_redirects_main cwd existing lines argv = with_args (parse_args redirects_parser [] argv) (\<lambda>ns.
     rbind (get_str ns ''output'') (\<lambda>output.
     case output of
       Some dir \<Rightarrow> gen_redirects cwd dir existing lines
     | None \<Rightarrow> (case lines of [] \<Rightarrow> Inr (existing, []) | l # _ \<Rightarrow> rbind (redirect_parts l) (\<lambda>_. Inl TypeError))))"

definition fonts_parser :: arg_parser where
  "fonts_parser = parser_of [opt_store [''--deny-vf'']]"

definition check_variable_fonts_main ::
    "((string, string) dict \<Rightarrow> fc_result) \<Rightarrow> (string, string) dict \<Rightarrow> (string \<Rightarrow> string) \<Rightarrow> string list \<Rightarrow> (string list \<times> nat) run" where
  "check_variable_fonts_main fc_list environ expanduser argv = with_args (parse_args fonts_parser [] argv) (\<lambda>ns.
     rbind (get_str ns ''deny_vf'') (\<lambda>deny_vf. check_variable_fonts fc_list environ expanduser deny_vf))"

end
