(* ===== verification/Kdoc_Yaml.thy ===== *)
theory Kdoc_Yaml
  imports Files_Props
begin

text \<open>
  \<^verbatim>\<open>kdoc_yaml_file.py\<close>: the items of a run stored as unit tests, and the branch of \<^verbatim>\<open>KernelFiles\<close> that
  writes them. Storing an item changes it: its lines are counted from its own start and its source
  is taken out, in the results of the run as well. Writing YAML is a library's work; what is written is
  the list of tests.
\<close>

section \<open>Tests\<close>

record yaml_expected =
  ye_item :: "kdoc_item option"
  ye_man :: "string option"
  ye_rst :: "string option"

record yaml_test =
  yt_name :: string
  yt_description :: string
  yt_fname :: string
  yt_source :: pyval
  yt_expected :: yaml_expected

record test_file =
  tf_test_file :: string
  tf_yaml_content :: "string list"
  tf_test_names :: "string list"
  tf_tests :: "yaml_test list"
  tf_man :: "man option"
  tf_rst :: "rest option"

text \<open>
  \<^verbatim>\<open>__init__\<close>: without the library, or without the directory, it means to exit, but the name \<^verbatim>\<open>sys\<close> is
  not imported.
\<close>

definition test_file_init ::
    "bool \<Rightarrow> (string \<Rightarrow> string) \<Rightarrow> (string \<Rightarrow> bool) \<Rightarrow> string \<Rightarrow> string \<Rightarrow> string list \<Rightarrow> test_file res" where
  "test_file_init yaml_available expanduser isdir date yaml_file yaml_content =
     (let test_file = expanduser yaml_file; out_dir = dirname test_file in
      if \<not> yaml_available then Inl NameError
      else if out_dir \<noteq> [] \<and> \<not> isdir out_dir then Inl NameError
      else Inr \<lparr>tf_test_file = test_file, tf_yaml_content = yaml_content, tf_test_names = [], tf_tests = [],
        tf_man = (if ''man'' \<in> set yaml_content then Some (man_init None ''9'' ''Kernel API Manual'' date) else None),
        tf_rst = (if ''rst'' \<in> set yaml_content then Some rest_init else None)\<rparr>)"

definition test_set_filter :: "request \<Rightarrow> string list \<Rightarrow> test_file \<Rightarrow> test_file" where
  "test_set_filter rq tbl tf =
     tf\<lparr>tf_man := map_option (set_filter (rq_export rq) (rq_internal rq) (rq_symbol rq) (rq_nosymbol rq) tbl (rq_lineno rq) (rq_no_doc rq)) (tf_man tf),
        tf_rst := map_option (set_filter (rq_export rq) (rq_internal rq) (rq_symbol rq) (rq_nosymbol rq) tbl (rq_lineno rq) (rq_no_doc rq)) (tf_rst tf)\<rparr>"

section \<open>Items\<close>

definition rebase :: "int \<Rightarrow> (string, int) dict \<Rightarrow> (string, int) dict" where
  "rebase delta d = map (\<lambda>(key, ln). (key, ln + delta)) d"

definition get_kdoc_item :: "kdoc_item \<Rightarrow> int \<Rightarrow> kdoc_item" where
  "get_kdoc_item arg start_line =
     (let declaration_start_line = it_start_line arg in
      if declaration_start_line = 0 then arg
      else arg\<lparr>it_start_line := start_line,
        it_paramdesc_lines := rebase (start_line - declaration_start_line) (it_paramdesc_lines arg),
        it_sections_lines := rebase (start_line - declaration_start_line) (it_sections_lines arg)\<rparr>)"

definition stored_item :: "kdoc_item \<Rightarrow> kdoc_item" where
  "stored_item arg = (let msg = get_kdoc_item arg 1 in
     if dict_has (it_other msg) ''source'' then msg\<lparr>it_other := dict_del (it_other msg) ''source''\<rparr> else msg)"

section \<open>Names\<close>

definition three_digits :: "nat \<Rightarrow> string" where
  "three_digits i = (let s = str_nat i in replicate (3 - length s) (CHR ''0'') @ s)"

definition nth_name :: "string \<Rightarrow> nat \<Rightarrow> string" where
  "nth_name base_name i = (if i = 0 then base_name else base_name @ ''_'' @ three_digits i)"

definition base_name :: "string \<Rightarrow> kdoc_item \<Rightarrow> string" where
  "base_name fname arg =
     (let b = (if it_name arg = [] then fname else it_name arg) in
      replace (replace (lower_str b) ''.'' ''_'') ''/'' ''_'')"

lemma digits_zeros: "digits_val 0 (replicate n (CHR ''0'') @ s) = digits_val 0 s"
proof -
  have "digit_val (CHR ''0'') = 0" by code_simp
  then have "digits_val 0 (replicate n (CHR ''0'')) = 0" by (induction n) simp_all
  then show ?thesis by (simp add: digits_val_append)
qed

lemma three_digits_inj: "three_digits i = three_digits j \<Longrightarrow> i = j"
  using digits_zeros digits_str_nat unfolding three_digits_def Let_def by metis

lemma nth_name_inj: "inj (nth_name b)"
  by (rule injI) (auto simp: nth_name_def dest: three_digits_inj split: if_splits)

lemma finite_taken: "finite {j. i \<le> j \<and> nth_name b j \<in> set names'}"
proof -
  have "finite (nth_name b -` set names')" by (rule finite_vimageI [OF _ nth_name_inj]) simp
  then show ?thesis by (rule finite_subset [rotated]) auto
qed

text \<open>The loop for a name that is not taken: the plain name, then the name with a counter.\<close>

function next_name :: "string list \<Rightarrow> string \<Rightarrow> nat \<Rightarrow> string" where
  "next_name taken b i = (if nth_name b i \<in> set taken then next_name taken b (i + 1) else nth_name b i)"
  by auto
termination
proof (relation "measure (\<lambda>(taken, b, i). card {j. i \<le> j \<and> nth_name b j \<in> set taken})")
  fix taken b and i :: nat
  assume "nth_name b i \<in> set taken"
  then have "i \<in> {j. i \<le> j \<and> nth_name b j \<in> set taken}" by simp
  moreover have "i \<notin> {j. i + 1 \<le> j \<and> nth_name b j \<in> set taken}" by simp
  moreover have "{j. i + 1 \<le> j \<and> nth_name b j \<in> set taken} \<subseteq> {j. i \<le> j \<and> nth_name b j \<in> set taken}" by auto
  ultimately have "{j. i + 1 \<le> j \<and> nth_name b j \<in> set taken} \<subset> {j. i \<le> j \<and> nth_name b j \<in> set taken}" by blast
  then show "((taken, b, i + 1), (taken, b, i)) \<in> measure (\<lambda>(taken, b, i). card {j. i \<le> j \<and> nth_name b j \<in> set taken})"
    by (simp add: psubset_card_mono finite_taken)
qed simp

declare next_name.simps [simp del]

section \<open>Storing\<close>

text \<open>One output style, if it was asked for; its warnings are counted.\<close>

definition style_text ::
    "(string \<Rightarrow> kdoc_item list \<Rightarrow> 'f fmt_scheme \<Rightarrow> (string \<times> 'f fmt_scheme) res) \<Rightarrow> string \<Rightarrow> kdoc_item \<Rightarrow> 'f fmt_scheme option \<Rightarrow> kfiles \<Rightarrow>
     (string option \<times> 'f fmt_scheme option \<times> kfiles) res" where
  "style_text out_symbols fname arg style st =
     (case style of
        None \<Rightarrow> Inr (None, None, st)
      | Some f \<Rightarrow> rbind (out_symbols fname [arg] f) (\<lambda>(t, f1).
          Inr (Some (strip t), Some f1, add_log (map Cfg_warning (drop (length (f_warn f)) (f_warn f1))) st)))"

definition store_symbol ::
    "string \<Rightarrow> kdoc_item list \<times> test_file \<times> kfiles \<Rightarrow> kdoc_item \<Rightarrow> (kdoc_item list \<times> test_file \<times> kfiles) res" where
  "store_symbol fname acc arg0 = (case acc of (items, tf, st) \<Rightarrow>
     (let source = item_get arg0 ''source'' (V_str []);
          with_item = ''KdocItem'' \<in> set (tf_yaml_content tf);
          arg = (if with_item then stored_item arg0 else arg0);
          name = next_name (tf_test_names tf) (base_name fname arg) 0 in
      rbind (style_text man_symbols fname arg (tf_man tf) st) (\<lambda>(man_text, man, st1).
      rbind (style_text rest_symbols fname arg (tf_rst tf) st1) (\<lambda>(rst_text, rst, st2).
      Inr (items @ [arg],
        tf\<lparr>tf_man := man, tf_rst := rst, tf_test_names := tf_test_names tf @ [name],
           tf_tests := tf_tests tf @
             [\<lparr>yt_name = name, yt_description = fname @ '' line '' @ str_int (it_start_line arg), yt_fname = fname, yt_source = source,
               yt_expected = \<lparr>ye_item = (if with_item then Some arg else None), ye_man = man_text, ye_rst = rst_text\<rparr>\<rparr>]\<rparr>,
        st2)))))"

definition store_symbols ::
    "string \<Rightarrow> kdoc_item list \<Rightarrow> test_file \<Rightarrow> kfiles \<Rightarrow> (kdoc_item list \<times> test_file \<times> kfiles) res" where
  "store_symbols fname symbols tf st = fold_res (store_symbol fname) ([], tf, st) symbols"

section \<open>A run that stores tests\<close>

definition kfiles_init_yaml :: "(string \<Rightarrow> string option) \<Rightarrow> bool \<Rightarrow> bool \<Rightarrow> bool \<Rightarrow> bool \<Rightarrow> kfiles" where
  "kfiles_init_yaml env verbose werror wreturn wshort_desc =
     (kfiles_init env verbose werror wreturn wshort_desc)\<lparr>kf_store_src := True\<rparr>"

definition store_file ::
    "request \<Rightarrow> string \<Rightarrow> string list \<Rightarrow> test_file \<Rightarrow> kfiles \<Rightarrow> (test_file \<times> kfiles) res" where
  "store_file rq fname tbl tf st =
     (case dict_get (kf_results st) fname of
        None \<Rightarrow> Inr (tf, st\<lparr>kf_log := kf_log st @ [Log_warning (''No kernel-doc for file '' @ fname)]\<rparr>)
      | Some symbols \<Rightarrow>
        rbind (store_symbols fname symbols (test_set_filter rq tbl tf) st) (\<lambda>(items, tf1, st1).
        Inr (tf1, st1\<lparr>kf_results := dict_set (kf_results st1) fname items\<rparr>)))"

definition msg_file_yaml ::
    "(string \<Rightarrow> node option) \<Rightarrow> request \<Rightarrow> string list \<times> test_file \<times> kfiles \<Rightarrow> string \<Rightarrow> (string list \<times> test_file \<times> kfiles) res" where
  "msg_file_yaml fs rq acc fname = (case acc of (export_file, tf, st) \<Rightarrow>
     (let export_file1 = (if filtering rq \<and> export_file = [] then [fname] else export_file) in
      rbind (function_table fs rq export_file1 st) (\<lambda>(tbl, st1).
      rbind (store_file rq fname tbl tf st1) (\<lambda>acc1. Inr (export_file1, acc1)))))"

definition kfiles_msg_yaml ::
    "(string \<Rightarrow> node option) \<Rightarrow> request \<Rightarrow> string list \<Rightarrow> string list \<Rightarrow> test_file \<Rightarrow> kfiles \<Rightarrow> (test_file \<times> kfiles) res" where
  "kfiles_msg_yaml fs rq filenames export_file tf st =
     (let fnames = (if filenames = [] then sort (dict_keys (kf_results st)) else filenames) in
      rbind (fold_res (msg_file_yaml fs rq) (export_file, tf, st) fnames) (\<lambda>(_, acc). Inr acc))"

section \<open>Names are fresh\<close>

lemma next_name_fresh: "next_name taken b i \<notin> set taken"
  by (induction taken b i rule: next_name.induct) (simp add: next_name.simps)

text \<open>
  The loop that looks for a name ends, with the first name of the sequence that is not taken.
\<close>

theorem next_name_first:
  "\<exists>i. next_name taken b 0 = nth_name b i \<and> nth_name b i \<notin> set taken \<and> (\<forall>j < i. nth_name b j \<in> set taken)"
proof -
  have "\<exists>i \<ge> k. next_name taken b k = nth_name b i \<and> nth_name b i \<notin> set taken \<and> (\<forall>j. k \<le> j \<and> j < i \<longrightarrow> nth_name b j \<in> set taken)" for k
  proof (induction taken b k rule: next_name.induct)
    case (1 taken b k)
    show ?case
    proof (cases "nth_name b k \<in> set taken")
      case True
      then obtain i where "k + 1 \<le> i" "next_name taken b (k + 1) = nth_name b i" "nth_name b i \<notin> set taken"
        "\<forall>j. k + 1 \<le> j \<and> j < i \<longrightarrow> nth_name b j \<in> set taken" using 1 by blast
      then have "next_name taken b k = nth_name b i" "k \<le> i" "\<forall>j. k \<le> j \<and> j < i \<longrightarrow> nth_name b j \<in> set taken"
        using True by (simp_all add: next_name.simps [of _ _ k]) (metis Suc_leI le_neq_implies_less)
      then show ?thesis using \<open>nth_name b i \<notin> set taken\<close> by blast
    next
      case False
      then show ?thesis by (intro exI [of _ k]) (auto simp: next_name.simps [of _ _ k])
    qed
  qed
  from this [of 0] show ?thesis by simp
qed

section \<open>Lines\<close>

text \<open>
  A stored item starts at line 1 and keeps the distance of every section and every parameter from its
  start; storing it again changes nothing.
\<close>

theorem get_kdoc_item_distances:
  assumes "it_start_line it \<noteq> 0"
  shows "let it' = get_kdoc_item it 1 in it_start_line it' = 1 \<and> get_kdoc_item it' 1 = it' \<and>
    map (\<lambda>(k, l). (k, l - it_start_line it')) (it_sections_lines it') = map (\<lambda>(k, l). (k, l - it_start_line it)) (it_sections_lines it) \<and>
    map (\<lambda>(k, l). (k, l - it_start_line it')) (it_paramdesc_lines it') = map (\<lambda>(k, l). (k, l - it_start_line it)) (it_paramdesc_lines it)"
  using assms by (simp add: get_kdoc_item_def Let_def rebase_def case_prod_unfold)

definition sample_item :: kdoc_item where
  "sample_item = (kdoc_item_init ''f'' ''f.c'' ''function'' 10 [])\<lparr>it_sections_lines := [(''Return'', 14)], it_paramdesc_lines := [(''a'', 0)]\<rparr>"

theorem get_kdoc_item_distances_witness:
  "it_sections_lines (get_kdoc_item sample_item 1) = [(''Return'', 5)] \<and> it_paramdesc_lines (get_kdoc_item sample_item 1) = [(''a'', - 9)] \<and>
   (let it' = get_kdoc_item sample_item 1 in get_kdoc_item it' 1 = it')"
proof -
  have "it_start_line sample_item \<noteq> 0" by code_simp
  from get_kdoc_item_distances [OF this] have "let it' = get_kdoc_item sample_item 1 in get_kdoc_item it' 1 = it'"
    by (simp only: Let_def)
  moreover have "it_sections_lines (get_kdoc_item sample_item 1) = [(''Return'', 5)]" "it_paramdesc_lines (get_kdoc_item sample_item 1) = [(''a'', - 9)]"
    by code_simp+
  ultimately show ?thesis by blast
qed

section \<open>A stored run\<close>

lemma stored_item_ok:
  assumes "kitem_ok it"
  shows "kitem_ok (stored_item it)"
proof -
  have frame: "it_type (get_kdoc_item it 1) = it_type it" "it_sections (get_kdoc_item it 1) = it_sections it"
    "it_parameterlist (get_kdoc_item it 1) = it_parameterlist it" "it_parameterdescs (get_kdoc_item it 1) = it_parameterdescs it"
    "it_parametertypes (get_kdoc_item it 1) = it_parametertypes it" "it_other (get_kdoc_item it 1) = it_other it"
    by (simp_all add: get_kdoc_item_def Let_def)
  have "extras_ok ty d \<Longrightarrow> extras_ok ty (dict_del d ''source'')" for ty d
    unfolding extras_ok_def dict_has_def by (simp only: dict_del_other [of "''purpose''" "''source''", simplified]
      dict_del_other [of "''definition''" "''source''", simplified] dict_del_other [of "''full_proto''" "''source''", simplified]
      dict_del_other [of "''default_val''" "''source''", simplified])
  then show ?thesis using assms unfolding stored_item_def Let_def kitem_ok_def by (simp add: frame)
qed

text \<open>The tests stored so far have different names, and the output styles a filter.\<close>

definition tests_ok :: "test_file \<Rightarrow> bool" where
  "tests_ok tf \<longleftrightarrow> distinct (tf_test_names tf) \<and> map yt_name (tf_tests tf) = tf_test_names tf"

definition filters_set :: "string list \<Rightarrow> test_file \<Rightarrow> bool" where
  "filters_set t tf \<longleftrightarrow> (\<forall>f. tf_man tf = Some f \<longrightarrow> f_table f = Some t) \<and> (\<forall>f. tf_rst tf = Some f \<longrightarrow> f_table f = Some t)"

definition store_inv :: "string list \<Rightarrow> string list \<Rightarrow> kdoc_item list \<times> test_file \<times> kfiles \<Rightarrow> bool" where
  "store_inv t F acc = (case acc of (items, tf, st) \<Rightarrow>
     list_all kitem_ok items \<and> tests_ok tf \<and> filters_set t tf \<and> kf_inv st \<and> kf_files st = F)"

context out_format
begin

lemma style_ok:
  assumes "kitem_ok it" and "kf_inv st" and "\<And>f. style = Some f \<Longrightarrow> f_table f = Some t"
  shows "safe errs (\<lambda>(tx, style', st'). kf_inv st' \<and> kf_files st' = kf_files st \<and> (\<forall>f. style' = Some f \<longrightarrow> f_table f = Some t))
    (style_text out_symbols fname it style st)"
proof (cases style)
  case None
  then show ?thesis using assms(2) by (simp add: style_text_def)
next
  case (Some f)
  have "list_all kitem_ok [it]" using assms(1) by simp
  from symbols_ok [OF this assms(3) [OF Some]] show ?thesis unfolding style_text_def Some option.case
    by (rule safe_rbind) (use assms(2) in auto)
qed

end

lemma store_symbol_safe:
  assumes "store_inv t F acc" and "kitem_ok arg"
  shows "safe {IndexError, KeyError, TypeError} (store_inv t F) (store_symbol fname acc arg)"
proof -
  obtain items tf st where acc: "acc = (items, tf, st)" by (cases acc)
  define arg' where "arg' = (if ''KdocItem'' \<in> set (tf_yaml_content tf) then stored_item arg else arg)"
  have ok: "kitem_ok arg'" using assms(2) stored_item_ok by (simp add: arg'_def)
  have inv: "list_all kitem_ok items" "tests_ok tf" "kf_inv st" "kf_files st = F"
    "\<And>f. tf_man tf = Some f \<Longrightarrow> f_table f = Some t" "\<And>f. tf_rst tf = Some f \<Longrightarrow> f_table f = Some t"
    using assms(1) by (auto simp: store_inv_def acc filters_set_def)
  let ?P = "\<lambda>(tx, style', st'). kf_inv st' \<and> kf_files st' = F \<and> (\<forall>f. style' = Some f \<longrightarrow> f_table f = Some t)"
  have man: "safe {IndexError, KeyError, TypeError} ?P (style_text man_symbols fname arg' (tf_man tf) st)"
    using man_format.style_ok [OF ok inv(3) inv(5), where fname = fname] by (rule safe_errs [OF safe_mono]) (auto simp: inv(4))
  have rest: "safe {IndexError, KeyError, TypeError} ?P (style_text rest_symbols fname arg' (tf_rst tf) st')"
    if "kf_inv st'" "kf_files st' = F" for st'
    using rest_format.style_ok [OF ok that(1) inv(6), where fname = fname] by (rule safe_errs [OF safe_mono]) (auto simp: that)
  show ?thesis unfolding store_symbol_def acc prod.case Let_def arg'_def [symmetric]
  proof (rule safe_rbind [OF man], clarify)
    fix m_text and man' :: "man option" and st1
    assume 1: "kf_inv st1" "F = kf_files st1" "\<forall>f. man' = Some f \<longrightarrow> f_table f = Some t"
    show "safe {IndexError, KeyError, TypeError} (store_inv t (kf_files st1)) (rbind (style_text rest_symbols fname arg' (tf_rst tf) st1) (\<lambda>(rst_text, rst, st2).
        Inr (items @ [arg'], tf\<lparr>tf_man := man', tf_rst := rst, tf_test_names := tf_test_names tf @ [next_name (tf_test_names tf) (base_name fname arg') 0],
           tf_tests := tf_tests tf @
             [\<lparr>yt_name = next_name (tf_test_names tf) (base_name fname arg') 0, yt_description = fname @ '' line '' @ str_int (it_start_line arg'),
               yt_fname = fname, yt_source = item_get arg ''source'' (V_str []),
               yt_expected = \<lparr>ye_item = (if ''KdocItem'' \<in> set (tf_yaml_content tf) then Some arg' else None), ye_man = m_text, ye_rst = rst_text\<rparr>\<rparr>]\<rparr>, st2)))"
      by (rule safe_rbind [OF rest [OF 1(1) 1(2) [symmetric]]])
        (use inv ok 1 next_name_fresh in \<open>auto simp: store_inv_def tests_ok_def filters_set_def\<close>)
  qed
qed

lemma store_file_safe:
  assumes "kf_inv st" and "tests_ok tf"
  shows "safe {IndexError, KeyError, TypeError} (\<lambda>(tf', st'). kf_inv st' \<and> tests_ok tf') (store_file rq fname tbl tf st)"
proof (cases "dict_get (kf_results st) fname")
  case None
  then show ?thesis using assms by (simp add: store_file_def kf_inv_def)
next
  case (Some symbols)
  then have ok: "list_all kitem_ok symbols" and f: "fname \<in> set (kf_files st)"
    using assms(1) by (auto simp: kf_inv_def dict_has_keys [symmetric] dict_has_def)
  have "store_inv tbl (kf_files st) ([], test_set_filter rq tbl tf, st)"
    using assms by (auto simp: store_inv_def tests_ok_def filters_set_def test_set_filter_def)
  then have "safe {IndexError, KeyError, TypeError} (store_inv tbl (kf_files st)) (store_symbols fname symbols (test_set_filter rq tbl tf) st)"
    unfolding store_symbols_def by (rule safe_fold_res [rotated]) (use ok store_symbol_safe in \<open>auto simp: list_all_iff\<close>)
  then show ?thesis unfolding store_file_def Some option.case
    by (rule safe_rbind) (use f in \<open>auto simp: store_inv_def kf_inv_def dict_keys_set dict_set_get\<close>)
qed

lemma msg_file_yaml_safe:
  assumes "kf_inv st" and "tests_ok tf"
  shows "safe {IndexError, KeyError, TypeError} (\<lambda>(ef', tf', st'). kf_inv st' \<and> tests_ok tf') (msg_file_yaml fs rq (ef, tf, st) fname)"
proof -
  have tbl: "safe {IndexError, KeyError, TypeError} (\<lambda>(tbl, st'). kf_inv st') (function_table fs rq ef' st)" for ef'
    by (rule safe_errs [OF safe_mono [OF function_table_safe [OF assms(1)]]]) auto
  show ?thesis unfolding msg_file_yaml_def prod.case Let_def
    by (rule safe_rbind [OF tbl]) (auto intro!: safe_rbind [OF store_file_safe] simp: assms(2))
qed

lemma msg_yaml_safe:
  assumes "kf_inv st" and "tests_ok tf"
  shows "safe {IndexError, KeyError, TypeError} (\<lambda>(tf', st'). kf_inv st' \<and> tests_ok tf') (kfiles_msg_yaml fs rq filenames ef tf st)"
proof -
  have "safe {IndexError, KeyError, TypeError} (\<lambda>(ef', tf', st'). kf_inv st' \<and> tests_ok tf')
      (fold_res (msg_file_yaml fs rq) (ef, tf, st) fnames)" for fnames
  proof (rule safe_fold_res)
    fix acc :: "string list \<times> test_file \<times> kfiles" and fname
    assume "case acc of (ef', tf', st') \<Rightarrow> kf_inv st' \<and> tests_ok tf'"
    then show "safe {IndexError, KeyError, TypeError} (\<lambda>(ef', tf', st'). kf_inv st' \<and> tests_ok tf') (msg_file_yaml fs rq acc fname)"
      using msg_file_yaml_safe by (cases acc) auto
  qed (use assms in simp)
  then show ?thesis unfolding kfiles_msg_yaml_def Let_def by (rule safe_rbind) auto
qed


text \<open>
  The description of a stored test names line 1, whatever line of the file the item starts at: the
  line is read after the item was changed.
\<close>

theorem description_line_one:
  assumes "''KdocItem'' \<in> set (tf_yaml_content tf)" and "it_start_line arg \<noteq> 0" and "store_symbol fname (items, tf, st) arg = Inr (items', tf', st')"
  shows "yt_description (last (tf_tests tf')) = fname @ '' line 1''"
proof -
  have "it_start_line (stored_item arg) = 1" using assms(2) by (simp add: stored_item_def get_kdoc_item_def Let_def)
  moreover have "str_int 1 = ''1''" by code_simp
  ultimately show ?thesis using assms(1,3) by (auto simp: store_symbol_def Let_def rbind_Inr_iff split: prod.splits)
qed

section \<open>Items from dictionaries\<close>

text \<open>
  \<^verbatim>\<open>KdocItem.from_dict\<close>, of a dictionary with a name, a file and a kind: what is left of it after
  taking these out, the start line (1 if there is none) and the optional values are the keyword arguments of the
  constructor. A keyword that is given twice is a \<open>TypeError\<close>.
\<close>

definition from_dict ::
    "string \<Rightarrow> string \<Rightarrow> string \<Rightarrow> int option \<Rightarrow> (string, pyval) dict \<Rightarrow> (string, pyval) dict \<Rightarrow> kdoc_item res" where
  "from_dict name fname ty start_line cp other_stuff =
     (let reserved = [''self'', ''name'', ''fname'', ''type'', ''start_line''] in
      if list_ex (\<lambda>k. k \<in> set reserved) (dict_keys cp) \<or> list_ex (\<lambda>k. k \<in> set reserved \<or> k \<in> set (dict_keys cp)) (dict_keys other_stuff)
      then Inl TypeError
      else Inr (kdoc_item_init name fname ty (case start_line of Some n \<Rightarrow> n | None \<Rightarrow> 1) (cp @ other_stuff)))"

text \<open>The attributes of an item but its name, file, kind and optional values, as \<^verbatim>\<open>vars\<close> gives them.\<close>

definition item_vars :: "kdoc_item \<Rightarrow> (string, pyval) dict" where
  "item_vars it = [(''declaration_start_line'', V_int (it_start_line it)), (''sections'', V_dict (it_sections it)),
     (''sections_start_lines'', V_lines (it_sections_lines it)), (''parameterlist'', V_list (it_parameterlist it)),
     (''parameterdesc_start_lines'', V_lines (it_paramdesc_lines it)), (''parameterdescs'', V_dict (it_parameterdescs it)),
     (''parametertypes'', V_dict (it_parametertypes it)), (''warnings'', V_list (it_warnings it))]"

lemma dict_set_new: "k \<notin> set (dict_keys d) \<Longrightarrow> dict_set d k v = d @ [(k, v)]"
  by (induction d) auto

lemma set_others:
  "dict_wf d \<Longrightarrow> \<forall>k \<in> set (dict_keys d). k \<notin> set known_keys \<and> k \<notin> set (dict_keys (it_other it)) \<Longrightarrow>
   foldl item_set it d = it\<lparr>it_other := it_other it @ d\<rparr>"
proof (induction d arbitrary: it)
  case (Cons x d)
  obtain k v where x: "x = (k, v)" by force
  have "item_set it x = it\<lparr>it_other := it_other it @ [(k, v)]\<rparr>"
    using Cons.prems(2) by (simp add: x item_set_def dict_set_new)
  moreover have "\<forall>k' \<in> set (dict_keys d). k' \<notin> set known_keys \<and> k' \<notin> set (dict_keys (it_other it @ [(k, v)]))"
    using Cons.prems by (auto simp: x dict_wf_def dict_keys_def)
  moreover have "dict_wf d" using Cons.prems(1) by (simp add: dict_wf_def)
  ultimately show ?case using Cons.IH [of "it\<lparr>it_other := it_other it @ [(k, v)]\<rparr>"] by (simp add: x)
qed simp

lemma known_sets:
  "k = ''declaration_start_line'' \<Longrightarrow> item_set it (k, V_int n) = it\<lparr>it_start_line := n\<rparr>"
  "k = ''sections'' \<Longrightarrow> item_set it (k, V_dict d) = it\<lparr>it_sections := d\<rparr>"
  "k = ''sections_start_lines'' \<Longrightarrow> item_set it (k, V_lines l) = it\<lparr>it_sections_lines := l\<rparr>"
  "k = ''parameterlist'' \<Longrightarrow> item_set it (k, V_list ps) = it\<lparr>it_parameterlist := ps\<rparr>"
  "k = ''parameterdesc_start_lines'' \<Longrightarrow> item_set it (k, V_lines l) = it\<lparr>it_paramdesc_lines := l\<rparr>"
  "k = ''parameterdescs'' \<Longrightarrow> item_set it (k, V_dict d) = it\<lparr>it_parameterdescs := d\<rparr>"
  "k = ''parametertypes'' \<Longrightarrow> item_set it (k, V_dict d) = it\<lparr>it_parametertypes := d\<rparr>"
  "k = ''warnings'' \<Longrightarrow> item_set it (k, V_list ps) = it\<lparr>it_warnings := ps\<rparr>"
  by (simp_all add: item_set_def known_keys_def item_setattr_def)

text \<open>
  Reading an item back from its attributes gives the item, whatever start line is given besides, if
  its optional keys are neither attributes nor arguments of the constructor.
\<close>

theorem from_dict_roundtrip:
  assumes "dict_wf (it_other it)"
    and "\<forall>k \<in> set (dict_keys (it_other it)). k \<notin> set known_keys \<and> k \<notin> set [''self'', ''name'', ''fname'', ''type'', ''start_line'']"
  shows "from_dict (it_name it) (it_fname it) (it_type it) start_line (item_vars it) (it_other it) = Inr it"
proof -
  have keys: "dict_keys (item_vars it) = known_keys" by (simp add: item_vars_def known_keys_def)
  have "\<not> list_ex (\<lambda>k. k \<in> set [''self'', ''name'', ''fname'', ''type'', ''start_line'']) known_keys" by code_simp
  then have ok: "from_dict (it_name it) (it_fname it) (it_type it) start_line (item_vars it) (it_other it) =
      Inr (kdoc_item_init (it_name it) (it_fname it) (it_type it) (case start_line of Some n \<Rightarrow> n | None \<Rightarrow> 1) (item_vars it @ it_other it))"
    unfolding from_dict_def Let_def keys using assms(2) by (auto simp: list_ex_iff)
  have vars: "foldl item_set it0 (item_vars it) =
      it\<lparr>it_name := it_name it0, it_fname := it_fname it0, it_type := it_type it0, it_other := it_other it0\<rparr>" for it0
    by (simp add: item_vars_def known_sets)
  have "foldl item_set (it\<lparr>it_other := []\<rparr>) (it_other it) = it"
    using set_others [OF assms(1), of "it\<lparr>it_other := []\<rparr>"] assms(2) by simp
  then show ?thesis unfolding ok by (simp add: kdoc_item_init_def vars)
qed

theorem from_dict_roundtrip_witness:
  "from_dict ''f'' ''f.c'' ''function'' None (item_vars (sample_item\<lparr>it_other := [(''purpose'', V_str ''p'')]\<rparr>)) [(''purpose'', V_str ''p'')] =
   Inr (sample_item\<lparr>it_other := [(''purpose'', V_str ''p'')]\<rparr>)"
proof -
  let ?it = "sample_item\<lparr>it_other := [(''purpose'', V_str ''p'')]\<rparr>"
  have "dict_wf (it_other ?it)" "\<forall>k \<in> set (dict_keys (it_other ?it)). k \<notin> set known_keys \<and> k \<notin> set [''self'', ''name'', ''fname'', ''type'', ''start_line'']"
    by code_simp+
  from from_dict_roundtrip [OF this, of None] show ?thesis by (simp add: sample_item_def kdoc_item_init_def)
qed

end
