(* ===== verification/Kernel_Doc.thy ===== *)
theory Kernel_Doc
  imports Args_Props Commands Kdoc_Yaml Files_Props
begin

text \<open>
  The program \<^verbatim>\<open>kernel-doc\<close>: its command line, the choice of the output, the run over the files named
  and the exit status. The environment, the files, the clock, the version of Python and what the YAML
  library needs are a record.
\<close>

section \<open>The system\<close>

record 't system =
  sy_env :: "string \<Rightarrow> string option"
  sy_fs :: "string \<Rightarrow> node option"
  sy_contents :: "string \<Rightarrow> string list option"
  sy_python_ver :: "nat \<times> nat"
  sy_strptime :: "string \<Rightarrow> string \<Rightarrow> 't option"
  sy_strftime :: "string \<Rightarrow> 't \<Rightarrow> string"
  sy_now :: 't
  sy_yaml_available :: bool
  sy_expanduser :: "string \<Rightarrow> string"
  sy_isdir :: "string \<Rightarrow> bool"

section \<open>The date of a man page\<close>

definition date_formats :: "string list" where
  "date_formats = [''%a %b %d %H:%M:%S %Z %Y'', ''%a %b %d %H:%M:%S %Y'', ''%Y-%m-%d'', ''%b %d %Y'', ''%B %d %Y'', ''%m %d %Y'']"

text \<open>The time stamp of the build in the first format it has, else the current time.\<close>

definition man_date :: "'t system \<Rightarrow> string" where
  "man_date sys =
     (let dt = (case some_text (sy_env sys ''KBUILD_BUILD_TIMESTAMP'') of
          Some tstamp \<Rightarrow> first_some (sy_strptime sys tstamp) date_formats
        | None \<Rightarrow> None) in
      sy_strftime sys ''%B %Y'' (case dt of Some t \<Rightarrow> t | None \<Rightarrow> sy_now sys))"

section \<open>The command line\<close>

definition kdoc_parser :: arg_parser where
  "kdoc_parser = (parser_of
     [opt_true [''-v'', ''-verbose'', ''--verbose''],
      opt_true [''-d'', ''-debug'', ''--debug''],
      opt_store [''-M'', ''-modulename'', ''--modulename''],
      opt_true [''-l'', ''-enable-lineno'', ''--enable_lineno''],
      opt_true [''-Wreturn'', ''--wreturn''],
      opt_true [''-Wshort-desc'', ''-Wshort-description'', ''--wshort-desc''],
      opt_true [''-Wcontents-before-sections'', ''--wcontents-before-sections''],
      opt_true [''-Wall'', ''--wall''],
      opt_true [''-Werror'', ''--werror''],
      opt_append [''-export-file'', ''--export-file''],
      opt_true [''-m'', ''-man'', ''--man''],
      opt_true [''-r'', ''-rst'', ''--rst''],
      opt_true [''-N'', ''-none'', ''--none''],
      opt_store [''-y'', ''--yaml-file'', ''--yaml''],
      opt_true [''-k'', ''--kdoc-item'', ''--kdoc''],
      opt_true [''-e'', ''-export'', ''--export''],
      opt_true [''-i'', ''-internal'', ''--internal''],
      opt_append [''-s'', ''-function'', ''--symbol''],
      opt_append [''-n'', ''-nosymbol'', ''--nosymbol''],
      opt_true [''-D'', ''-no-doc-sections'', ''--no-doc-sections''],
      pos_action N_plus ''files''])
     \<lparr>p_exclusive := [[''export'', ''internal'', ''symbol'']]\<rparr>"

record kd_args =
  kd_verbose :: bool
  kd_modulename :: "string option"
  kd_lineno :: bool
  kd_wreturn :: bool
  kd_wshort_desc :: bool
  kd_werror :: bool
  kd_export_file :: "string list"
  kd_man :: bool
  kd_rst :: bool
  kd_none :: bool
  kd_yaml_file :: "string option"
  kd_kdoc_item :: bool
  kd_export :: bool
  kd_internal :: bool
  kd_symbol :: "string list"
  kd_nosymbol :: "string list"
  kd_no_doc :: bool
  kd_files :: "string list"

text \<open>The arguments the program reads; \<^verbatim>\<open>--wall\<close> sets the other warnings.\<close>

definition kd_args_of :: "namespace \<Rightarrow> kd_args res" where
  "kd_args_of ns =
     rbind (get_bool ns ''wall'') (\<lambda>wall.
     rbind (get_bool ns ''verbose'') (\<lambda>verbose.
     rbind (get_str ns ''modulename'') (\<lambda>modulename.
     rbind (get_bool ns ''enable_lineno'') (\<lambda>lineno.
     rbind (get_bool ns ''wreturn'') (\<lambda>wreturn.
     rbind (get_bool ns ''wshort_desc'') (\<lambda>wshort_desc.
     rbind (get_bool ns ''werror'') (\<lambda>werror.
     rbind (get_strs ns ''export_file'') (\<lambda>export_file.
     rbind (get_bool ns ''man'') (\<lambda>man.
     rbind (get_bool ns ''rst'') (\<lambda>rst.
     rbind (get_bool ns ''none'') (\<lambda>none.
     rbind (get_str ns ''yaml_file'') (\<lambda>yaml_file.
     rbind (get_bool ns ''kdoc_item'') (\<lambda>kdoc_item.
     rbind (get_bool ns ''export'') (\<lambda>export.
     rbind (get_bool ns ''internal'') (\<lambda>internal.
     rbind (get_strs ns ''symbol'') (\<lambda>symbol.
     rbind (get_strs ns ''nosymbol'') (\<lambda>nosymbol.
     rbind (get_bool ns ''no_doc_sections'') (\<lambda>no_doc.
     rbind (get_strs ns ''files'') (\<lambda>files.
     Inr \<lparr>kd_verbose = verbose, kd_modulename = modulename, kd_lineno = lineno, kd_wreturn = (wall \<or> wreturn),
       kd_wshort_desc = (wall \<or> wshort_desc), kd_werror = werror, kd_export_file = export_file, kd_man = man, kd_rst = rst,
       kd_none = none, kd_yaml_file = yaml_file, kd_kdoc_item = kdoc_item, kd_export = export, kd_internal = internal,
       kd_symbol = symbol, kd_nosymbol = nosymbol, kd_no_doc = no_doc, kd_files = files\<rparr>)))))))))))))))))))"

section \<open>The output\<close>

definition kd_request :: "kd_args \<Rightarrow> request" where
  "kd_request a = \<lparr>rq_lineno = kd_lineno a, rq_export = kd_export a, rq_internal = kd_internal a, rq_symbol = kd_symbol a,
     rq_nosymbol = kd_nosymbol a, rq_no_doc = kd_no_doc a\<rparr>"

definition yaml_content :: "kd_args \<Rightarrow> string list" where
  "yaml_content a =
     (let c = (if kd_man a then [''man''] else []) @ (if kd_rst a then [''rst''] else []) in
      if kd_kdoc_item a \<or> c = [] then c @ [''KdocItem''] else c)"

definition n_outputs :: "kd_args \<Rightarrow> nat" where
  "n_outputs a =
     (let n = (if kd_man a then 1 else 0) + (if kd_none a then 1 else 0) in
      if kd_rst a \<or> n = 0 then n + 1 else n)"

text \<open>Without an output only the warnings are wanted: the base class, whose methods print nothing.\<close>

definition base_symbols :: "string \<Rightarrow> kdoc_item list \<Rightarrow> fmt \<Rightarrow> (string \<times> fmt) res" where
  "base_symbols = output_symbols (msg base_methods)"

definition kd_init :: "'t system \<Rightarrow> kd_args \<Rightarrow> kfiles" where
  "kd_init sys a = kfiles_init (sy_env sys) (kd_verbose a) (kd_werror a) (kd_wreturn a) (kd_wshort_desc a)"

text \<open>The end of the program: what it prints after the texts, and its exit status.\<close>

definition WERROR_RETURN_CODE :: nat where
  "WERROR_RETURN_CODE = 3"

definition kd_finish :: "kd_args \<Rightarrow> kfiles \<Rightarrow> string list \<Rightarrow> string list \<times> nat" where
  "kd_finish a st printed =
     (if kf_errors st = 0 then (printed, 0)
      else if kd_werror a then (printed @ [str_nat (kf_errors st) @ '' warnings as errors''], WERROR_RETURN_CODE)
      else if kd_verbose a then (printed @ [str_nat (kf_errors st) @ '' errors''], 0)
      else (printed, 0))"

definition kd_run ::
    "(string \<Rightarrow> kdoc_item list \<Rightarrow> 'f fmt_scheme \<Rightarrow> (string \<times> 'f fmt_scheme) res) \<Rightarrow> 'f fmt_scheme \<Rightarrow> 't system \<Rightarrow> kd_args \<Rightarrow>
     (string list \<times> nat) res" where
  "kd_run out_symbols f sys a =
     rbind (kfiles_parse (sy_fs sys) (sy_contents sys) (kd_files a) (kd_export_file a) (kd_init sys a)) (\<lambda>st.
     rbind (kfiles_msg (sy_fs sys) out_symbols (kd_request a) [] (kd_export_file a) f st) (\<lambda>(texts, f1, st1).
     Inr (kd_finish a st1 (map snd texts))))"

text \<open>With a YAML file nothing is printed; writing the file is left to the library.\<close>

definition kd_run_yaml :: "string \<Rightarrow> 't system \<Rightarrow> kd_args \<Rightarrow> (string list \<times> nat) res" where
  "kd_run_yaml yaml_file sys a =
     rbind (test_file_init (sy_yaml_available sys) (sy_expanduser sys) (sy_isdir sys) (man_date sys) yaml_file (yaml_content a)) (\<lambda>tf.
     rbind (kfiles_parse (sy_fs sys) (sy_contents sys) (kd_files a) (kd_export_file a) ((kd_init sys a)\<lparr>kf_store_src := True\<rparr>)) (\<lambda>st.
     rbind (kfiles_msg_yaml (sy_fs sys) (kd_request a) [] (kd_export_file a) tf st) (\<lambda>(tf1, st1).
     Inr (kd_finish a st1 []))))"

definition python_before :: "'t system \<Rightarrow> nat \<Rightarrow> nat \<Rightarrow> bool" where
  "python_before sys major minor \<longleftrightarrow>
     fst (sy_python_ver sys) < major \<or> (fst (sy_python_ver sys) = major \<and> snd (sy_python_ver sys) < minor)"

definition kernel_doc_main :: "'t system \<Rightarrow> kd_args \<Rightarrow> (string list \<times> nat) run" where
  "kernel_doc_main sys a =
     (if python_before sys 3 6 then Runs (Inr ([], if kd_none a then 0 else 1))
      else (case some_text (kd_yaml_file a) of
          Some yaml_file \<Rightarrow> Runs (kd_run_yaml yaml_file sys a)
        | None \<Rightarrow>
            if 1 < n_outputs a then Exits (Script_error ''Those arguments are muttually exclusive: --man, --rst, --none, except when generating a YAML file.'')
            else Runs (if kd_man a then kd_run man_symbols (man_init (kd_modulename a) ''9'' ''Kernel API Manual'' (man_date sys)) sys a
              else if kd_none a then kd_run base_symbols fmt_init sys a
              else kd_run rest_symbols rest_init sys a)))"

definition kernel_doc :: "'t system \<Rightarrow> string list \<Rightarrow> (string list \<times> nat) run" where
  "kernel_doc sys argv = (case parse_args kdoc_parser [] argv of
      Inl e \<Rightarrow> Exits e
    | Inr ns \<Rightarrow> (case kd_args_of ns of Inl e \<Rightarrow> Runs (Inl e) | Inr a \<Rightarrow> kernel_doc_main sys a))"

end
