(* ===== verification/Commands_Props.thy ===== *)
theory Commands_Props
  imports Args_Props Commands
begin

text \<open>
  Properties of the scripts as programs: from the strings of the command line to the exceptions a
  script can end with. That a script reads only arguments it has declared follows from the interface
  \<open>arg_invariant\<close> of the parser.
\<close>

section \<open>Arguments that are declared\<close>

lemma parse_args_has:
  assumes "parse_args p subs argv = Inr ns" and "d \<in> dests p"
  shows "dict_has ns d"
proof -
  obtain ex where "parse_known_args p (sub_parser subs) argv = Inr (ns, ex)"
    using assms(1) by (auto simp: parse_args_def pbind_Inr_iff split: if_splits)
  from parse_has [OF this, of d] show ?thesis using assms(2) by (simp add: dests_def)
qed

lemma get_total:
  assumes "dict_has ns d"
  shows "\<exists>v. ns_get ns d = Inr v" "\<exists>v. get_bool ns d = Inr v" "\<exists>v. get_int ns d = Inr v" "\<exists>v. get_str ns d = Inr v"
    "\<exists>v. get_strs ns d = Inr v"
  using assms by (auto simp: dict_has_def ns_get_def get_bool_def get_int_def get_str_def get_strs_def)

lemma rbind_total: "\<exists>v. x = Inr v \<Longrightarrow> (\<And>v. \<exists>w. f v = Inr w) \<Longrightarrow> \<exists>w. rbind x f = Inr w"
  by auto

text \<open>The exceptions a run of a script can end with.\<close>

definition run_errs :: "'a run \<Rightarrow> py_err set" where
  "run_errs r = {e. r = Runs (Inl e)}"

definition res_errs :: "'a res \<Rightarrow> py_err set" where
  "res_errs x = {e. x = Inl e}"

lemma res_errs_simps [simp]: "res_errs (Inr v) = {}" "res_errs (Inl e) = {e}"
  by (auto simp: res_errs_def)

lemma res_errs_rbind: "res_errs x \<subseteq> E \<Longrightarrow> (\<And>v. x = Inr v \<Longrightarrow> res_errs (f v) \<subseteq> E) \<Longrightarrow> res_errs (rbind x f) \<subseteq> E"
  by (cases x) auto

lemma run_errs_with_args: "(\<And>ns. x = Inr ns \<Longrightarrow> res_errs (f ns) \<subseteq> E) \<Longrightarrow> run_errs (with_args x f) \<subseteq> E"
  by (cases x) (auto simp: run_errs_def with_args_def res_errs_def)

lemma get_errs:
  assumes "dict_has ns d"
  shows "res_errs (get_bool ns d) = {}" "res_errs (get_int ns d) = {}" "res_errs (get_str ns d) = {}" "res_errs (get_strs ns d) = {}"
    "res_errs (ns_get ns d) = {}"
  using assms by (auto simp: dict_has_def ns_get_def get_bool_def get_int_def get_str_def get_strs_def)

section \<open>Scripts with sub-commands\<close>

definition feat_subs :: "(string \<times> arg_parser) list" where
  "feat_subs = [(''current'', current_args), (''rest'', rest_args), (''list'', list_args), (''validate'', validate_args)]"

lemma feat_func_parsers: "func_parsers feat_subs"
proof -
  have d: "p_defaults (with_func f p) = [(''func'', Av_func f)]" for f p by (simp add: with_func_def)
  have "''func'' \<notin> dests current_args" "''func'' \<notin> dests rest_args" "''func'' \<notin> dests list_args" "''func'' \<notin> dests validate_args"
    by code_simp+
  then show ?thesis by (simp add: func_parsers_def feat_subs_def current_args_def rest_args_def list_args_def validate_args_def d)
qed

lemma func_cases:
  assumes "func_ok subs ns" and "dict_get ns ''func'' = Some v"
  obtains name q where "(name, q) \<in> set subs" and "p_defaults q = [(''func'', v)]" and "\<And>d. d \<in> dests q \<Longrightarrow> dict_has ns d"
  using assms by (auto simp: func_ok_def)

lemma feat_args_total:
  assumes "func_ok feat_subs ns" and top: "\<And>d. d \<in> {''directory'', ''debug'', ''enable_fname''} \<Longrightarrow> dict_has ns d" and "feat_func ns \<noteq> None"
  shows "\<exists>a. feat_args_of ns = Inr a"
proof -
  obtain v where v: "dict_get ns ''func'' = Some v" using assms(3) by (auto simp: feat_func_def split: option.splits)
  from func_cases [OF assms(1) v] obtain name q where q: "(name, q) \<in> set feat_subs" "p_defaults q = [(''func'', v)]"
    "\<And>d. d \<in> dests q \<Longrightarrow> dict_has ns d" by blast
  have sub: "''feat'' \<in> dests current_args" "''feat'' \<in> dests rest_args" "''arch'' \<in> dests rest_args" "''feat'' \<in> dests list_args"
    "''arch'' \<in> dests list_args" by code_simp+
  have "\<exists>x. (if feat_func ns \<in> {Some F_rest, Some F_list} then get_str ns ''arch'' else Inr None) = Inr x"
    "\<exists>x. (if feat_func ns = Some F_validate then Inr None else get_str ns ''feat'') = Inr x"
    using q sub get_total(4) [of ns]
    by (auto simp: feat_subs_def feat_func_def v current_args_def rest_args_def list_args_def validate_args_def with_func_def)
  then show ?thesis unfolding feat_args_of_def
    by (intro rbind_total) (auto intro!: get_total top)
qed

lemma feat_errs: "run_errs (get_feat_main api uname argv) \<subseteq> {SystemExit, CalledProcessError}"
  unfolding get_feat_main_def
proof (rule run_errs_with_args)
  fix ns
  assume p: "feat_parse_args argv = Inr ns"
  have "{''directory'', ''debug'', ''enable_fname''} \<subseteq> dests feat_parser" by code_simp
  then have has: "dict_has ns d" if "d \<in> {''directory'', ''debug'', ''enable_fname''}" for d
    using parse_args_has p that by (auto simp: feat_parse_args_def)
  have ok: "func_ok feat_subs ns"
  proof (rule parse_func)
    show "parse_args feat_parser feat_subs argv = Inr ns" using p by (simp add: feat_parse_args_def feat_subs_def)
    show "''func'' \<notin> dests feat_parser" by code_simp
  qed (simp_all add: feat_func_parsers feat_parser_def parser_of_def)
  have "res_errs (get_feat api uname a) \<subseteq> {SystemExit, CalledProcessError}" for a
    by (auto simp: get_feat_def run_current_def run_list_def get_current_arch_def Let_def split: option.split feat_command.split)
  then show "res_errs (if feat_func ns = None then Inl SystemExit else rbind (feat_args_of ns) (get_feat api uname)) \<subseteq> {SystemExit, CalledProcessError}"
    using feat_args_total [OF ok has] by (cases "feat_func ns = None") (simp, force)
qed

definition abi_subs :: "(string \<times> arg_parser) list" where
  "abi_subs = [(''rest'', abi_rest_args), (''validate'', abi_validate_args), (''search'', abi_search_args), (''undefined'', abi_undefined_args)]"

lemma abi_func_parsers: "func_parsers abi_subs"
proof -
  have d: "p_defaults (with_func f p) = [(''func'', Av_func f)]" for f p by (simp add: with_func_def)
  have "''func'' \<notin> dests abi_rest_args" "''func'' \<notin> dests abi_validate_args" "''func'' \<notin> dests abi_search_args" "''func'' \<notin> dests abi_undefined_args"
    by code_simp+
  then show ?thesis
    by (simp add: func_parsers_def abi_subs_def abi_rest_args_def abi_validate_args_def abi_search_args_def abi_undefined_args_def d)
qed

lemma abi_dests:
  "{''enable_lineno'', ''raw'', ''no_file''} \<subseteq> dests abi_rest_args" "''expression'' \<in> dests abi_search_args"
  "{''search_string'', ''show_hints'', ''sysfs_dir'', ''dry_run'', ''found'', ''jobs'', ''max_chunk_size''} \<subseteq> dests abi_undefined_args"
  by code_simp+

lemma abi_command_total:
  assumes "func_ok abi_subs ns"
  shows "\<exists>c. abi_command_of ns = Inr c"
proof (cases "dict_get ns ''func''")
  case (Some v)
  from func_cases [OF assms Some] obtain name q where q: "(name, q) \<in> set abi_subs" "p_defaults q = [(''func'', v)]"
    "\<And>d. d \<in> dests q \<Longrightarrow> dict_has ns d" by blast
  have r: "\<exists>c. abi_rest_of ns = Inr c" if "q = abi_rest_args"
    using q(3) abi_dests(1) that unfolding abi_rest_of_def by (intro rbind_total get_total) auto
  have s: "\<exists>e. get_str ns ''expression'' = Inr e" if "q = abi_search_args"
    using q(3) abi_dests(2) that by (intro get_total) simp
  have u: "\<exists>c. abi_undefined_of ns = Inr c" if "q = abi_undefined_args"
    using q(3) abi_dests(3) that unfolding abi_undefined_of_def by (intro rbind_total get_total) auto
  show ?thesis using q(1,2) r s u
    by (auto simp: abi_subs_def abi_command_of_def Some abi_rest_args_def abi_validate_args_def abi_search_args_def abi_undefined_args_def
        with_func_def)
qed (simp add: abi_command_of_def)

lemma abi_errs: "run_errs (get_abi_main api abi_dir argv) \<subseteq> {SystemExit}"
  unfolding get_abi_main_def
proof (rule run_errs_with_args)
  fix ns
  assume p: "abi_parse_args abi_dir argv = Inr ns"
  have "dests (abi_parser abi_dir) = {''debug'', ''dir''}"
    by (auto simp: dests_def abi_parser_def parser_of_def opt_help_def sub_commands_def pos_action_def opt_store_def opt_action_def stores_def
        dest_of_def startswith_def lstrip_by_def)
  then have has: "dict_has ns ''dir''" "dict_has ns ''debug''" and func: "''func'' \<notin> dests (abi_parser abi_dir)"
    using parse_args_has p by (auto simp: abi_parse_args_def)
  have ok: "func_ok abi_subs ns"
  proof (rule parse_func)
    show "parse_args (abi_parser abi_dir) abi_subs argv = Inr ns" using p by (simp add: abi_parse_args_def abi_subs_def)
  qed (simp_all add: abi_func_parsers abi_parser_def parser_of_def func [unfolded abi_parser_def parser_of_def])
  have "res_errs (get_abi api dir debug c) \<subseteq> {SystemExit}" for dir debug c
    by (auto simp: get_abi_def split: option.split abi_command.split)
  then show "res_errs (rbind (get_str ns ''dir'') (\<lambda>dir. rbind (get_int ns ''debug'') (\<lambda>debug.
      rbind (abi_command_of ns) (\<lambda>command. get_abi api (arg_text dir) debug command)))) \<subseteq> {SystemExit}"
    using abi_command_total [OF ok] by (intro res_errs_rbind) (auto simp: get_errs has)
qed

section \<open>The other scripts\<close>

lemma build_dests:
  "{''make_args'', ''full'', ''versions'', ''min_version'', ''max_version'', ''build'', ''targets'', ''output'', ''req_file'', ''log'', ''verbose'',
    ''wait_input''} \<subseteq> dests build_parser"
  by code_simp

lemma build_errs: "run_errs (test_doc_build_main w argv) \<subseteq> {}"
  unfolding test_doc_build_main_def
proof (rule run_errs_with_args)
  fix ns
  assume "parse_args build_parser [] argv = Inr ns"
  then have "dict_has ns d" if "d \<in> dests build_parser" for d using parse_args_has that by blast
  then have "\<exists>a. build_args_of ns = Inr a"
    using build_dests unfolding build_args_of_def by (intro rbind_total get_total) auto
  then show "res_errs (rbind (build_args_of ns) (\<lambda>a. Inr (test_doc_build w a))) \<subseteq> {}" by auto
qed

lemma single_dest:
  assumes "parse_args p [] argv = Inr ns" and "d \<in> dests p"
  shows "\<exists>v. get_str ns d = Inr v"
  using get_total(4) [OF parse_args_has [OF assms]] .

lemma fonts_errs: "run_errs (check_variable_fonts_main fc_list environ expanduser argv) \<subseteq> {OSError, SystemExit}"
  unfolding check_variable_fonts_main_def
proof (rule run_errs_with_args)
  fix ns
  assume p: "parse_args fonts_parser [] argv = Inr ns"
  have "''deny_vf'' \<in> dests fonts_parser" by code_simp
  from single_dest [OF p this] obtain v where "get_str ns ''deny_vf'' = Inr v" ..
  moreover have "res_errs (check_variable_fonts fc_list environ expanduser v) \<subseteq> {OSError, SystemExit}"
    by (auto simp: check_variable_fonts_def font_check_def get_noto_cjk_vf_fonts_def Let_def split: fc_result.split)
  ultimately show "res_errs (rbind (get_str ns ''deny_vf'') (check_variable_fonts fc_list environ expanduser)) \<subseteq> {OSError, SystemExit}"
    by simp
qed

lemma res_errs_fold: "(\<And>s x. res_errs (f s x) \<subseteq> E) \<Longrightarrow> res_errs (fold_res f s xs) \<subseteq> E"
proof (induction xs arbitrary: s)
  case (Cons x xs)
  show ?case unfolding fold_res.simps by (rule res_errs_rbind [OF Cons.prems Cons.IH [OF Cons.prems]])
qed simp

lemma relpath_errs: "res_errs (relpath cwd path start) \<subseteq> {ValueError}"
  by (simp add: relpath_def Let_def)

lemma redirects_errs: "run_errs (gen_redirects_main cwd existing lines argv) \<subseteq> {TypeError, ValueError}"
  unfolding gen_redirects_main_def
proof (rule run_errs_with_args)
  fix ns
  assume p: "parse_args redirects_parser [] argv = Inr ns"
  have "''output'' \<in> dests redirects_parser" by code_simp
  from single_dest [OF p this] obtain v where v: "get_str ns ''output'' = Inr v" ..
  have parts: "res_errs (redirect_parts l) \<subseteq> {ValueError}" for l by (simp add: redirect_parts_def split: list.split)
  have "res_errs (redirect_line cwd dir st l) \<subseteq> {TypeError, ValueError}" for dir st l
    unfolding redirect_line_def using parts [of l] relpath_errs [of cwd]
    by (cases st) (force simp: Let_def res_errs_def rbind_Inl_iff split: prod.splits if_splits)
  then have "res_errs (gen_redirects cwd dir existing lines) \<subseteq> {TypeError, ValueError}" for dir
    unfolding gen_redirects_def by (rule res_errs_fold)
  moreover have "res_errs (case lines of [] \<Rightarrow> Inr (existing, []) | l # _ \<Rightarrow> rbind (redirect_parts l) (\<lambda>_. Inl TypeError)) \<subseteq> {TypeError, ValueError}"
    using parts by (cases lines) (auto simp: res_errs_def dest!: rbind_Inl_iff [THEN iffD1])
  ultimately show "res_errs (rbind (get_str ns ''output'') (\<lambda>output. case output of
      None \<Rightarrow> (case lines of [] \<Rightarrow> Inr (existing, []) | l # x \<Rightarrow> rbind (redirect_parts l) (\<lambda>_. Inl TypeError))
    | Some dir \<Rightarrow> gen_redirects cwd dir existing lines)) \<subseteq> {TypeError, ValueError}"
    by (cases v) (simp_all add: v)
qed

lemma renames_errs: "run_errs (gen_renames_main git argv) \<subseteq> {CalledProcessError, ValueError, AssertionError}"
  unfolding gen_renames_main_def
proof (rule run_errs_with_args)
  fix ns
  let ?E = "{CalledProcessError, ValueError, AssertionError}"
  assume p: "parse_args renames_parser [] argv = Inr ns"
  have "''rev'' \<in> dests renames_parser" by code_simp
  from single_dest [OF p this] obtain v where v: "get_str ns ''rev'' = Inr v" ..
  have norm: "res_errs (normalize x) \<subseteq> ?E" for x by (simp add: normalize_def)
  have "res_errs (read_log_line l) \<subseteq> ?E" for l
    using norm unfolding read_log_line_def by (auto simp: res_errs_def rbind_Inl_iff split: if_splits list.splits)
  then have "res_errs (rename_log_line hs l) \<subseteq> ?E" for hs l
    unfolding rename_log_line_def by (intro res_errs_rbind) auto
  then have log: "res_errs (fold_res rename_log_line [] ls) \<subseteq> ?E" for ls by (rule res_errs_fold)
  have "res_errs (current_step cur l) \<subseteq> ?E" for cur l
    using norm unfolding current_step_def by (auto simp: res_errs_def rbind_Inl_iff split: if_splits)
  then have tree: "res_errs (fold_res current_step [] ls) \<subseteq> ?E" for ls by (rule res_errs_fold)
  have "res_errs (gen_renames l t) \<subseteq> ?E" for l t
    unfolding gen_renames_def by (intro res_errs_rbind log tree) simp
  moreover have "res_errs (check_output git c) \<subseteq> ?E" for c by (simp add: check_output_def split: option.split)
  ultimately show "res_errs (rbind (get_str ns ''rev'') (\<lambda>rv. rbind (check_output git (fst (renames_commands (arg_text rv)))) (\<lambda>log.
      rbind (check_output git (snd (renames_commands (arg_text rv)))) (\<lambda>tree. rbind (gen_renames log tree) (\<lambda>rs. Inr (map rename_line rs)))))) \<subseteq> ?E"
    by (intro res_errs_rbind) (simp_all add: v)
qed


section \<open>The translation check from its command line\<close>

definition same_message :: "string \<Rightarrow> string \<Rightarrow> bool" where
  "same_message x y \<longleftrightarrow> (\<exists>t u m. x = dmesg_format t m \<and> y = dmesg_format u m)"

lemma config_logging_same:
  "lo_file_name (config_logging clock level name msgs) = name"
  "list_all2 same_message (lo_console (config_logging clock level name msgs)) (lo_file (config_logging clock level name msgs))"
  by (auto simp: config_logging_def Let_def list_all2_conv_all_nth same_message_def case_prod_unfold)

text \<open>
  C27. The whole translation check ends for every command line, if in the history of every file the
  parent of a commit has fewer ancestors: \<open>depth\<close> bounds how many commits of a file come before one.
  Whatever log file is asked for, the messages go to \<^verbatim>\<open>checktransupdate.log\<close>, and the lines of that file
  differ from those of the console at most in their time stamps.
\<close>

theorem checktransupdate_ends:
  assumes "\<And>path h c. get_latest_commit_from git path (h @ ''^'') = Inr (Some c) \<Longrightarrow> depth path (c_hash c) < (depth path h :: nat)"
  shows "\<exists>r. checktransupdate git fs isfile cwd linux_path clock argv = Some r \<and>
    (\<forall>lo. r = Runs (Inr lo) \<longrightarrow> lo_file_name lo = ''checktransupdate.log'' \<and> list_all2 same_message (lo_console lo) (lo_file lo))"
proof (cases "parse_args (trans_parser fs linux_path) [] argv")
  case (Inr ns)
  let ?r = "rbind (get_str ns ''log'') (\<lambda>level. rbind (get_str ns ''locale'') (\<lambda>loc.
    rbind (get_bool ns ''print_missing_translations'') (\<lambda>print_missing. rbind (get_strs ns ''files'') (\<lambda>files.
    Inr (arg_text level, arg_text loc, print_missing, files)))))"
  show ?thesis
  proof (cases ?r)
    case args: (Inr x)
    obtain level loc print_missing files where x: "x = (level, loc, print_missing, files)" by (cases x)
    obtain r where "trans_main git fs isfile cwd linux_path loc print_missing files = Some r"
      using trans_main_ends assms by blast
    then show ?thesis using Inr args x by (cases r) (auto simp: checktransupdate_def config_logging_same)
  qed (simp add: checktransupdate_def Inr)
qed (simp add: checktransupdate_def)

theorem checktransupdate_ends_witness:
  "\<exists>r. checktransupdate sample_git (\<lambda>p. Some (N_dir [])) (\<lambda>p. True) [''l''] ''/l'' (\<lambda>n. 0) [''--logfile'', ''other.log'', ''f''] = Some r"
  using checktransupdate_ends [where depth = "\<lambda>path h. if h = ''bb'' then 1 else 0" and git = sample_git and
      fs = "\<lambda>p. Some (N_dir [])" and isfile = "\<lambda>p. True" and cwd = "[''l'']" and linux_path = "''/l''" and clock = "\<lambda>n. 0" and
      argv = "[''--logfile'', ''other.log'', ''f'']"] sample_depth by blast

end
