(* ===== verification/Args_Reading.thy ===== *)
theory Args_Reading
  imports Args_Props
begin

text \<open>
  The meaning of a command line that is written out: options by their names with plain values, then
  plain positional arguments. The loop of the parser reads each option where it stands, and the
  namespace has, for every declared option, the value its uses give it, independent of the others.
\<close>

section \<open>Lines written out\<close>

text \<open>An option by its name, with its values.\<close>

type_synonym opt_use = "string \<times> string list"

definition plain_value :: "string \<Rightarrow> bool" where
  "plain_value s \<longleftrightarrow> s = [] \<or> hd s \<noteq> CHR ''-''"

definition good_use :: "arg_parser \<Rightarrow> opt_use \<Rightarrow> bool" where
  "good_use p u \<longleftrightarrow> fst u \<noteq> [] \<and> hd (fst u) = CHR ''-'' \<and> fst u \<noteq> ''--'' \<and> list_all plain_value (snd u) \<and>
     (case find_option p (fst u) of
        None \<Rightarrow> False
      | Some a \<Rightarrow> (a_nargs a = N_zero \<and> snd u = []) \<or> (a_nargs a = N_one \<and> length (snd u) = 1))"

definition command_line :: "opt_use list \<Rightarrow> string list \<Rightarrow> string list" where
  "command_line us files = concat (map (\<lambda>u. fst u # snd u) us) @ files"

definition line_classes :: "arg_parser \<Rightarrow> opt_use list \<Rightarrow> string list \<Rightarrow> (arg_class \<times> string) list" where
  "line_classes p us files =
     concat (map (\<lambda>u. (C_opt (find_option p (fst u), fst u, None), fst u) # map (Pair C_arg) (snd u)) us) @ map (Pair C_arg) files"

definition use_of :: "arg_parser \<Rightarrow> opt_use \<Rightarrow> arg_action \<times> string list \<times> string" where
  "use_of p u = (the (find_option p (fst u)), snd u, fst u)"

lemma classify_plain:
  "list_all plain_value ss \<Longrightarrow> classify p rest = Inr cs \<Longrightarrow> classify p (ss @ rest) = Inr (map (Pair C_arg) ss @ cs)"
proof (induction ss)
  case (Cons s ss)
  then have "parse_optional p s = Inr None" "s \<noteq> ''--''" by (auto simp: plain_value_def parse_optional_def)
  then show ?case using Cons by simp
qed simp

lemma classify_line:
  "list_all (good_use p) us \<Longrightarrow> list_all plain_value files \<Longrightarrow> classify p (command_line us files) = Inr (line_classes p us files)"
proof (induction us)
  case Nil
  then show ?case using classify_plain [of files p "[]" "[]"] by (simp add: command_line_def line_classes_def)
next
  case (Cons u us)
  then have u: "good_use p u" and IH: "classify p (command_line us files) = Inr (line_classes p us files)" by simp_all
  obtain a where a: "find_option p (fst u) = Some a" using u by (auto simp: good_use_def split: option.splits)
  then have "parse_optional p (fst u) = Inr (Some (Some a, fst u, None))" "fst u \<noteq> ''--''"
    using u by (auto simp: good_use_def parse_optional_def)
  moreover have "classify p (snd u @ command_line us files) = Inr (map (Pair C_arg) (snd u) @ line_classes p us files)"
    by (rule classify_plain [OF _ IH]) (use u in \<open>simp add: good_use_def\<close>)
  ultimately show ?case by (simp add: command_line_def line_classes_def a)
qed

lemma args_no_options: "no_options (map (Pair C_arg) ss)"
  by (simp add: no_options_def list_all_iff)

lemma good_use_plain:
  assumes "good_use p u" and "find_option p (fst u) = Some a"
  shows "plain_use a (fst u) (map (Pair C_arg) (snd u) @ rest) = Inr ([use_of p u], [], length (snd u))"
proof -
  have "match_argument (a_nargs a) (map (Pair C_arg) (snd u) @ rest) = Some (length (snd u))"
    using assms by (cases "snd u") (auto simp: good_use_def match_argument_def Let_def)
  then show ?thesis by (simp add: plain_use_def use_of_def assms(2) o_def)
qed

lemma pbind_assoc: "pbind (pbind x f) g = pbind x (\<lambda>v. pbind (f v) g)"
  by (cases x) simp_all

lemma loop_line:
  "list_all (good_use p) us \<Longrightarrow>
   arg_loop p sub (line_classes p us files) st =
   pbind (fold_parsed (take_action p sub) st (map (use_of p) us)) (\<lambda>st1. Inr (map (Pair C_arg) files, st1))"
proof (induction us arbitrary: st)
  case Nil
  then show ?case by (simp add: line_classes_def loop_done args_no_options)
next
  case (Cons u us)
  then have u: "good_use p u" and us: "list_all (good_use p) us" by simp_all
  obtain a where a: "find_option p (fst u) = Some a" using u by (auto simp: good_use_def split: option.splits)
  have "line_classes p (u # us) files = (C_opt (Some a, fst u, None), fst u) # map (Pair C_arg) (snd u) @ line_classes p us files"
    by (simp add: line_classes_def a)
  moreover have "consume_optional p sub (Some a, fst u, None) (fst u) (map (Pair C_arg) (snd u) @ line_classes p us files) st =
      pbind (take_action p sub st (use_of p u)) (\<lambda>st1. Inr (length (snd u), st1))"
    by (simp add: consume_optional_def good_use_plain [OF u a] pbind_assoc)
  ultimately show ?case using Cons.IH [OF us] by (simp add: loop_option pbind_assoc)
qed

section \<open>Simple parsers\<close>

text \<open>
  Flags, options with one text and options that collect texts, and at the end one or more
  positional arguments; every destination is declared once.
\<close>

definition simple_action :: "arg_action \<Rightarrow> bool" where
  "simple_action a \<longleftrightarrow> a_type a = type_str \<and> a_choices a = None \<and> \<not> a_required a \<and> a_opts a \<noteq> [] \<and>
     (a_kind a = K_store_true \<and> a_nargs a = N_zero \<and> a_default a = Av_bool False \<or>
      a_kind a \<in> {K_store, K_append} \<and> a_nargs a = N_one \<and> a_default a = Av_none)"

definition simple_parser :: "arg_parser \<Rightarrow> arg_action list \<Rightarrow> string \<Rightarrow> bool" where
  "simple_parser p opts d \<longleftrightarrow> p_actions p = opt_help # opts @ [pos_action N_plus d] \<and> p_defaults p = [] \<and> list_all simple_action opts \<and>
     distinct (map a_dest opts) \<and> d \<notin> a_dest ` set opts \<and> (\<forall>g \<in> set (p_exclusive p). d \<notin> set g)"

text \<open>What the uses of an action make of its value.\<close>

definition uses_of :: "arg_parser \<Rightarrow> arg_action \<Rightarrow> opt_use list \<Rightarrow> opt_use list" where
  "uses_of p a us = filter (\<lambda>u. find_option p (fst u) = Some a) us"

definition reading :: "arg_parser \<Rightarrow> arg_action \<Rightarrow> opt_use list \<Rightarrow> arg_value" where
  "reading p a us =
     (let mine = uses_of p a us in
      if mine = [] then a_default a
      else (case a_kind a of
          K_store_true \<Rightarrow> Av_bool True
        | K_append \<Rightarrow> Av_list (map (\<lambda>u. Av_str (hd (snd u))) mine)
        | _ \<Rightarrow> Av_str (hd (snd (last mine)))))"

text \<open>No use excludes another, and none asks for help.\<close>

definition compatible :: "arg_parser \<Rightarrow> opt_use list \<Rightarrow> bool" where
  "compatible p us \<longleftrightarrow> (\<forall>u \<in> set us. \<forall>v \<in> set us. a_dest (the (find_option p (fst v))) \<notin> set (conflicts p (the (find_option p (fst u))))) \<and>
     (\<forall>u \<in> set us. a_kind (the (find_option p (fst u))) \<noteq> K_help)"

lemma compatible_snoc: "compatible p (us @ [u]) \<Longrightarrow> compatible p us"
  by (auto simp: compatible_def)

lemma set_missing_get: "dict_get (foldl set_missing m xs) d = (case dict_get m d of Some v \<Rightarrow> Some v | None \<Rightarrow> map_of xs d)"
proof (induction xs arbitrary: m)
  case (Cons x xs)
  show ?case unfolding foldl_Cons Cons.IH
    by (cases "dict_get m (fst x)") (auto simp: set_missing_def dict_has_def dict_set_get split: option.split)
qed (simp split: option.split)

lemma found_option:
  assumes "simple_parser p opts d" and "find_option p s = Some a" and "a \<noteq> opt_help"
  shows "a \<in> set opts"
proof -
  have "(s, a) \<in> set (option_strings p)" using assms(2) by (simp add: find_option_def map_of_SomeD)
  then have "a \<in> set (p_actions p)" "a_opts a \<noteq> []" by (auto simp: option_strings_def)
  then show ?thesis using assms(1,3) by (auto simp: simple_parser_def pos_action_def)
qed

lemma initial_simple:
  assumes "simple_parser p opts d" and "a \<in> set opts"
  shows "dict_get (initial_namespace p) (a_dest a) = Some (a_default a)"
proof -
  have st: "stores a'" if "a' \<in> set opts" for a' using assms(1) that by (auto simp: simple_parser_def list_all_iff simple_action_def stores_def)
  then have "filter stores (p_actions p) = opts @ [pos_action N_plus d]"
    using assms(1) by (simp add: simple_parser_def stores_def opt_help_def opt_action_def pos_action_def)
  moreover have "map_of (map (\<lambda>a. (a_dest a, a_default a)) opts) (a_dest a) = Some (a_default a)"
    using assms by (intro map_of_is_SomeI) (auto simp: simple_parser_def o_def)
  moreover have "dict_get [] (a_dest a) = (None :: arg_value option)" by (simp add: dict_get_def)
  moreover have "p_defaults p = []" using assms(1) by (simp add: simple_parser_def)
  ultimately show ?thesis unfolding initial_namespace_def set_missing_get by (simp add: map_add_Some_iff)
qed

lemma simple_values:
  assumes "simple_action a" and "(a_nargs a = N_zero \<and> vs = []) \<or> (a_nargs a = N_one \<and> length vs = 1)"
  shows "get_values a vs = Inr (if a_nargs a = N_zero then Av_list [] else Av_str (hd vs))"
  using assms by (cases vs) (auto simp: simple_action_def get_values_def get_value_def check_value_def type_str_def)

lemma reading_snoc_other: "find_option p (fst u) \<noteq> Some a \<Longrightarrow> reading p a (us @ [u]) = reading p a us"
  by (simp add: reading_def uses_of_def)

text \<open>One more use of an action, after its value so far.\<close>

lemma run_simple:
  assumes "simple_action b" and "good_use p u" and "find_option p (fst u) = Some b" and "dict_get (s_ns st) (a_dest b) = Some (reading p b us)"
  shows "run_action sub b (fst u) (if a_nargs b = N_zero then Av_list [] else Av_str (hd (snd u))) st =
    Inr (store_into st (a_dest b) (reading p b (us @ [u])))"
proof -
  have snoc: "uses_of p b (us @ [u]) = uses_of p b us @ [u]" using assms(3) by (simp add: uses_of_def)
  show ?thesis using assms(1,4) unfolding simple_action_def
    by (auto simp: run_action_def reading_def Let_def snoc split: arg_value.splits)
qed

lemma uses_meaning:
  assumes "simple_parser p opts d"
  shows "list_all (good_use p) us \<Longrightarrow> compatible p us \<Longrightarrow>
    \<exists>st. fold_parsed (take_action p sub) (first_state p) (map (use_of p) us) = Inr st \<and> s_extras st = [] \<and>
      s_positionals st = [pos_action N_plus d] \<and> set (s_seen st) = (\<lambda>u. a_dest (the (find_option p (fst u)))) ` set us \<and>
      (\<forall>a \<in> set opts. dict_get (s_ns st) (a_dest a) = Some (reading p a us))"
proof (induction us rule: rev_induct)
  case Nil
  have "filter (\<lambda>a. a_opts a = []) opts = []" using assms by (auto simp: simple_parser_def list_all_iff simple_action_def filter_empty_conv)
  then have "s_positionals (first_state p) = [pos_action N_plus d]"
    using assms by (simp add: first_state_def simple_parser_def opt_help_def opt_action_def pos_action_def)
  then show ?case using initial_simple [OF assms] by (simp add: first_state_def reading_def uses_of_def)
next
  case (snoc u us)
  obtain st where st: "fold_parsed (take_action p sub) (first_state p) (map (use_of p) us) = Inr st" "s_extras st = []"
    "s_positionals st = [pos_action N_plus d]" "set (s_seen st) = (\<lambda>u. a_dest (the (find_option p (fst u)))) ` set us"
    "\<forall>a \<in> set opts. dict_get (s_ns st) (a_dest a) = Some (reading p a us)"
    using snoc compatible_snoc by (auto simp: list_all_append)
  have u: "good_use p u" using snoc.prems(1) by simp
  obtain b where b: "find_option p (fst u) = Some b" and vs: "(a_nargs b = N_zero \<and> snd u = []) \<or> (a_nargs b = N_one \<and> length (snd u) = 1)"
    using u by (auto simp: good_use_def split: option.splits)
  have "b \<noteq> opt_help" using snoc.prems(2) b by (auto simp: compatible_def opt_help_def opt_action_def)
  from found_option [OF assms b this] have opt: "b \<in> set opts" and simple: "simple_action b"
    using assms by (auto simp: simple_parser_def list_all_iff)
  have free: "\<forall>d \<in> set (conflicts p b). d \<notin> set (s_seen st)"
    using snoc.prems(2) b st(4) by (fastforce simp: compatible_def)
  let ?st = "st\<lparr>s_seen := List.insert (a_dest b) (s_seen st)\<rparr>"
  let ?st' = "store_into ?st (a_dest b) (reading p b (us @ [u]))"
  have "run_action sub b (fst u) (if a_nargs b = N_zero then Av_list [] else Av_str (hd (snd u))) ?st = Inr ?st'"
    by (rule run_simple [OF simple u b]) (use st(5) opt in simp_all)
  then have "take_action p sub st (use_of p u) = Inr ?st'"
    unfolding use_of_def b option.sel take_action_Inr_iff using simple_values [OF simple vs] free by blast
  then have "fold_parsed (take_action p sub) (first_state p) (map (use_of p) (us @ [u])) = Inr ?st'"
    using st(1) by (simp add: fold_parsed_append)
  moreover have "dict_get (s_ns ?st') (a_dest a) = Some (reading p a (us @ [u]))" if "a \<in> set opts" for a
  proof (cases "a = b")
    case True
    then show ?thesis by (simp add: store_into_def dict_set_get)
  next
    case False
    then have "a_dest a \<noteq> a_dest b" using that opt assms by (auto simp: simple_parser_def distinct_map inj_on_def)
    then show ?thesis using st(5) that False b by (simp add: store_into_def dict_set_get reading_snoc_other)
  qed
  ultimately show ?case using st(2,3,4) b by (auto simp: store_into_def)
qed

section \<open>The whole line\<close>

lemma match_partial_files:
  assumes "files \<noteq> []"
  shows "match_partial [N_plus] (map (Pair C_arg) files) = [length files]"
proof -
  let ?rest = "map (Pair C_arg) files"
  have "takes N_plus ?rest" using assms by (simp add: takes_def Let_def list_all_iff filter_map o_def)
  then have "match_all [N_plus] ?rest = Some [length files]" by (simp add: rev_append)
  then show ?thesis by (simp add: match_partial_def)
qed

lemma get_list_str: "a_type a = type_str \<Longrightarrow> get_list a ss = Inr (map Av_str ss)"
  by (induction ss) (simp_all add: get_value_def type_str_def)

lemma check_list_free: "a_choices a = None \<Longrightarrow> check_list a vs = Inr vs"
  by (induction vs) (simp_all add: check_value_def)

lemma files_values:
  assumes "list_all plain_value files"
  shows "get_values (pos_action N_plus d) files = Inr (Av_list (map Av_str files))"
proof -
  have "''--'' \<notin> set files" using assms by (auto simp: list_all_iff plain_value_def)
  then have "remove1 ''--'' files = files" by (simp add: remove1_idem)
  then show ?thesis
    by (simp add: get_values_def pos_action_def get_list_str check_list_free)
qed

lemma conflicts_files:
  assumes "simple_parser p opts d"
  shows "conflicts p (pos_action N_plus d) = []"
proof -
  have "filter (\<lambda>g. d \<in> set g) (p_exclusive p) = []" using assms by (auto simp: simple_parser_def filter_empty_conv)
  then show ?thesis by (simp add: conflicts_def pos_action_def)
qed

lemma no_conversion:
  assumes "simple_parser p opts d" and "d \<in> set (s_seen st)"
  shows "fold_parsed convert_default st (p_actions p) = Inr st"
proof -
  have "convert_default st a = Inr st" if "a \<in> set (p_actions p)" for a
    using assms that unfolding simple_parser_def
    by (auto simp: list_all_iff simple_action_def convert_default_def stores_def opt_help_def opt_action_def pos_action_def)
  then have "fold_parsed convert_default st acts = Inr st" if "set acts \<subseteq> set (p_actions p)" for acts
    using that by (induction acts) simp_all
  then show ?thesis by blast
qed

lemma parse_line:
  assumes simple: "simple_parser p opts d" and us: "list_all (good_use p) us" "compatible p us"
    and files: "files \<noteq> []" "list_all plain_value files"
  shows "\<exists>ns. parse_args p [] (command_line us files) = Inr ns \<and> dict_get ns d = Some (Av_list (map Av_str files)) \<and>
    (\<forall>a \<in> set opts. dict_get ns (a_dest a) = Some (reading p a us))"
proof -
  let ?sub = "sub_parser []" and ?pos = "pos_action N_plus d"
  obtain st where st: "fold_parsed (take_action p ?sub) (first_state p) (map (use_of p) us) = Inr st" "s_extras st = []"
    "s_positionals st = [?pos]" "\<forall>a \<in> set opts. dict_get (s_ns st) (a_dest a) = Some (reading p a us)"
    using uses_meaning [OF simple us] by blast
  have loop: "arg_loop p ?sub (line_classes p us files) (first_state p) = Inr (map (Pair C_arg) files, st)"
    using loop_line [OF us(1)] st(1) by simp
  let ?st1 = "store_into (st\<lparr>s_seen := List.insert d (s_seen st)\<rparr>) d (Av_list (map Av_str files))"
  have "take_action p ?sub st (?pos, files, []) = Inr ?st1"
    unfolding take_action_Inr_iff conflicts_files [OF simple] files_values [OF files(2)] by (simp add: run_action_def pos_action_def)
  then have "consume_positionals p ?sub (map (Pair C_arg) files) st = Inr (length files, ?st1\<lparr>s_positionals := []\<rparr>)"
    using match_partial_files [OF files(1)] st(3) by (simp add: consume_positionals_def pos_action_def o_def)
  moreover have "fold_parsed convert_default (?st1\<lparr>s_positionals := []\<rparr>) (p_actions p) = Inr (?st1\<lparr>s_positionals := []\<rparr>)"
    by (rule no_conversion [OF simple]) (simp add: store_into_def)
  moreover have "missing_actions p (?st1\<lparr>s_positionals := []\<rparr>) = []"
    using simple unfolding simple_parser_def missing_actions_def
    by (auto simp: filter_empty_conv list_all_iff simple_action_def opt_help_def opt_action_def pos_action_def store_into_def)
  ultimately have "parse_args p [] (command_line us files) = Inr (s_ns ?st1)"
    using classify_line [OF us(1) files(2)] loop st(2)
    by (simp add: parse_args_def parse_known_args_def first_state_def [symmetric] store_into_def)
  moreover have "d \<notin> a_dest ` set opts" using simple by (simp add: simple_parser_def)
  ultimately show ?thesis using st(4) by (auto simp: store_into_def dict_set_get)
qed

section \<open>Values by name\<close>

text \<open>Whether one of some names is used; the values used with them; the last of these.\<close>

definition flag_given :: "string list \<Rightarrow> opt_use list \<Rightarrow> bool" where
  "flag_given os us = list_ex (\<lambda>u. fst u \<in> set os) us"

definition values_given :: "string list \<Rightarrow> opt_use list \<Rightarrow> string list" where
  "values_given os us = map (\<lambda>u. hd (snd u)) (filter (\<lambda>u. fst u \<in> set os) us)"

definition last_given :: "string list \<Rightarrow> opt_use list \<Rightarrow> string option" where
  "last_given os us = (case rev (values_given os us) of v # _ \<Rightarrow> Some v | [] \<Rightarrow> None)"

lemma find_option_iff:
  assumes "distinct (map fst (option_strings p))" and "a \<in> set (p_actions p)"
  shows "find_option p s = Some a \<longleftrightarrow> s \<in> set (a_opts a)"
proof
  assume "find_option p s = Some a"
  then show "s \<in> set (a_opts a)" by (auto simp: find_option_def option_strings_def dest!: map_of_SomeD)
next
  assume "s \<in> set (a_opts a)"
  then have "(s, a) \<in> set (option_strings p)" using assms(2) by (auto simp: option_strings_def)
  then show "find_option p s = Some a" using assms(1) by (simp add: find_option_def map_of_is_SomeI)
qed

lemma uses_by_name:
  "distinct (map fst (option_strings p)) \<Longrightarrow> a \<in> set (p_actions p) \<Longrightarrow> uses_of p a us = filter (\<lambda>u. fst u \<in> set (a_opts a)) us"
  by (simp add: uses_of_def find_option_iff)

lemma reading_flag:
  assumes "distinct (map fst (option_strings p))" and "opt_true os \<in> set (p_actions p)"
  shows "reading p (opt_true os) us = Av_bool (flag_given os us)"
  using uses_by_name [OF assms, of us]
  by (auto simp: reading_def flag_given_def opt_true_def opt_action_def Let_def filter_empty_conv list_ex_iff)

lemma reading_values:
  assumes "distinct (map fst (option_strings p))" and "opt_append os \<in> set (p_actions p)"
  shows "reading p (opt_append os) us = (if values_given os us = [] then Av_none else Av_list (map Av_str (values_given os us)))"
  using uses_by_name [OF assms, of us]
  by (auto simp: reading_def values_given_def opt_append_def opt_action_def)

lemma reading_last:
  assumes "distinct (map fst (option_strings p))" and "opt_store os \<in> set (p_actions p)"
  shows "reading p (opt_store os) us = (case last_given os us of Some v \<Rightarrow> Av_str v | None \<Rightarrow> Av_none)"
proof -
  let ?m = "filter (\<lambda>u. fst u \<in> set os) us"
  have "uses_of p (opt_store os) us = ?m" using uses_by_name [OF assms, of us] by (simp add: opt_store_def opt_action_def)
  then show ?thesis
    by (cases ?m rule: rev_cases) (simp_all add: reading_def last_given_def values_given_def opt_store_def opt_action_def)
qed

end
