(* ===== verification/Kernel_Props.thy ===== *)
theory Kernel_Props
  imports Kernel_Doc Commands_Props Args_Reading
begin

text \<open>
  Properties of the program \<^verbatim>\<open>kernel-doc\<close> from its command line: how it can end, what an option that is
  not known leads to, what the options mean, and what the environment cannot change.
\<close>

section \<open>How the program ends\<close>

text \<open>An export file that was not parsed raises \<open>TypeError\<close>; the others change nothing.\<close>

lemma export_files_outcome:
  "kf_inv st \<Longrightarrow> safe {TypeError} kf_inv (fold_res (glob_step process_export_file) st evs)"
proof (rule safe_fold_res)
  fix s ev
  assume "kf_inv s"
  then show "safe {TypeError} kf_inv (glob_step process_export_file s ev)"
    by (auto simp: glob_step_def process_export_file_def file_not_found_def kf_error_def kf_inv_def split: glob_event.split)
qed

lemma parse_exports_outcome:
  assumes "kf_inv st"
  shows "safe {IndexError, AttributeError, TypeError} kf_inv (kfiles_parse fs contents files exports st)"
proof -
  have "kfiles_parse fs contents files exports st =
    rbind (kfiles_parse fs contents files [] st) (\<lambda>st1. fold_res (glob_step process_export_file) st1 (parse_files fs (kf_srctree st) exports))"
    by (simp add: kfiles_parse_def parse_files_def rbind_def split: sum.split)
  moreover have "safe {IndexError, AttributeError, TypeError} kf_inv (kfiles_parse fs contents files [] st)"
    by (rule safe_errs [OF parse_outcome [OF assms]]) auto
  moreover have "safe {IndexError, AttributeError, TypeError} kf_inv (fold_res (glob_step process_export_file) st1 evs)" if "kf_inv st1" for st1 evs
    by (rule safe_errs [OF export_files_outcome [OF that]]) auto
  ultimately show ?thesis by (simp add: safe_rbind)
qed

interpretation base_filter: filter_methods base_methods
  by unfold_locales (auto simp: base_methods_def no_out_def out_fun_of_def split: if_splits)

lemma base_symbols_safe:
  assumes "list_all kitem_ok items" and "f_table f = Some t"
  shows "safe {} (\<lambda>(tx, f'). f_table f' = Some t) (base_symbols fname items f)"
  unfolding base_symbols_def
proof (rule output_symbols_safe [OF _ assms])
  fix it :: kdoc_item and g :: fmt
  assume g: "f_table g = Some t"
  have "\<exists>m g'. msg base_methods fname (it_name it) it g = Inr (m, g')"
    using g by (auto simp: msg_def Let_def base_methods_def no_out_def check_declaration_def in_table_def out_fun_of_def)
  then show "safe {} (\<lambda>(m, f'). f_table f' = Some t) (msg base_methods fname (it_name it) it g)"
    using base_filter.msg_keeps [of fname "it_name it" it g] g by auto
qed

interpretation base_format: out_format base_symbols "{}"
  by unfold_locales (rule base_symbols_safe)

text \<open>
  A run with an output format: the exceptions of the parser, of the export files, of the filter and
  of the format, or an exit status that is 3 exactly when warnings count as errors and there are some.
\<close>

definition ended :: "kd_args \<Rightarrow> string list \<times> nat \<Rightarrow> bool" where
  "ended a r \<longleftrightarrow> snd r \<in> {0, WERROR_RETURN_CODE} \<and> (snd r = WERROR_RETURN_CODE \<longrightarrow> kd_werror a)"

lemma kd_finish_ended: "ended a (kd_finish a st printed)"
  by (simp add: ended_def kd_finish_def WERROR_RETURN_CODE_def)

lemma kd_init_inv: "kf_inv (kd_init sys a)"
  unfolding kd_init_def by (rule kf_inv_init)

abbreviation kd_errs :: "py_err set" where
  "kd_errs \<equiv> {IndexError, AttributeError, KeyError, TypeError, NameError}"

lemma kd_run_outcome:
  assumes "out_format out_symbols errs" and "errs \<subseteq> kd_errs"
  shows "safe kd_errs (ended a) (kd_run out_symbols f sys a)"
  unfolding kd_run_def
proof (rule safe_rbind [OF safe_errs [OF parse_exports_outcome [OF kd_init_inv]]])
  fix st
  assume st: "kf_inv st"
  show "safe kd_errs (ended a) (rbind (kfiles_msg (sy_fs sys) out_symbols (kd_request a) [] (kd_export_file a) f st)
      (\<lambda>(texts, f1, st1). Inr (kd_finish a st1 (map snd texts))))"
    by (rule safe_rbind [OF safe_errs [OF out_format.msg_ok [OF assms(1) st]]]) (use assms(2) in \<open>auto simp: kd_finish_ended\<close>)
qed auto

lemma kd_run_yaml_outcome: "safe kd_errs (ended a) (kd_run_yaml yaml_file sys a)"
  unfolding kd_run_yaml_def
proof (rule safe_rbind)
  show "safe kd_errs tests_ok (test_file_init (sy_yaml_available sys) (sy_expanduser sys) (sy_isdir sys) (man_date sys) yaml_file (yaml_content a))"
    by (simp add: test_file_init_def Let_def tests_ok_def)
next
  fix tf
  assume tf: "tests_ok tf"
  have inv: "kf_inv ((kd_init sys a)\<lparr>kf_store_src := True\<rparr>)" using kd_init_inv [of sys a] by (simp add: kf_inv_def)
  show "safe kd_errs (ended a) (rbind (kfiles_parse (sy_fs sys) (sy_contents sys) (kd_files a) (kd_export_file a) ((kd_init sys a)\<lparr>kf_store_src := True\<rparr>))
      (\<lambda>st. rbind (kfiles_msg_yaml (sy_fs sys) (kd_request a) [] (kd_export_file a) tf st) (\<lambda>(tf1, st1). Inr (kd_finish a st1 []))))"
    by (rule safe_rbind [OF safe_errs [OF parse_exports_outcome [OF inv]]], blast)
      (rule safe_rbind [OF safe_errs [OF msg_yaml_safe]], use tf in \<open>auto simp: kd_finish_ended\<close>)
qed

lemma kdoc_dests:
  "{''wall'', ''verbose'', ''modulename'', ''enable_lineno'', ''wreturn'', ''wshort_desc'', ''werror'', ''export_file'', ''man'', ''rst'', ''none'',
    ''yaml_file'', ''kdoc_item'', ''export'', ''internal'', ''symbol'', ''nosymbol'', ''no_doc_sections'', ''files''} \<subseteq> dests kdoc_parser"
  by code_simp

lemma kd_args_total:
  assumes "parse_args kdoc_parser [] argv = Inr ns"
  shows "\<exists>a. kd_args_of ns = Inr a"
proof -
  have "dict_has ns d" if "d \<in> dests kdoc_parser" for d using parse_args_has [OF assms that] .
  then show ?thesis using kdoc_dests unfolding kd_args_of_def by (intro rbind_total get_total) auto
qed

lemma kd_args_werror: "kd_args_of ns = Inr a \<Longrightarrow> kd_werror a \<longleftrightarrow> dict_get ns ''werror'' = Some (Av_bool True)"
  unfolding kd_args_of_def rbind_Inr_iff
  by (auto simp: get_bool_def ns_get_def rbind_Inr_iff elim: as_bool.elims)

lemma kernel_doc_main_outcome:
  "kernel_doc_main sys a = Runs r \<Longrightarrow>
    (python_before sys 3 6 \<and> (\<exists>n \<in> {0, 1}. r = Inr ([], n))) \<or> safe kd_errs (ended a) r"
  using kd_run_outcome [OF rest_format.out_format_axioms] kd_run_outcome [OF man_format.out_format_axioms]
    kd_run_outcome [OF base_format.out_format_axioms] kd_run_yaml_outcome
  by (auto simp: kernel_doc_main_def split: if_splits option.splits)


section \<open>Options that are not known\<close>

lemma scripts_flat:
  "flat (trans_parser fs linux_path)" "flat headers_parser" "flat build_parser" "flat renames_parser" "flat redirects_parser"
  "flat fonts_parser" "flat kdoc_parser"
  by (simp_all add: flat_def trans_parser_def headers_parser_def build_parser_def renames_parser_def redirects_parser_def fonts_parser_def
      kdoc_parser_def parser_of_def opt_help_def opt_store_def opt_true_def opt_append_def opt_count_def opt_boolean_def opt_action_def pos_action_def)



section \<open>What the options mean\<close>

definition kdoc_opts :: "arg_action list" where
  "kdoc_opts = butlast (tl (p_actions kdoc_parser))"

lemma kdoc_actions: "p_actions kdoc_parser = opt_help # kdoc_opts @ [pos_action N_plus ''files'']"
  by (simp add: kdoc_opts_def kdoc_parser_def parser_of_def)

lemma kdoc_simple: "simple_parser kdoc_parser kdoc_opts ''files''"
proof -
  have "distinct (map a_dest kdoc_opts)" by code_simp
  moreover have "''files'' \<notin> set (map a_dest kdoc_opts)" by code_simp
  moreover have "list_all simple_action kdoc_opts"
    by (simp add: kdoc_opts_def kdoc_parser_def parser_of_def simple_action_def opt_true_def opt_store_def opt_append_def opt_action_def)
  moreover have "p_defaults kdoc_parser = []" "p_exclusive kdoc_parser = [[''export'', ''internal'', ''symbol'']]"
    by (simp_all add: kdoc_parser_def parser_of_def)
  ultimately show ?thesis unfolding simple_parser_def using kdoc_actions by simp
qed

lemma kdoc_distinct: "distinct (map fst (option_strings kdoc_parser))"
  by code_simp

lemma kdoc_has_opt: "a \<in> set kdoc_opts \<Longrightarrow> a \<in> set (p_actions kdoc_parser)"
  by (simp add: kdoc_actions)

lemmas kdoc_reading =
  reading_flag [OF kdoc_distinct kdoc_has_opt] reading_values [OF kdoc_distinct kdoc_has_opt] reading_last [OF kdoc_distinct kdoc_has_opt]

lemma get_flag:
  assumes "\<forall>a \<in> set kdoc_opts. dict_get ns (a_dest a) = Some (reading kdoc_parser a us)" and "opt_true os \<in> set kdoc_opts" and "dest_of os = d"
  shows "get_bool ns d = Inr (flag_given os us)"
proof -
  have "dict_get ns d = Some (Av_bool (flag_given os us))"
    using assms kdoc_reading(1) [OF assms(2)] by (auto simp: opt_true_def opt_action_def)
  then show ?thesis by (simp add: get_bool_def ns_get_def)
qed

lemma get_values_list:
  assumes "\<forall>a \<in> set kdoc_opts. dict_get ns (a_dest a) = Some (reading kdoc_parser a us)" and "opt_append os \<in> set kdoc_opts" and "dest_of os = d"
  shows "get_strs ns d = Inr (values_given os us)"
proof -
  have "dict_get ns d = Some (if values_given os us = [] then Av_none else Av_list (map Av_str (values_given os us)))"
    using assms kdoc_reading(2) [OF assms(2)] by (auto simp: opt_append_def opt_action_def)
  then show ?thesis by (simp add: get_strs_def ns_get_def o_def)
qed

lemma get_last:
  assumes "\<forall>a \<in> set kdoc_opts. dict_get ns (a_dest a) = Some (reading kdoc_parser a us)" and "opt_store os \<in> set kdoc_opts" and "dest_of os = d"
  shows "get_str ns d = Inr (last_given os us)"
proof -
  have "dict_get ns d = Some (case last_given os us of Some v \<Rightarrow> Av_str v | None \<Rightarrow> Av_none)"
    using assms kdoc_reading(3) [OF assms(2)] by (auto simp: opt_store_def opt_action_def)
  then show ?thesis by (simp add: get_str_def ns_get_def split: option.split)
qed

lemma kdoc_get_flags:
  assumes "\<forall>a \<in> set kdoc_opts. dict_get ns (a_dest a) = Some (reading kdoc_parser a us)"
  shows
    "get_bool ns ''wall'' = Inr (flag_given [''-Wall'', ''--wall''] us)"
    "get_bool ns ''verbose'' = Inr (flag_given [''-v'', ''-verbose'', ''--verbose''] us)"
    "get_bool ns ''enable_lineno'' = Inr (flag_given [''-l'', ''-enable-lineno'', ''--enable_lineno''] us)"
    "get_bool ns ''wreturn'' = Inr (flag_given [''-Wreturn'', ''--wreturn''] us)"
    "get_bool ns ''wshort_desc'' = Inr (flag_given [''-Wshort-desc'', ''-Wshort-description'', ''--wshort-desc''] us)"
    "get_bool ns ''werror'' = Inr (flag_given [''-Werror'', ''--werror''] us)"
    "get_bool ns ''man'' = Inr (flag_given [''-m'', ''-man'', ''--man''] us)"
    "get_bool ns ''rst'' = Inr (flag_given [''-r'', ''-rst'', ''--rst''] us)"
    "get_bool ns ''none'' = Inr (flag_given [''-N'', ''-none'', ''--none''] us)"
    "get_bool ns ''kdoc_item'' = Inr (flag_given [''-k'', ''--kdoc-item'', ''--kdoc''] us)"
    "get_bool ns ''export'' = Inr (flag_given [''-e'', ''-export'', ''--export''] us)"
    "get_bool ns ''internal'' = Inr (flag_given [''-i'', ''-internal'', ''--internal''] us)"
    "get_bool ns ''no_doc_sections'' = Inr (flag_given [''-D'', ''-no-doc-sections'', ''--no-doc-sections''] us)"
  by (rule get_flag [OF assms], simp add: kdoc_opts_def kdoc_parser_def parser_of_def, code_simp)+

lemma kdoc_get_values:
  assumes "\<forall>a \<in> set kdoc_opts. dict_get ns (a_dest a) = Some (reading kdoc_parser a us)"
  shows
    "get_strs ns ''export_file'' = Inr (values_given [''-export-file'', ''--export-file''] us)"
    "get_strs ns ''symbol'' = Inr (values_given [''-s'', ''-function'', ''--symbol''] us)"
    "get_strs ns ''nosymbol'' = Inr (values_given [''-n'', ''-nosymbol'', ''--nosymbol''] us)"
  by (rule get_values_list [OF assms], simp add: kdoc_opts_def kdoc_parser_def parser_of_def, code_simp)+

lemma kdoc_get_last:
  assumes "\<forall>a \<in> set kdoc_opts. dict_get ns (a_dest a) = Some (reading kdoc_parser a us)"
  shows
    "get_str ns ''modulename'' = Inr (last_given [''-M'', ''-modulename'', ''--modulename''] us)"
    "get_str ns ''yaml_file'' = Inr (last_given [''-y'', ''--yaml-file'', ''--yaml''] us)"
  by (rule get_last [OF assms], simp add: kdoc_opts_def kdoc_parser_def parser_of_def, code_simp)+

text \<open>
  C2. The options of the program mean what they say, in any order: for a line of options written by any
  of their names, with plain values, no two of the exclusive selections and no request for help,
  followed by the files, the arguments of the run are read off the options one by one.
\<close>

theorem kernel_doc_arguments:
  assumes "list_all (good_use kdoc_parser) us" and "compatible kdoc_parser us" and "files \<noteq> []" and "list_all plain_value files"
  shows "\<exists>ns. parse_args kdoc_parser [] (command_line us files) = Inr ns \<and> kd_args_of ns = Inr
    \<lparr>kd_verbose = flag_given [''-v'', ''-verbose'', ''--verbose''] us,
     kd_modulename = last_given [''-M'', ''-modulename'', ''--modulename''] us,
     kd_lineno = flag_given [''-l'', ''-enable-lineno'', ''--enable_lineno''] us,
     kd_wreturn = (flag_given [''-Wall'', ''--wall''] us \<or> flag_given [''-Wreturn'', ''--wreturn''] us),
     kd_wshort_desc = (flag_given [''-Wall'', ''--wall''] us \<or> flag_given [''-Wshort-desc'', ''-Wshort-description'', ''--wshort-desc''] us),
     kd_werror = flag_given [''-Werror'', ''--werror''] us,
     kd_export_file = values_given [''-export-file'', ''--export-file''] us,
     kd_man = flag_given [''-m'', ''-man'', ''--man''] us,
     kd_rst = flag_given [''-r'', ''-rst'', ''--rst''] us,
     kd_none = flag_given [''-N'', ''-none'', ''--none''] us,
     kd_yaml_file = last_given [''-y'', ''--yaml-file'', ''--yaml''] us,
     kd_kdoc_item = flag_given [''-k'', ''--kdoc-item'', ''--kdoc''] us,
     kd_export = flag_given [''-e'', ''-export'', ''--export''] us,
     kd_internal = flag_given [''-i'', ''-internal'', ''--internal''] us,
     kd_symbol = values_given [''-s'', ''-function'', ''--symbol''] us,
     kd_nosymbol = values_given [''-n'', ''-nosymbol'', ''--nosymbol''] us,
     kd_no_doc = flag_given [''-D'', ''-no-doc-sections'', ''--no-doc-sections''] us,
     kd_files = files\<rparr>"
proof -
  obtain ns where ns: "parse_args kdoc_parser [] (command_line us files) = Inr ns" "dict_get ns ''files'' = Some (Av_list (map Av_str files))"
    "\<forall>a \<in> set kdoc_opts. dict_get ns (a_dest a) = Some (reading kdoc_parser a us)"
    using parse_line [OF kdoc_simple assms] by blast
  have files: "get_strs ns ''files'' = Inr files" by (simp add: get_strs_def ns_get_def ns(2) o_def)
  have "kd_args_of ns = Inr
    \<lparr>kd_verbose = flag_given [''-v'', ''-verbose'', ''--verbose''] us,
     kd_modulename = last_given [''-M'', ''-modulename'', ''--modulename''] us,
     kd_lineno = flag_given [''-l'', ''-enable-lineno'', ''--enable_lineno''] us,
     kd_wreturn = (flag_given [''-Wall'', ''--wall''] us \<or> flag_given [''-Wreturn'', ''--wreturn''] us),
     kd_wshort_desc = (flag_given [''-Wall'', ''--wall''] us \<or> flag_given [''-Wshort-desc'', ''-Wshort-description'', ''--wshort-desc''] us),
     kd_werror = flag_given [''-Werror'', ''--werror''] us,
     kd_export_file = values_given [''-export-file'', ''--export-file''] us,
     kd_man = flag_given [''-m'', ''-man'', ''--man''] us,
     kd_rst = flag_given [''-r'', ''-rst'', ''--rst''] us,
     kd_none = flag_given [''-N'', ''-none'', ''--none''] us,
     kd_yaml_file = last_given [''-y'', ''--yaml-file'', ''--yaml''] us,
     kd_kdoc_item = flag_given [''-k'', ''--kdoc-item'', ''--kdoc''] us,
     kd_export = flag_given [''-e'', ''-export'', ''--export''] us,
     kd_internal = flag_given [''-i'', ''-internal'', ''--internal''] us,
     kd_symbol = values_given [''-s'', ''-function'', ''--symbol''] us,
     kd_nosymbol = values_given [''-n'', ''-nosymbol'', ''--nosymbol''] us,
     kd_no_doc = flag_given [''-D'', ''-no-doc-sections'', ''--no-doc-sections''] us,
     kd_files = files\<rparr>"
    unfolding kd_args_of_def kdoc_get_flags [OF ns(3)] kdoc_get_values [OF ns(3)] kdoc_get_last [OF ns(3)] files rbind_simps ..
  then show ?thesis using ns(1) by blast
qed

theorem kernel_doc_arguments_witness:
  "\<exists>ns a. parse_args kdoc_parser [] [''-Werror'', ''-function'', ''foo'', ''--rst'', ''a.c'', ''b.c''] = Inr ns \<and> kd_args_of ns = Inr a \<and>
     kd_werror a \<and> kd_rst a \<and> \<not> kd_man a \<and> kd_symbol a = [''foo''] \<and> kd_files a = [''a.c'', ''b.c'']"
proof -
  let ?us = "[(''-Werror'', []), (''-function'', [''foo'']), (''--rst'', [])]"
  have "list_all (good_use kdoc_parser) ?us" "compatible kdoc_parser ?us" "list_all plain_value [''a.c'', ''b.c'']" by code_simp+
  from kernel_doc_arguments [OF this(1,2) _ this(3)] show ?thesis
    by (auto simp: command_line_def flag_given_def values_given_def)
qed

section \<open>The environment does not make warnings errors\<close>

definition with_werror :: "bool \<Rightarrow> kfiles \<Rightarrow> kfiles" where
  "with_werror b st = st\<lparr>kf_werror := b\<rparr>"

lemma with_werror_frame [simp]:
  "kf_files (with_werror b st) = kf_files st" "kf_results (with_werror b st) = kf_results st" "kf_errors (with_werror b st) = kf_errors st"
  "kf_config (with_werror b st) = kf_config st" "kf_srctree (with_werror b st) = kf_srctree st" "kf_log (with_werror b st) = kf_log st"
  "kf_export_files (with_werror b st) = kf_export_files st" "kf_export_table (with_werror b st) = kf_export_table st"
  "kf_store_src (with_werror b st) = kf_store_src st"
  by (simp_all add: with_werror_def)

lemma map_sum_rbind: "map_sum id g (rbind x f) = rbind x (\<lambda>v. map_sum id g (f v))"
  by (cases x) simp_all

lemma rbind_map_sum: "rbind (map_sum id g x) f = rbind x (\<lambda>v. f (g v))"
  by (cases x) simp_all

lemma rbind_eqI: "(\<And>v. f v = g v) \<Longrightarrow> rbind x f = rbind x g"
  by (cases x) simp_all

lemma fold_res_map:
  assumes "\<And>s x. f (g s) x = map_sum id g (f s x)"
  shows "fold_res f (g s) xs = map_sum id g (fold_res f s xs)"
proof (induction xs arbitrary: s)
  case (Cons x xs)
  then show ?case by (cases "f s x") (simp_all add: assms)
qed simp

lemma add_log_werror [simp]: "add_log ms (with_werror b st) = with_werror b (add_log ms st)"
  by (simp add: add_log_def with_werror_def)

lemma file_not_found_werror [simp]: "file_not_found f (with_werror b st) = with_werror b (file_not_found f st)"
  by (simp add: file_not_found_def kf_error_def with_werror_def)

lemma parse_file_werror: "parse_file contents fname (with_werror b st) = map_sum id (with_werror b) (parse_file contents fname st)"
  by (auto simp: parse_file_def map_sum_rbind split: prod.split intro!: rbind_eqI) (auto simp: with_werror_def)

lemma kfiles_parse_werror: "kfiles_parse fs contents files exports (with_werror b st) = map_sum id (with_werror b) (kfiles_parse fs contents files exports st)"
proof -
  have "fold_res (glob_step (parse_file contents)) (with_werror b s) evs = map_sum id (with_werror b) (fold_res (glob_step (parse_file contents)) s evs)" for s evs
    by (rule fold_res_map) (simp add: glob_step_def parse_file_werror split: glob_event.split)
  moreover have "fold_res (glob_step process_export_file) (with_werror b s) evs = map_sum id (with_werror b) (fold_res (glob_step process_export_file) s evs)" for s evs
    by (rule fold_res_map) (simp add: glob_step_def process_export_file_def split: glob_event.split)
  ultimately show ?thesis by (simp add: kfiles_parse_def map_sum_rbind rbind_map_sum)
qed

lemma function_table_werror:
  "function_table fs rq ef (with_werror b st) = map_sum id (apsnd (with_werror b)) (function_table fs rq ef st)"
proof -
  have "export_step (apsnd (with_werror b) ts) ev = map_sum id (apsnd (with_werror b)) (export_step ts ev)" for ts ev
    by (cases ts; cases ev) (auto simp: export_step_def split: option.split)
  from fold_res_map [of export_step "apsnd (with_werror b)", OF this, of "([], st)"] show ?thesis
    by (auto simp: function_table_def rbind_map_sum map_sum_rbind split: prod.split intro!: rbind_eqI)
qed

lemma print_file_werror:
  "print_file out rq fname tbl (texts, f, with_werror b st) = map_sum id (apsnd (apsnd (with_werror b))) (print_file out rq fname tbl (texts, f, st))"
  by (auto simp: print_file_def map_sum_rbind split: option.split prod.split intro!: rbind_eqI) (auto simp: with_werror_def)

lemma kfiles_msg_werror:
  "kfiles_msg fs out rq filenames ef f (with_werror b st) = map_sum id (apsnd (apsnd (with_werror b))) (kfiles_msg fs out rq filenames ef f st)"
proof -
  let ?g = "apsnd (apsnd (apsnd (with_werror b)))"
  have "msg_file fs out rq (?g acc) fname = map_sum id ?g (msg_file fs out rq acc fname)" for acc fname
    by (cases acc) (auto simp: msg_file_def Let_def function_table_werror print_file_werror rbind_map_sum map_sum_rbind
        split: prod.split intro!: rbind_eqI)
  from fold_res_map [of "msg_file fs out rq" ?g, OF this, of "(ef, [], f, st)"] show ?thesis
    by (auto simp: kfiles_msg_def Let_def rbind_map_sum map_sum_rbind split: prod.split intro!: rbind_eqI)
qed

lemma style_text_werror:
  "style_text out fname arg style (with_werror b st) = map_sum id (apsnd (apsnd (with_werror b))) (style_text out fname arg style st)"
  by (auto simp: style_text_def map_sum_rbind split: option.split prod.split intro!: rbind_eqI)

lemma store_symbols_werror:
  "store_symbols fname items tf (with_werror b st) = map_sum id (apsnd (apsnd (with_werror b))) (store_symbols fname items tf st)"
proof -
  let ?g = "apsnd (apsnd (with_werror b))"
  have "store_symbol fname (?g acc) arg = map_sum id ?g (store_symbol fname acc arg)" for acc arg
    by (cases acc) (auto simp: store_symbol_def Let_def style_text_werror rbind_map_sum map_sum_rbind
        split: prod.split intro!: rbind_eqI)
  from fold_res_map [of "store_symbol fname" ?g, OF this, of "([], tf, st)"] show ?thesis by (simp add: store_symbols_def)
qed

lemma store_file_werror:
  "store_file rq fname tbl tf (with_werror b st) = map_sum id (apsnd (with_werror b)) (store_file rq fname tbl tf st)"
  by (auto simp: store_file_def store_symbols_werror rbind_map_sum map_sum_rbind split: option.split prod.split
      intro!: rbind_eqI) (auto simp: with_werror_def)

lemma kfiles_msg_yaml_werror:
  "kfiles_msg_yaml fs rq filenames ef tf (with_werror b st) = map_sum id (apsnd (with_werror b)) (kfiles_msg_yaml fs rq filenames ef tf st)"
proof -
  let ?g = "apsnd (apsnd (with_werror b))"
  have "msg_file_yaml fs rq (?g acc) fname = map_sum id ?g (msg_file_yaml fs rq acc fname)" for acc fname
    by (cases acc) (auto simp: msg_file_yaml_def Let_def function_table_werror store_file_werror rbind_map_sum map_sum_rbind
        split: prod.split intro!: rbind_eqI)
  from fold_res_map [of "msg_file_yaml fs rq" ?g, OF this, of "(ef, tf, st)"] show ?thesis
    by (auto simp: kfiles_msg_yaml_def Let_def rbind_map_sum map_sum_rbind split: prod.split intro!: rbind_eqI)
qed

lemma kd_finish_werror [simp]: "kd_finish a (with_werror b st) printed = kd_finish a st printed"
  by (simp add: kd_finish_def)

definition env_changed :: "string option \<Rightarrow> string option \<Rightarrow> 't system \<Rightarrow> 't system" where
  "env_changed x y sys = sys\<lparr>sy_env := (sy_env sys)(''KDOC_WERROR'' := x, ''KCFLAGS'' := y)\<rparr>"

lemma env_changed_frame [simp]:
  "sy_fs (env_changed x y sys) = sy_fs sys" "sy_contents (env_changed x y sys) = sy_contents sys"
  "sy_yaml_available (env_changed x y sys) = sy_yaml_available sys" "sy_expanduser (env_changed x y sys) = sy_expanduser sys"
  "sy_isdir (env_changed x y sys) = sy_isdir sys" "python_before (env_changed x y sys) m n = python_before sys m n"
  "man_date (env_changed x y sys) = man_date sys"
  by (simp_all add: env_changed_def python_before_def man_date_def split: option.split)

lemma kd_init_env: "\<exists>b. kd_init (env_changed x y sys) a = with_werror b (kd_init sys a)"
  by (auto simp: kd_init_def kfiles_init_def with_werror_def env_verbose_def env_changed_def)

lemma kd_run_env: "kd_run out f (env_changed x y sys) a = kd_run out f sys a"
proof -
  obtain b where "kd_init (env_changed x y sys) a = with_werror b (kd_init sys a)" using kd_init_env by blast
  then show ?thesis
    by (auto simp: kd_run_def kfiles_parse_werror kfiles_msg_werror rbind_map_sum split: prod.split intro!: rbind_eqI)
qed

lemma kd_run_yaml_env: "kd_run_yaml yf (env_changed x y sys) a = kd_run_yaml yf sys a"
proof -
  obtain b where "kd_init (env_changed x y sys) a = with_werror b (kd_init sys a)" using kd_init_env by blast
  moreover have "with_werror b st\<lparr>kf_store_src := True\<rparr> = with_werror b (st\<lparr>kf_store_src := True\<rparr>)" for st
    by (simp add: with_werror_def)
  ultimately show ?thesis
    by (auto simp: kd_run_yaml_def kfiles_parse_werror kfiles_msg_yaml_werror rbind_map_sum split: prod.split intro!: rbind_eqI)
qed

text \<open>
  C24. The variables \<^verbatim>\<open>KDOC_WERROR\<close> and \<^verbatim>\<open>KCFLAGS\<close>, which are read so that warnings count as errors, change
  nothing: the output and the exit status depend on the option alone.
\<close>

theorem environment_sets_no_werror:
  "kernel_doc (sys\<lparr>sy_env := (sy_env sys)(''KDOC_WERROR'' := x, ''KCFLAGS'' := y)\<rparr>) argv = kernel_doc sys argv"
  unfolding env_changed_def [symmetric]
  by (simp add: kernel_doc_def kernel_doc_main_def kd_run_env kd_run_yaml_env split: sum.split option.split)

end
