(* ===== verification/Spec2Isabelle.thy ===== *)
theory Spec2Isabelle
  imports Kdoc_Props Data_Props Doc_Pages Doc_Tree Displays Build_Props Kernel_Props
begin

text \<open>
  Verification of the documentation tools of the repository, the Python code under \<^verbatim>\<open>docs\<close>: kernel-doc
  (\<^verbatim>\<open>docs/kerneldoc-src/tools/lib/python/kdoc\<close>), which reads C sources, finds their documentation
  comments and prints them as reStructuredText or as man pages; the Sphinx extensions that call it
  (\<^verbatim>\<open>docs/sphinx\<close>); and the scripts around it (\<^verbatim>\<open>docs/kerneldoc-src/tools/docs\<close>, \<^verbatim>\<open>docs/generate_rst.py\<close>).

  \<^bold>\<open>How the program works.\<close> \<^verbatim>\<open>KernelFiles\<close> (\<^verbatim>\<open>kdoc_files.py\<close>) collects source files and makes a \<^verbatim>\<open>KernelDoc\<close>
  (\<^verbatim>\<open>kdoc_parser.py\<close>) for each. The parser is a state machine over the lines of the file. It fills a
  \<^verbatim>\<open>KernelEntry\<close> with the sections of a comment, collects the declaration that follows, cuts it into
  tokens (\<^verbatim>\<open>CTokenizer\<close>, \<^verbatim>\<open>c_lex.py\<close>), removes macros (\<^verbatim>\<open>CMatch\<close>, \<^verbatim>\<open>c_lex.py\<close>, with the tables of
  \<^verbatim>\<open>xforms_lists.py\<close>), and stores a \<^verbatim>\<open>KdocItem\<close> (\<^verbatim>\<open>kdoc_item.py\<close>). An \<^verbatim>\<open>OutputFormat\<close> (\<^verbatim>\<open>kdoc_output.py\<close>)
  filters the items and prints them. All pattern matching goes through \<^verbatim>\<open>KernRe\<close> (\<^verbatim>\<open>kdoc_re.py\<close>), a
  cache over Python's \<^verbatim>\<open>re\<close>. With a test file, the items are stored as unit tests instead
  (\<^verbatim>\<open>kdoc_yaml_file.py\<close>). The Sphinx directive (\<^verbatim>\<open>sphinx/kerneldoc.py\<close>) runs \<^verbatim>\<open>KernelFiles\<close> for one file and
  hands the lines to Sphinx; \<^verbatim>\<open>sphinx/automarkup.py\<close> turns names in the text into references;
  \<^verbatim>\<open>generate_rst.py\<close> writes the pages with the directives. The other scripts stand alone: headers
  (\<^verbatim>\<open>parse_data_structs.py\<close>), renamed pages (\<^verbatim>\<open>gen-renames.py\<close>, \<^verbatim>\<open>gen-redirects.py\<close>), translations
  (\<^verbatim>\<open>checktransupdate.py\<close>), builds with many Sphinx versions (\<^verbatim>\<open>test_doc_build.py\<close>), Python versions
  (\<^verbatim>\<open>python_version.py\<close>), fonts, features and kernel interfaces. Each script, and \<^verbatim>\<open>kernel-doc\<close> itself, reads its
  command line with Python's \<^verbatim>\<open>argparse\<close>.

  \<^bold>\<open>Theories.\<close>
  \<^item> \<^verbatim>\<open>Kdoc_Prelude\<close>: results with Python's exceptions (\<open>'a res\<close>), loops over lists that may raise
    (\<open>fold_res\<close>), insertion-ordered dictionaries, and the locales \<open>step_inv\<close>, \<open>safe_step\<close> and
    \<open>ordered_dict\<close> with the lemmas their clients share. \<open>safe E P r\<close> says that \<open>r\<close> raises only exceptions of
    \<open>E\<close> and otherwise satisfies \<open>P\<close>.
  \<^item> \<^verbatim>\<open>Py_Str\<close>, \<^verbatim>\<open>Py_Re\<close>, \<^verbatim>\<open>Py_Match\<close>, \<^verbatim>\<open>Py_Scan\<close>, \<^verbatim>\<open>Re_Chars\<close>: the string methods and the regular
    expressions the sources use: a parser of Python's pattern syntax, a backtracking matcher with
    groups, \<^verbatim>\<open>match\<close>, \<^verbatim>\<open>search\<close>, \<^verbatim>\<open>finditer\<close>, \<^verbatim>\<open>sub\<close> and \<^verbatim>\<open>split\<close>, and the language each pattern describes.
  \<^item> \<^verbatim>\<open>Kern_Re\<close>: \<^verbatim>\<open>kdoc_re.py\<close>; the cache is consistent, and ignores flags.
  \<^item> \<^verbatim>\<open>C_Scanner\<close>, \<^verbatim>\<open>C_Lex\<close>: \<^verbatim>\<open>CToken\<close> and \<^verbatim>\<open>CTokenizer\<close>; tokens tile the source, have values of their
    kind, level counters balance, printing undoes tokenizing, private parts are hidden.
  \<^item> \<^verbatim>\<open>C_Match\<close>: \<^verbatim>\<open>CTokenArgs\<close> and \<^verbatim>\<open>CMatch\<close>; ranges are sound, a macro call is removed exactly, arguments
    are selected by position.
  \<^item> \<^verbatim>\<open>Xforms\<close>: \<^verbatim>\<open>xforms_lists.py\<close>; the exceptions of the tables, and text they leave alone.
  \<^item> \<^verbatim>\<open>Kernel_Entry\<close>, \<^verbatim>\<open>Kdoc_Params\<close>, \<^verbatim>\<open>Kdoc_Struct\<close>, \<^verbatim>\<open>Kdoc_Dump\<close>: \<^verbatim>\<open>KernelEntry\<close>, \<^verbatim>\<open>KdocItem\<close>, and the
    methods of \<^verbatim>\<open>KernelDoc\<close> on parameters, structures, enumerations, variables, functions and typedefs;
    every parameter is described and typed, the rewriting loops end.
  \<^item> \<^verbatim>\<open>Kdoc_Machine\<close>: the nine states and their handlers, system calls and tracepoints, exports, and the
    loop over a file. \<^verbatim>\<open>Kdoc_Safety\<close> proves which exceptions leave it and that all items are well formed;
    \<^verbatim>\<open>Kdoc_Trace\<close> that the handlers refine a small automaton and only append items, under the name that
    was announced; \<^verbatim>\<open>Kdoc_Props\<close> the behaviour of exports, special sections, documentation blocks and
    system call arguments.
  \<^item> \<^verbatim>\<open>Kdoc_Output\<close>, \<^verbatim>\<open>Rest_Format\<close>, \<^verbatim>\<open>Man_Format\<close>: \<^verbatim>\<open>OutputFormat\<close>, \<^verbatim>\<open>RestFormat\<close> and \<^verbatim>\<open>ManFormat\<close>; the virtual
    methods are a record of functions. \<^verbatim>\<open>Rest_Props\<close> and \<^verbatim>\<open>Man_Props\<close> show what printing a well-formed item can
    raise and how texts pass through.
  \<^item> \<^verbatim>\<open>Kdoc_Files\<close>: \<^verbatim>\<open>GlobSourceFiles\<close> and \<^verbatim>\<open>KernelFiles\<close>; \<^verbatim>\<open>Files_Props\<close> shows which files are found, and
    composes the parser and a printer into theorems on the whole run. What \<^verbatim>\<open>KernelFiles\<close> relies on in
    an output format is the locale \<open>out_format\<close>, interpreted for both formats; that the methods of a
    format leave the filter alone is the locale \<open>filter_methods\<close>.
  \<^item> \<^verbatim>\<open>Kdoc_Yaml\<close>: \<^verbatim>\<open>KDocTestFile\<close>, the branch of \<^verbatim>\<open>KernelFiles\<close> that stores tests, and \<^verbatim>\<open>KdocItem.from_dict\<close>;
    names are fresh, lines keep their distances, the whole run is safe.
  \<^item> \<^verbatim>\<open>Py_Num\<close>, \<^verbatim>\<open>Py_Lines\<close>, \<^verbatim>\<open>Doc_Paths\<close>: numbers, lines and relative paths of Python's library.
  \<^item> \<^verbatim>\<open>Data_Structs\<close>, \<^verbatim>\<open>Data_Props\<close>: \<^verbatim>\<open>parse_data_structs.py\<close> and \<^verbatim>\<open>parse-headers.py\<close>; the tables keep their
    invariant, the table of contents is complete, escaping can be undone.
  \<^item> \<^verbatim>\<open>Renames\<close>, \<^verbatim>\<open>Doc_Pages\<close>: \<^verbatim>\<open>gen-renames.py\<close>, \<^verbatim>\<open>gen-redirects.py\<close> and \<^verbatim>\<open>generate_rst.py\<close>; redirects follow
    the log, the pages list exactly the sources.
  \<^item> \<^verbatim>\<open>Automarkup\<close>, \<^verbatim>\<open>Doc_Tree\<close>, \<^verbatim>\<open>Kdoc_Directive\<close>: the Sphinx extensions, from the markup of one text to the
    traversal of a page (\<^verbatim>\<open>auto_markup\<close>); when the text of a page survives, that the traversal is a
    substitution without memory, how line numbers travel, which directives must fail.
  \<^item> \<^verbatim>\<open>Trans_Update\<close>: \<^verbatim>\<open>checktransupdate.py\<close>; paths lead back, the files found, the check ends.
  \<^item> \<^verbatim>\<open>Py_Version\<close>: \<^verbatim>\<open>python_version.py\<close>; printed commands are read back by a shell, the newest Python is
    started.
  \<^item> \<^verbatim>\<open>Doc_Build\<close>, \<^verbatim>\<open>Build_Props\<close>: \<^verbatim>\<open>test_doc_build.py\<close> as actions on a state that survives an exception; the
    loop over the versions follows a plan and, if no command fails, carries it out.
  \<^item> \<^verbatim>\<open>Doc_Tools\<close>: \<^verbatim>\<open>enrich_formatter.py\<close>, \<^verbatim>\<open>latex_fonts.py\<close>, \<^verbatim>\<open>check-variable-fonts.py\<close>, \<^verbatim>\<open>get_feat.py\<close>, \<^verbatim>\<open>get_abi.py\<close>.
  \<^item> \<^verbatim>\<open>Py_Args\<close>: \<^verbatim>\<open>argparse\<close> as far as the scripts use it: options with several names, abbreviations, flags
    joined in one word, counts, appended values, choices, exclusive options, positional arguments of
    every arity, sub-commands, and the ways a parse ends. \<^verbatim>\<open>Args_Props\<close> has the locale \<open>arg_invariant\<close>, a
    predicate on the state of a parse that every action keeps, with its consequences for a whole
    parse; it is interpreted four times (an attribute stays set, attributes stay distinct, strings that
    are left over stay so, and no condition at all). \<^verbatim>\<open>Args_Reading\<close> gives the meaning of an ordinary command line.
  \<^item> \<^verbatim>\<open>Commands\<close>, \<^verbatim>\<open>Commands_Props\<close>: the command line and the main program of each script; a script reads
    only arguments it declared, its exceptions are those of its work, the translation check ends.
  \<^item> \<^verbatim>\<open>Kernel_Doc\<close>, \<^verbatim>\<open>Kernel_Props\<close>: the program \<^verbatim>\<open>kernel-doc\<close>; what its options mean, how it can end and with
    which exit status, and which environment variables have no effect.
  \<^item> \<^verbatim>\<open>Displays\<close>: the \<^verbatim>\<open>__repr__\<close> methods, the names of the states, the options of the directive.

  \<^bold>\<open>State and effects.\<close> Objects are records that are passed and returned; exceptions are values of
  \<open>py_err\<close>; log messages are collected in the state. The file system is a function from paths to nodes,
  the environment a function from names to values, the contents of a file a list of lines (or none,
  if it cannot be read); for \<^verbatim>\<open>kernel-doc\<close> they are a record, \<open>system\<close>. Other programs (git, fc-list, pip, make,
  other Pythons), modules that are not in the repository, the clock and the prompt are arguments of the
  definitions that use them.

  \<^bold>\<open>Termination.\<close> Loops over lines, tokens, parameters and versions are structural; the loops of the
  source that go on until a pattern no longer matches (hiding commas, rewriting nested structures,
  splitting enumerations, the lines of a man page), until a name is free or until a stack of
  directories is empty are total functions whose measures are proved to decrease. Two definitions are
  bounded otherwise: the parser of regular expressions recurses at most once per character of the
  pattern and has the length of the pattern as fuel, so it never runs out; the walk back in the
  history of a file (\<open>origin_loop\<close>) is a partial function, proved to return when histories have no
  cycles.

  \<^bold>\<open>Not modelled.\<close> Debug messages and the format of log messages of \<^verbatim>\<open>kernel-doc\<close>; characters outside Latin-1,
  the verbose mode of \<^verbatim>\<open>re\<close> and look-around, which the sources do not use; \<^verbatim>\<open>re.ASCII\<close> is only faithful on
  ASCII texts; the parsing and printing of dates (\<^verbatim>\<open>strptime\<close>, \<^verbatim>\<open>strftime\<close>) and the YAML library, which are
  Python's and others' code; the help and error texts of \<^verbatim>\<open>argparse\<close>; nested parsing and the resolution of
  references, which belong to Sphinx, and the registration of the extensions there (\<^verbatim>\<open>setup\<close>); the
  settings of \<^verbatim>\<open>conf.py\<close>; the interleaving of the two output streams of a process, which is the order the
  lines are given in; and the C code of \<^verbatim>\<open>wisp\<close>.
\<close>

end
